(* ===== verification/Prelude.thy ===== *)
theory Prelude
  imports Main "HOL-Library.Word"
begin

text \<open>
  Shared base of the development.

  \<^item> Machine integers: \<open>u8\<close>, \<open>u16\<close>, \<open>u32\<close>, \<open>u64\<close> are words of that width; \<open>i32\<close> is a
    32-bit word read with \<^term>\<open>sint\<close>; \<open>usize\<close> is a natural number (64-bit targets; every
    quantity of the code that has this type is bounded far below \<open>2 ^ 64\<close>).
  \<^item> Rust results: \<open>('a, 'e) result\<close> is \<open>Ok\<close>, \<open>Err\<close>, or \<open>Panic\<close>, the value of a read or an
    index that leaves its buffer. A model that never returns \<open>Panic\<close> is code that never
    panics.
  \<^item> Byte order: \<open>to_be_bytes\<close>, \<open>from_be_bytes\<close> and their little-endian twins, which the
    sources use directly and through the big-endian \<open>put_u16\<close>, \<open>put_u32\<close>, \<open>get_u16\<close>,
    \<open>get_u32\<close> of a byte buffer (\<open>wire.rs\<close>: all multi-byte fields are big-endian).
  \<^item> Decoders: a buffer with a read position is the list of bytes not read yet; a decoder
    returns a value and the bytes left.
  \<^item> Strings: a Rust \<open>str\<close> is its UTF-8 bytes, and a HOL \<^typ>\<open>char\<close> is a byte, so a \<open>str\<close>
    is a \<^typ>\<open>string\<close>; the parts of \<open>std\<close> the sources call on strings are here.
  \<^item> Byte streams: the read half of a connection as the bytes the peer will deliver and the
    error that follows them, the write half as the bytes sent and how many more the peer
    will take.
\<close>

unbundle bit_operations_syntax

section \<open>Machine integers\<close>

type_synonym u8 = "8 word"
type_synonym u16 = "16 word"
type_synonym u32 = "32 word"
type_synonym u64 = "64 word"
type_synonym i32 = "32 word"
type_synonym usize = nat
type_synonym bytes = "u8 list"

named_theorems wire_simps \<open>evaluation of buffer reads on known prefixes\<close>
named_theorems wire_length \<open>lengths of encoded messages\<close>

section \<open>Results\<close>

datatype ('a, 'e) result = Ok 'a | Err 'e | Panic

definition rbind :: "('a, 'e) result \<Rightarrow> ('a \<Rightarrow> ('b, 'e) result) \<Rightarrow> ('b, 'e) result" where
  "rbind m f = (case m of Ok a \<Rightarrow> f a | Err e \<Rightarrow> Err e | Panic \<Rightarrow> Panic)"

definition map_err :: "('e \<Rightarrow> 'f) \<Rightarrow> ('a, 'e) result \<Rightarrow> ('a, 'f) result" where
  "map_err f m = (case m of Ok a \<Rightarrow> Ok a | Err e \<Rightarrow> Err (f e) | Panic \<Rightarrow> Panic)"

definition ok_or :: "'a option \<Rightarrow> 'e \<Rightarrow> ('a, 'e) result" where
  "ok_or m e = (case m of None \<Rightarrow> Err e | Some a \<Rightarrow> Ok a)"

fun rmap :: "('a \<Rightarrow> ('b, 'e) result) \<Rightarrow> 'a list \<Rightarrow> ('b list, 'e) result" where
  "rmap f [] = Ok []"
| "rmap f (x # xs) = rbind (f x) (\<lambda>y. rbind (rmap f xs) (\<lambda>ys. Ok (y # ys)))"

section \<open>Byte order\<close>

definition u16_to_be_bytes :: "u16 \<Rightarrow> bytes" where
  "u16_to_be_bytes w = [ucast (drop_bit 8 w), ucast w]"

definition u16_from_be_bytes :: "u8 \<Rightarrow> u8 \<Rightarrow> u16" where
  "u16_from_be_bytes a b = push_bit 8 (ucast a) OR ucast b"

definition u32_to_be_bytes :: "u32 \<Rightarrow> bytes" where
  "u32_to_be_bytes w =
     [ucast (drop_bit 24 w), ucast (drop_bit 16 w), ucast (drop_bit 8 w), ucast w]"

definition u32_from_be_bytes :: "u8 \<Rightarrow> u8 \<Rightarrow> u8 \<Rightarrow> u8 \<Rightarrow> u32" where
  "u32_from_be_bytes a b c d =
     push_bit 24 (ucast a) OR push_bit 16 (ucast b) OR push_bit 8 (ucast c) OR ucast d"

definition u16_to_le_bytes :: "u16 \<Rightarrow> bytes" where
  "u16_to_le_bytes w = rev (u16_to_be_bytes w)"

definition u16_from_le_bytes :: "u8 \<Rightarrow> u8 \<Rightarrow> u16" where
  "u16_from_le_bytes a b = u16_from_be_bytes b a"

definition u32_to_le_bytes :: "u32 \<Rightarrow> bytes" where
  "u32_to_le_bytes w = rev (u32_to_be_bytes w)"

definition u32_from_le_bytes :: "u8 \<Rightarrow> u8 \<Rightarrow> u8 \<Rightarrow> u8 \<Rightarrow> u32" where
  "u32_from_le_bytes a b c d = u32_from_be_bytes d c b a"

section \<open>Decoders over a byte buffer\<close>

type_synonym ('a, 'e) decoder = "bytes \<Rightarrow> ('a \<times> bytes, 'e) result"

definition dreturn :: "'a \<Rightarrow> ('a, 'e) decoder" where
  "dreturn a bs = Ok (a, bs)"

definition derr :: "'e \<Rightarrow> ('a, 'e) decoder" where
  "derr e bs = Err e"

definition dbind :: "('a, 'e) decoder \<Rightarrow> ('a \<Rightarrow> ('b, 'e) decoder) \<Rightarrow> ('b, 'e) decoder" where
  "dbind m f bs = rbind (m bs) (\<lambda>(a, rest). f a rest)"

definition remaining :: "(usize, 'e) decoder" where
  "remaining bs = Ok (length bs, bs)"

fun get_u8 :: "(u8, 'e) decoder" where
  "get_u8 (a # bs) = Ok (a, bs)"
| "get_u8 _ = Panic"

fun get_u16 :: "(u16, 'e) decoder" where
  "get_u16 (a # b # bs) = Ok (u16_from_be_bytes a b, bs)"
| "get_u16 _ = Panic"

fun get_u32 :: "(u32, 'e) decoder" where
  "get_u32 (a # b # c # d # bs) = Ok (u32_from_be_bytes a b c d, bs)"
| "get_u32 _ = Panic"

definition take_bytes :: "usize \<Rightarrow> (bytes, 'e) decoder" where
  "take_bytes n bs = (if n \<le> length bs then Ok (take n bs, drop n bs) else Panic)"

definition advance :: "usize \<Rightarrow> (unit, 'e) decoder" where
  "advance n = dbind (take_bytes n) (\<lambda>_. dreturn ())"

fun repeat_decode :: "nat \<Rightarrow> ('a, 'e) decoder \<Rightarrow> ('a list, 'e) decoder" where
  "repeat_decode 0 d = dreturn []"
| "repeat_decode (Suc n) d = dbind d (\<lambda>x. dbind (repeat_decode n d) (\<lambda>xs. dreturn (x # xs)))"

section \<open>Strings as UTF-8 bytes\<close>

definition byte_of_char :: "char \<Rightarrow> u8" where
  "byte_of_char c = word_of_nat (of_char c)"

definition char_of_byte :: "u8 \<Rightarrow> char" where
  "char_of_byte b = char_of (unat b)"

definition as_bytes :: "string \<Rightarrow> bytes" where
  "as_bytes s = map byte_of_char s"

definition from_bytes :: "bytes \<Rightarrow> string" where
  "from_bytes bs = map char_of_byte bs"

definition is_ascii :: "char \<Rightarrow> bool" where
  "is_ascii c = ((of_char c :: nat) < 128)"

definition is_ascii_digit :: "char \<Rightarrow> bool" where
  "is_ascii_digit c = (48 \<le> (of_char c :: nat) \<and> (of_char c :: nat) \<le> 57)"

text \<open>
  \<open>utf8_char\<close> reads one scalar value at the front of a byte string, as
  \<open>core::str::Utf8Chunks\<close> does: \<open>Inr n\<close> for a well-formed sequence of \<open>n\<close> bytes, \<open>Inl n\<close>
  for an ill-formed prefix of \<open>n\<close> bytes (at least the first byte), \<open>n = 0\<close> only at the end.
\<close>

definition byte_at :: "bytes \<Rightarrow> nat \<Rightarrow> u8" where
  "byte_at bs i = (if i < length bs then bs ! i else 0)"

text \<open>\<open>from_le_bytes\<close> at an offset of a byte array.\<close>

definition u16_le_at :: "bytes \<Rightarrow> nat \<Rightarrow> u16" where
  "u16_le_at buf i = u16_from_le_bytes (byte_at buf i) (byte_at buf (i + 1))"

definition u32_le_at :: "bytes \<Rightarrow> nat \<Rightarrow> u32" where
  "u32_le_at buf i =
     u32_from_le_bytes (byte_at buf i) (byte_at buf (i + 1)) (byte_at buf (i + 2)) (byte_at buf (i + 3))"

definition is_cont :: "u8 \<Rightarrow> bool" where
  "is_cont b = (0x80 \<le> b \<and> b \<le> 0xBF)"

definition utf8_char :: "bytes \<Rightarrow> nat + nat" where
  "utf8_char bs =
     (if bs = [] then Inr 0
      else let b0 = byte_at bs 0; b1 = byte_at bs 1; b2 = byte_at bs 2; b3 = byte_at bs 3 in
        if b0 < 0x80 then Inr 1
        else if 0xC2 \<le> b0 \<and> b0 \<le> 0xDF then (if is_cont b1 then Inr 2 else Inl 1)
        else if 0xE0 \<le> b0 \<and> b0 \<le> 0xEF then
          (if (if b0 = 0xE0 then 0xA0 \<le> b1 \<and> b1 \<le> 0xBF
               else if b0 = 0xED then 0x80 \<le> b1 \<and> b1 \<le> 0x9F else is_cont b1)
           then (if is_cont b2 then Inr 3 else Inl 2) else Inl 1)
        else if 0xF0 \<le> b0 \<and> b0 \<le> 0xF4 then
          (if (if b0 = 0xF0 then 0x90 \<le> b1 \<and> b1 \<le> 0xBF
               else if b0 = 0xF4 then 0x80 \<le> b1 \<and> b1 \<le> 0x8F else is_cont b1)
           then (if is_cont b2 then (if is_cont b3 then Inr 4 else Inl 3) else Inl 2) else Inl 1)
        else Inl 1)"

function utf8_valid :: "bytes \<Rightarrow> bool" where
  "utf8_valid bs =
     (if bs = [] then True
      else case utf8_char bs of Inl _ \<Rightarrow> False
           | Inr n \<Rightarrow> if n = 0 then False else utf8_valid (drop n bs))"
  by pat_completeness auto
termination
  by (relation "measure length") auto

definition from_utf8 :: "bytes \<Rightarrow> string option" where
  "from_utf8 bs = (if utf8_valid bs then Some (from_bytes bs) else None)"

definition replacement_char :: bytes where
  "replacement_char = [0xEF, 0xBF, 0xBD]"

function lossy_bytes :: "bytes \<Rightarrow> bytes" where
  "lossy_bytes bs =
     (if bs = [] then []
      else case utf8_char bs of
        Inl n \<Rightarrow> replacement_char @ (if n = 0 then [] else lossy_bytes (drop n bs))
      | Inr n \<Rightarrow> take n bs @ (if n = 0 then [] else lossy_bytes (drop n bs)))"
  by pat_completeness auto
termination
  by (relation "measure length") auto

definition from_utf8_lossy :: "bytes \<Rightarrow> string" where
  "from_utf8_lossy bs = from_bytes (lossy_bytes bs)"

text \<open>\<open>str::chars\<close>: the characters of a string, each as its UTF-8 encoding.\<close>

function chars_of_bytes :: "bytes \<Rightarrow> bytes list" where
  "chars_of_bytes bs =
     (if bs = [] then []
      else case utf8_char bs of
        Inl n \<Rightarrow> []
      | Inr n \<Rightarrow> if n = 0 then [] else take n bs # chars_of_bytes (drop n bs))"
  by pat_completeness auto
termination
  by (relation "measure length") auto

definition str_chars :: "string \<Rightarrow> string list" where
  "str_chars s = map from_bytes (chars_of_bytes (as_bytes s))"

text \<open>\<open>str::split\<close> by an ASCII character and \<open>str::splitn\<close> with two parts.\<close>

fun split_on :: "char \<Rightarrow> string \<Rightarrow> string list" where
  "split_on c [] = [[]]"
| "split_on c (x # xs) =
     (if x = c then [] # split_on c xs
      else case split_on c xs of [] \<Rightarrow> [[x]] | p # ps \<Rightarrow> (x # p) # ps)"

fun splitn2 :: "char \<Rightarrow> string \<Rightarrow> string \<times> string option" where
  "splitn2 c [] = ([], None)"
| "splitn2 c (x # xs) =
     (if x = c then ([], Some xs) else (case splitn2 c xs of (p, r) \<Rightarrow> (x # p, r)))"

text \<open>
  \<open>str::trim\<close>: the UTF-8 encodings of the code points with the Unicode property
  \<open>White_Space\<close>.
\<close>

definition white_space :: "bytes list" where
  "white_space =
     map (\<lambda>b. [b]) [0x09, 0x0A, 0x0B, 0x0C, 0x0D, 0x20] @
     [[0xC2, 0x85], [0xC2, 0xA0], [0xE1, 0x9A, 0x80]] @
     map (\<lambda>b. [0xE2, 0x80, b])
       [0x80, 0x81, 0x82, 0x83, 0x84, 0x85, 0x86, 0x87, 0x88, 0x89, 0x8A, 0xA8, 0xA9, 0xAF] @
     [[0xE2, 0x81, 0x9F], [0xE3, 0x80, 0x80]]"

definition starts_with :: "'a list \<Rightarrow> 'a list \<Rightarrow> bool" where
  "starts_with p xs = (take (length p) xs = p)"

lemma find_starts_with:
  "find (\<lambda>p. p \<noteq> [] \<and> starts_with p s) ws = Some p \<Longrightarrow> 0 < length s \<and> 0 < length p"
  by (cases s) (auto simp: find_Some_iff starts_with_def)

function trim_by :: "string list \<Rightarrow> string \<Rightarrow> string" where
  "trim_by ws s =
     (case find (\<lambda>p. p \<noteq> [] \<and> starts_with p s) ws of
        None \<Rightarrow> s
      | Some p \<Rightarrow> trim_by ws (drop (length p) s))"
  by pat_completeness auto
termination
  by (relation "measure (\<lambda>(ws, s). length s)")
     (auto dest!: find_starts_with)

definition trim_start :: "string \<Rightarrow> string" where
  "trim_start s = trim_by (map from_bytes white_space) s"

definition trim_end :: "string \<Rightarrow> string" where
  "trim_end s = rev (trim_by (map (rev \<circ> from_bytes) white_space) (rev s))"

definition trim :: "string \<Rightarrow> string" where
  "trim s = trim_end (trim_start s)"

text \<open>\<open>from_str_radix\<close> on an unsigned type: an optional plus sign, then at least one digit.\<close>

definition hex_digit :: "char \<Rightarrow> nat option" where
  "hex_digit c = (let n = (of_char c :: nat) in
     if 48 \<le> n \<and> n \<le> 57 then Some (n - 48)
     else if 97 \<le> n \<and> n \<le> 102 then Some (n - 87)
     else if 65 \<le> n \<and> n \<le> 70 then Some (n - 55)
     else None)"

fun parse_digits :: "nat \<Rightarrow> nat \<Rightarrow> string \<Rightarrow> nat option" where
  "parse_digits radix acc [] = Some acc"
| "parse_digits radix acc (c # cs) =
     (case hex_digit c of
        None \<Rightarrow> None
      | Some d \<Rightarrow> if d < radix then parse_digits radix (acc * radix + d) cs else None)"

definition from_str_radix :: "nat \<Rightarrow> nat \<Rightarrow> string \<Rightarrow> nat option" where
  "from_str_radix width radix s =
     (let digits = (case s of c # cs \<Rightarrow> if c = CHR ''+'' then cs else s | [] \<Rightarrow> [])
      in if digits = [] then None
         else case parse_digits radix 0 digits of
                None \<Rightarrow> None
              | Some n \<Rightarrow> if n < 2 ^ width then Some n else None)"

text \<open>\<open>to_string\<close> of an unsigned integer.\<close>

fun dec_string :: "nat \<Rightarrow> string" where
  "dec_string n =
     (if n < 10 then [char_of (48 + n)] else dec_string (n div 10) @ [char_of (48 + n mod 10)])"

text \<open>\<open>slice::join\<close> with a separator.\<close>

fun join_with :: "string \<Rightarrow> string list \<Rightarrow> string" where
  "join_with sep [] = []"
| "join_with sep [x] = x"
| "join_with sep (x # y # xs) = x @ sep @ join_with sep (y # xs)"

section \<open>Byte streams\<close>

datatype io_error = UnexpectedEof | BrokenPipe | OtherIo

record stream =
  avail :: bytes
  end_error :: io_error

definition read_exact :: "usize \<Rightarrow> stream \<Rightarrow> (bytes \<times> stream, io_error) result" where
  "read_exact n s =
     (if n \<le> length (avail s)
      then Ok (take n (avail s), s\<lparr>avail := drop n (avail s)\<rparr>)
      else Err (end_error s))"

record sink =
  sent :: bytes
  room :: "usize option"

definition write_all :: "bytes \<Rightarrow> sink \<Rightarrow> sink \<times> bool" where
  "write_all bs w =
     (case room w of
        None \<Rightarrow> (w\<lparr>sent := sent w @ bs\<rparr>, True)
      | Some r \<Rightarrow>
          if length bs \<le> r then (w\<lparr>sent := sent w @ bs, room := Some (r - length bs)\<rparr>, True)
          else (w\<lparr>sent := sent w @ take r bs, room := Some 0\<rparr>, False))"

text \<open>A peer that takes everything, and what a peer has sent before it closed the connection.\<close>

abbreviation empty_sink :: sink where
  "empty_sink \<equiv> \<lparr>sent = [], room = None\<rparr>"

abbreviation received :: "bytes \<Rightarrow> stream" where
  "received bs \<equiv> \<lparr>avail = bs, end_error = UnexpectedEof\<rparr>"

section \<open>Lemmas on results\<close>

lemma rbind_simps [simp]:
  "rbind (Ok a) f = f a" "rbind (Err e) f = Err e" "rbind Panic f = Panic"
  by (simp_all add: rbind_def)

lemma rbind_eq_Ok: "rbind m f = Ok b \<longleftrightarrow> (\<exists>a. m = Ok a \<and> f a = Ok b)"
  by (cases m) auto

lemma rbind_eq_Err: "rbind m f = Err e \<longleftrightarrow> m = Err e \<or> (\<exists>a. m = Ok a \<and> f a = Err e)"
  by (cases m) auto

lemma rbind_eq_Panic: "rbind m f = Panic \<longleftrightarrow> m = Panic \<or> (\<exists>a. m = Ok a \<and> f a = Panic)"
  by (cases m) auto

lemma rbind_assoc: "rbind (rbind m f) g = rbind m (\<lambda>x. rbind (f x) g)"
  by (cases m) auto

lemma map_err_simps [simp]:
  "map_err f (Ok a) = Ok a" "map_err f (Err e) = Err (f e)" "map_err f Panic = Panic"
  by (simp_all add: map_err_def)

lemma map_err_eq_Ok [simp]: "map_err f m = Ok a \<longleftrightarrow> m = Ok a"
  by (cases m) auto

lemma map_err_eq_Panic [simp]: "map_err f m = Panic \<longleftrightarrow> m = Panic"
  by (cases m) auto

lemma ok_or_simps [simp]: "ok_or (Some a) e = Ok a" "ok_or None e = Err e"
  by (simp_all add: ok_or_def)

lemma rmap_eq_Ok: "rmap f xs = Ok ys \<longleftrightarrow> list_all2 (\<lambda>x y. f x = Ok y) xs ys"
proof (induction xs arbitrary: ys)
  case (Cons x xs)
  then show ?case by (cases ys) (auto simp: rbind_eq_Ok)
qed auto

section \<open>Lemmas on byte order\<close>

lemma length_to_bytes [simp, wire_length]:
  "length (u16_to_be_bytes v) = 2" "length (u32_to_be_bytes w) = 4"
  "length (u16_to_le_bytes v) = 2" "length (u32_to_le_bytes w) = 4"
  by (simp_all add: u16_to_be_bytes_def u32_to_be_bytes_def u16_to_le_bytes_def u32_to_le_bytes_def)

lemma bit_u8_ge: "8 \<le> n \<Longrightarrow> \<not> bit (b :: u8) n"
  using bit_imp_le_length [of b n] by auto

lemma u16_from_to_be: "u16_from_be_bytes (ucast (drop_bit 8 w)) (ucast w) = w"
  unfolding u16_from_be_bytes_def by (rule bit_word_eqI) (auto simp: bit_simps)

lemma u32_from_to_be:
  "u32_from_be_bytes (ucast (drop_bit 24 w)) (ucast (drop_bit 16 w)) (ucast (drop_bit 8 w))
     (ucast w) = w" for w :: u32
  unfolding u32_from_be_bytes_def
proof (rule bit_word_eqI)
  fix n assume n: "n < LENGTH(32)"
  consider "n < 8" | "8 \<le> n" "n < 16" | "16 \<le> n" "n < 24" | "24 \<le> n" by linarith
  then show "bit (push_bit 24 (ucast (ucast (drop_bit 24 w) :: u8)) OR
               push_bit 16 (ucast (ucast (drop_bit 16 w) :: u8)) OR
               push_bit 8 (ucast (ucast (drop_bit 8 w) :: u8)) OR ucast (ucast w :: u8) :: u32) n
             = bit w n"
    using n by cases (auto simp: bit_simps)
qed

lemma u16_to_from_be: "u16_to_be_bytes (u16_from_be_bytes a b) = [a, b]"
  unfolding u16_from_be_bytes_def u16_to_be_bytes_def
  by (auto simp: bit_simps bit_u8_ge intro!: bit_word_eqI)

lemma u32_to_from_be: "u32_to_be_bytes (u32_from_be_bytes a b c d) = [a, b, c, d]"
  unfolding u32_from_be_bytes_def u32_to_be_bytes_def
  by (auto simp: bit_simps bit_u8_ge intro!: bit_word_eqI)

lemma u16_to_be_cases:
  obtains a b where "u16_to_be_bytes w = [a, b]" "u16_from_be_bytes a b = w"
  by (metis u16_from_to_be u16_to_be_bytes_def)

lemma u32_to_be_cases:
  obtains a b c d where "u32_to_be_bytes w = [a, b, c, d]" "u32_from_be_bytes a b c d = w"
  by (metis u32_from_to_be u32_to_be_bytes_def)

lemma u16_to_le_eq: "u16_to_le_bytes w = [ucast w, ucast (drop_bit 8 w)]"
  by (simp add: u16_to_le_bytes_def u16_to_be_bytes_def)

lemma u32_to_le_eq:
  "u32_to_le_bytes w =
     [ucast w, ucast (drop_bit 8 w), ucast (drop_bit 16 w), ucast (drop_bit 24 w)]"
  by (simp add: u32_to_le_bytes_def u32_to_be_bytes_def)

lemma u16_from_to_le: "u16_from_le_bytes (ucast w) (ucast (drop_bit 8 w)) = w"
  by (simp add: u16_from_le_bytes_def u16_from_to_be)

lemma u32_from_to_le:
  "u32_from_le_bytes (ucast w) (ucast (drop_bit 8 w)) (ucast (drop_bit 16 w))
     (ucast (drop_bit 24 w)) = w"
  by (simp add: u32_from_le_bytes_def u32_from_to_be)

lemma u16_to_from_le: "u16_to_le_bytes (u16_from_le_bytes a b) = [a, b]"
  by (simp add: u16_from_le_bytes_def u16_to_le_bytes_def u16_to_from_be)

lemma u32_to_from_le: "u32_to_le_bytes (u32_from_le_bytes a b c d) = [a, b, c, d]"
  by (simp add: u32_from_le_bytes_def u32_to_le_bytes_def u32_to_from_be)

lemma unat_ucast_small:
  "unat w < 2 ^ LENGTH('b::len) \<Longrightarrow> unat (ucast w :: 'b word) = unat w" for w :: "'a::len word"
  by (simp add: unsigned_ucast_eq unsigned_take_bit_eq take_bit_nat_eq_self)

section \<open>Lemmas on decoders\<close>

lemma dbind_eval [wire_simps]: "dbind m f bs = rbind (m bs) (\<lambda>(a, rest). f a rest)"
  by (simp add: dbind_def)

lemma dreturn_eval [wire_simps]: "dreturn a bs = Ok (a, bs)"
  by (simp add: dreturn_def)

lemma derr_eval [wire_simps]: "derr e bs = Err e"
  by (simp add: derr_def)

lemma remaining_eval [wire_simps]: "remaining bs = Ok (length bs, bs)"
  by (simp add: remaining_def)

lemma get_u16_be [wire_simps]: "get_u16 (u16_to_be_bytes w @ rest) = Ok (w, rest)"
  by (rule u16_to_be_cases [of w]) simp

lemma get_u32_be [wire_simps]: "get_u32 (u32_to_be_bytes w @ rest) = Ok (w, rest)"
  by (rule u32_to_be_cases [of w]) simp

lemma get_u8_be [wire_simps]: "get_u8 (b # rest) = Ok (b, rest)"
  by simp

lemma take_bytes_append [wire_simps]: "length xs = n \<Longrightarrow> take_bytes n (xs @ rest) = Ok (xs, rest)"
  by (simp add: take_bytes_def)

lemma advance_append [wire_simps]: "length xs = n \<Longrightarrow> advance n (xs @ rest) = Ok ((), rest)"
  by (simp add: advance_def wire_simps)

text \<open>Reads inside the buffer: what each returns, as long as enough bytes remain.\<close>

lemma get_u8_ok: "1 \<le> length bs \<Longrightarrow> \<exists>w. get_u8 bs = Ok (w, drop 1 bs)"
  by (cases bs) auto

lemma get_u16_ok: "2 \<le> length bs \<Longrightarrow> \<exists>w. get_u16 bs = Ok (w, drop 2 bs)"
  by (cases bs rule: get_u16.cases) auto

lemma get_u32_ok: "4 \<le> length bs \<Longrightarrow> \<exists>w. get_u32 bs = Ok (w, drop 4 bs)"
  by (cases bs rule: get_u32.cases) auto

lemma take_bytes_ok: "n \<le> length bs \<Longrightarrow> take_bytes n bs = Ok (take n bs, drop n bs)"
  by (simp add: take_bytes_def)

lemma advance_ok: "n \<le> length bs \<Longrightarrow> advance n bs = Ok ((), drop n bs)"
  by (simp add: advance_def wire_simps take_bytes_ok)

text \<open>
  A decoder that, given at least \<open>n\<close> bytes, always succeeds and consumes exactly \<open>n\<close> is
  \<^emph>\<open>exact\<close>; exact decoders compose, which is how a header of many fields is shown not to
  read past a length check done once at its start.
\<close>

definition exact :: "nat \<Rightarrow> ('a, 'e) decoder \<Rightarrow> bool" where
  "exact n d \<longleftrightarrow> (\<forall>bs. n \<le> length bs \<longrightarrow> (\<exists>x. d bs = Ok (x, drop n bs)))"

named_theorems exact_intros \<open>exact decoders\<close>

lemma exact_get:
  "exact 1 get_u8" "exact 2 get_u16" "exact 4 get_u32" "exact n (take_bytes n)" "exact n (advance n)"
  by (auto simp: exact_def get_u8_ok [simplified] get_u16_ok get_u32_ok take_bytes_ok advance_ok)

lemma exact_dreturn [exact_intros]: "t = 0 \<Longrightarrow> exact t (dreturn a)"
  by (simp add: exact_def dreturn_def)

lemma exact_dbind:
  assumes "exact n m" and "\<And>x. exact k (f x)"
  shows "exact (n + k) (dbind m f)"
  unfolding exact_def
proof (intro allI impI)
  fix bs :: bytes
  assume "n + k \<le> length bs"
  then have "n \<le> length bs" "k \<le> length (drop n bs)" by auto
  then obtain x y where "m bs = Ok (x, drop n bs)" "f x (drop n bs) = Ok (y, drop k (drop n bs))"
    using assms unfolding exact_def by meson
  then show "\<exists>x. dbind m f bs = Ok (x, drop (n + k) bs)"
    by (simp add: dbind_def add.commute)
qed

lemma exact_dbind_eq:
  "exact n m \<Longrightarrow> n \<le> t \<Longrightarrow> (\<And>x. exact (t - n) (f x)) \<Longrightarrow> exact t (dbind m f)"
  using exact_dbind [of n m "t - n" f] by simp

lemmas exact_get_binds [exact_intros] = exact_get [THEN exact_dbind_eq]

lemma exactD: "exact n d \<Longrightarrow> n \<le> length bs \<Longrightarrow> \<exists>x. d bs = Ok (x, drop n bs)"
  by (simp add: exact_def)

section \<open>Lemmas on strings\<close>

lemma byte_of_char_of_byte [simp]: "byte_of_char (char_of_byte b) = b"
proof -
  have "unat b < 256" using unsigned_less [of b] by simp
  then show ?thesis by (simp add: byte_of_char_def char_of_byte_def)
qed

lemma char_of_byte_of_char [simp]: "char_of_byte (byte_of_char c) = c"
proof -
  have "of_char c < (2 :: nat) ^ LENGTH(8)" by simp
  then show ?thesis
    by (simp add: byte_of_char_def char_of_byte_def unsigned_of_nat take_bit_nat_eq_self)
qed

lemma from_bytes_as_bytes [simp]: "from_bytes (as_bytes s) = s"
  by (simp add: from_bytes_def as_bytes_def comp_def)

lemma as_bytes_from_bytes [simp]: "as_bytes (from_bytes bs) = bs"
  by (simp add: from_bytes_def as_bytes_def comp_def)

lemma length_as_bytes [simp]: "length (as_bytes s) = length s"
  by (simp add: as_bytes_def)

lemma length_from_bytes [simp]: "length (from_bytes bs) = length bs"
  by (simp add: from_bytes_def)

declare utf8_valid.simps [simp del] chars_of_bytes.simps [simp del] lossy_bytes.simps [simp del] trim_by.simps [simp del]
  dec_string.simps [simp del]

text \<open>Decimal numbers: digits only, and how many of them.\<close>

lemma digit_char: "n < 10 \<Longrightarrow> is_ascii_digit (char_of (48 + n :: nat))"
  by (simp add: is_ascii_digit_def)

lemma dec_string_digits: "dec_string n \<noteq> [] \<and> list_all is_ascii_digit (dec_string n)"
proof (induction n rule: less_induct)
  case (less n)
  then show ?case
    by (cases "n < 10"; subst (1 2) dec_string.simps) (simp_all add: digit_char)
qed

lemma dec_string_length: "n < 10 ^ Suc d \<Longrightarrow> length (dec_string n) \<le> Suc d"
proof (induction d arbitrary: n)
  case (Suc d)
  then show ?case by (subst dec_string.simps) auto
qed (subst dec_string.simps; simp)

lemma splitn2_eq:
  "splitn2 c s = (takeWhile (\<lambda>x. x \<noteq> c) s,
     case dropWhile (\<lambda>x. x \<noteq> c) s of [] \<Rightarrow> None | _ # r \<Rightarrow> Some r)"
  by (induction s) auto

lemma splitn2_append: "c \<notin> set p \<Longrightarrow> splitn2 c (p @ c # r) = (p, Some r)"
  by (induction p) auto

lemma splitn2_Some: "splitn2 c s = (p, Some r) \<Longrightarrow> s = p @ c # r \<and> c \<notin> set p"
  by (auto simp: splitn2_eq dropWhile_eq_Cons_conv dest: set_takeWhileD split: list.splits)
     (metis takeWhile_dropWhile_id)?

lemma split_on_not_Nil [simp]: "split_on c s \<noteq> []"
  by (induction s) (auto split: list.splits)

lemma join_split_on: "join_with [c] (split_on c s) = s"
proof (induction s)
  case (Cons x xs)
  then show ?case by (cases "split_on c xs"; cases "tl (split_on c xs)") (auto split: list.splits)
qed simp

lemma split_on_append: "c \<notin> set p \<Longrightarrow> split_on c (p @ c # r) = p # split_on c r"
  by (induction p) auto

lemma split_on_single: "c \<notin> set p \<Longrightarrow> split_on c p = [p]"
  by (induction p) auto

lemma split_on_join:
  "xs \<noteq> [] \<Longrightarrow> (\<And>x. x \<in> set xs \<Longrightarrow> c \<notin> set x) \<Longrightarrow> split_on c (join_with [c] xs) = xs"
proof (induction xs)
  case (Cons x xs)
  then show ?case by (cases xs) (auto simp: split_on_single split_on_append)
qed simp

text \<open>Hexadecimal digits, upper case, as \<open>{:02X}\<close> prints a byte.\<close>

definition hex_upper :: "nat \<Rightarrow> char" where
  "hex_upper n = char_of (if n < 10 then 48 + n else 55 + n)"

definition format_02X :: "u8 \<Rightarrow> string" where
  "format_02X b = [hex_upper (unat b div 16), hex_upper (unat b mod 16)]"

lemma hex_digit_upper: "n < 16 \<Longrightarrow> hex_digit (hex_upper n) = Some n"
  by (auto simp: hex_digit_def hex_upper_def)

lemma of_char_hex_upper: "n < 16 \<Longrightarrow> of_char (hex_upper n) = (if n < 10 then 48 + n else 55 + n)"
  by (simp add: hex_upper_def)

lemma hex_upper_neq: "n < 16 \<Longrightarrow> hex_upper n \<noteq> CHR ''+'' \<and> hex_upper n \<noteq> CHR '':''"
  using of_char_hex_upper [of n] by (auto split: if_splits)

lemma parse_format_02X: "from_str_radix 8 16 (format_02X b) = Some (unat b)"
proof -
  have "unat b < 256" using unsigned_less [of b] by simp
  then show ?thesis
    by (simp add: from_str_radix_def format_02X_def hex_digit_upper hex_upper_neq)
qed

section \<open>Lemmas on streams\<close>

lemma read_exact_append [simp]:
  "length xs = n \<Longrightarrow> read_exact n \<lparr>avail = xs @ rest, end_error = e\<rparr>
     = Ok (xs, \<lparr>avail = rest, end_error = e\<rparr>)"
  by (simp add: read_exact_def)

lemma read_exact_not_Panic [simp]: "read_exact n s \<noteq> Panic"
  by (simp add: read_exact_def)

lemma read_exact_Ok:
  "read_exact n s = Ok (xs, s') \<Longrightarrow>
     length xs = n \<and> avail s = xs @ avail s' \<and> end_error s' = end_error s"
  by (auto simp: read_exact_def split: if_splits)

lemma read_exact_Err: "read_exact n s = Err e \<Longrightarrow> e = end_error s \<and> length (avail s) < n"
  by (auto simp: read_exact_def split: if_splits)

lemma write_all_unlimited [simp]:
  "room w = None \<Longrightarrow> write_all bs w = (w\<lparr>sent := sent w @ bs\<rparr>, True)"
  by (simp add: write_all_def)

text \<open>Text without white space at its ends is its own trimming.\<close>

definition graphic :: "char \<Rightarrow> bool" where
  "graphic c \<longleftrightarrow> 33 \<le> (of_char c :: nat) \<and> (of_char c :: nat) \<le> 126"

lemma graphic_start:
  assumes "s \<noteq> [] \<Longrightarrow> graphic (hd s)" "\<forall>p \<in> set ws. \<forall>c \<in> set p. \<not> graphic c"
  shows "find (\<lambda>p. p \<noteq> [] \<and> starts_with p s) ws = None"
proof (clarsimp simp: find_None_iff)
  fix p assume p: "p \<in> set ws" "p \<noteq> []" "starts_with p s"
  then have "hd p = hd s" "s \<noteq> []" by (auto simp: starts_with_def) (metis hd_take length_greater_0_conv)
  then show False using assms p(1,2) hd_in_set [OF p(2)] by auto
qed

lemma trim_by_graphic:
  assumes "s \<noteq> [] \<Longrightarrow> graphic (hd s)" "\<forall>p \<in> set ws. \<forall>c \<in> set p. \<not> graphic c"
  shows "trim_by ws s = s"
  by (simp add: trim_by.simps graphic_start [OF assms])

lemma white_space_not_graphic:
  "\<forall>p \<in> set (map from_bytes white_space). \<forall>c \<in> set p. \<not> graphic c"
  by (simp add: white_space_def from_bytes_def char_of_byte_def graphic_def)

lemma trim_graphic_ends:
  assumes "s \<noteq> []" "graphic (hd s)" "graphic (last s)"
  shows "trim s = s"
proof -
  have start: "trim_start s = s"
    using white_space_not_graphic assms unfolding trim_start_def by (intro trim_by_graphic) auto
  have "trim_by (map (rev \<circ> from_bytes) white_space) (rev s) = rev s"
    using white_space_not_graphic assms by (intro trim_by_graphic) (auto simp: hd_rev)
  then show ?thesis by (simp add: trim_def start trim_end_def)
qed

lemma trim_graphic: "\<forall>c \<in> set s. graphic c \<Longrightarrow> trim s = s"
proof (cases "s = []")
  case True
  have "trim_by ws [] = []" if "\<forall>p \<in> set ws. \<forall>c \<in> set p. \<not> graphic c" for ws
    using that by (intro trim_by_graphic) auto
  then show ?thesis
    using True white_space_not_graphic by (simp add: trim_def trim_start_def trim_end_def)
qed (simp add: trim_graphic_ends)

end
