(* ===== verification/Wire_Codes.thy ===== *)
theory Wire_Codes
  imports Prelude
begin

text \<open>
  \<open>extender-protocol/src/codes.rs\<close>, \<open>error.rs\<close> and \<open>wire.rs\<close>: version, op codes and command
  codes, the protocol's errors, and the trait \<open>WireFormat\<close> as the locale \<open>wire_format\<close>. The
  locale's lemmas hold for every message type that implements the trait: a message is
  recovered from the front of any buffer, encodings are prefix-free, and a run of encoded
  messages decodes to the same run.
\<close>

section \<open>Codes\<close>

definition USBIP_VERSION :: u16 where
  "USBIP_VERSION = 0x0111"

definition USBIP_PORT :: u16 where
  "USBIP_PORT = 3240"

datatype OpCode = OpReqDevlist_Code | OpRepDevlist_Code | OpReqImport_Code | OpRepImport_Code

fun OpCode_as_u16 :: "OpCode \<Rightarrow> u16" where
  "OpCode_as_u16 OpReqDevlist_Code = 0x8005"
| "OpCode_as_u16 OpRepDevlist_Code = 0x0005"
| "OpCode_as_u16 OpReqImport_Code = 0x8003"
| "OpCode_as_u16 OpRepImport_Code = 0x0003"

definition OpCode_from_raw :: "u16 \<Rightarrow> OpCode option" where
  "OpCode_from_raw value =
     (if value = 0x8005 then Some OpReqDevlist_Code
      else if value = 0x0005 then Some OpRepDevlist_Code
      else if value = 0x8003 then Some OpReqImport_Code
      else if value = 0x0003 then Some OpRepImport_Code
      else None)"

datatype Command = CmdSubmit_Code | CmdUnlink_Code | RetSubmit_Code | RetUnlink_Code

fun Command_as_u32 :: "Command \<Rightarrow> u32" where
  "Command_as_u32 CmdSubmit_Code = 0x00000001"
| "Command_as_u32 CmdUnlink_Code = 0x00000002"
| "Command_as_u32 RetSubmit_Code = 0x00000003"
| "Command_as_u32 RetUnlink_Code = 0x00000004"

definition Command_from_raw :: "u32 \<Rightarrow> Command option" where
  "Command_from_raw value =
     (if value = 0x00000001 then Some CmdSubmit_Code
      else if value = 0x00000002 then Some CmdUnlink_Code
      else if value = 0x00000003 then Some RetSubmit_Code
      else if value = 0x00000004 then Some RetUnlink_Code
      else None)"

section \<open>Errors\<close>

datatype ProtocolError =
    InvalidCommand u32
  | InvalidOpCode u16
  | BufferTooShort usize usize \<comment> \<open>needed, available\<close>
  | InvalidBusId string
  | UnsupportedVersion u16
  | Io io_error
  | RemoteError u32
  | TransferTooLarge u32 u32 \<comment> \<open>length, max\<close>
  | TooManyDevices u32 u32 \<comment> \<open>count, max\<close>
  | TooManyIsoPackets u32 u32 \<comment> \<open>count, max\<close>

text \<open>
  \<open>if buf.remaining() < n { return Err(BufferTooShort { needed: n, available: .. }) }\<close>, the
  check every \<open>decode\<close> makes before it reads.
\<close>

definition need :: "usize \<Rightarrow> ('a, ProtocolError) decoder \<Rightarrow> ('a, ProtocolError) decoder" where
  "need n d = dbind remaining (\<lambda>r. if r < n then derr (BufferTooShort n r) else d)"

section \<open>Codes are inverse to their raw values\<close>

lemma OpCode_from_raw_as_u16 [simp]: "OpCode_from_raw (OpCode_as_u16 c) = Some c"
  by (cases c) (simp_all add: OpCode_from_raw_def)

lemma OpCode_from_raw_Some: "OpCode_from_raw v = Some c \<longleftrightarrow> v = OpCode_as_u16 c"
  by (cases c) (auto simp: OpCode_from_raw_def split: if_splits)

lemma Command_from_raw_as_u32 [simp]: "Command_from_raw (Command_as_u32 c) = Some c"
  by (cases c) (simp_all add: Command_from_raw_def)

lemma Command_from_raw_Some: "Command_from_raw v = Some c \<longleftrightarrow> v = Command_as_u32 c"
  by (cases c) (auto simp: Command_from_raw_def split: if_splits)

section \<open>Decoders that stay inside their buffer\<close>

lemma need_eval [wire_simps]:
  "need n d bs = (if length bs < n then Err (BufferTooShort n (length bs)) else d bs)"
  by (simp add: need_def wire_simps)

lemma get_u8_iff: "get_u8 bs = Ok (w, r) \<longleftrightarrow> bs = w # r"
  by (cases bs) auto

lemma get_u16_iff: "get_u16 bs = Ok (w, r) \<longleftrightarrow> bs = u16_to_be_bytes w @ r"
proof
  show "get_u16 bs = Ok (w, r) \<Longrightarrow> bs = u16_to_be_bytes w @ r"
    by (cases bs rule: get_u16.cases) (auto simp: u16_to_from_be)
qed (simp add: get_u16_be)

lemma get_u32_iff: "get_u32 bs = Ok (w, r) \<longleftrightarrow> bs = u32_to_be_bytes w @ r"
proof
  show "get_u32 bs = Ok (w, r) \<Longrightarrow> bs = u32_to_be_bytes w @ r"
    by (cases bs rule: get_u32.cases) (auto simp: u32_to_from_be)
qed (simp add: get_u32_be)

lemma take_bytes_iff: "take_bytes n bs = Ok (xs, r) \<longleftrightarrow> length xs = n \<and> bs = xs @ r"
  by (auto simp: take_bytes_def)

lemma advance_iff: "advance n bs = Ok (u, r) \<longleftrightarrow> (\<exists>xs. length xs = n \<and> bs = xs @ r)"
  by (auto simp: advance_def wire_simps rbind_eq_Ok take_bytes_iff)

lemmas get_iffs = get_u8_iff get_u16_iff get_u32_iff take_bytes_iff advance_iff

text \<open>
  \<open>safe n d\<close>: with at least \<open>n\<close> bytes in the buffer, \<open>d\<close> does not panic. A decoder that is
  safe at \<open>0\<close> never panics.
\<close>

definition safe :: "nat \<Rightarrow> ('a, 'e) decoder \<Rightarrow> bool" where
  "safe n d \<longleftrightarrow> (\<forall>bs. n \<le> length bs \<longrightarrow> d bs \<noteq> Panic)"

named_theorems safe_intros \<open>decoders that do not panic\<close>

lemma exact_imp_safe: "exact n d \<Longrightarrow> safe n d"
  by (fastforce simp: exact_def safe_def)

lemma safe_derr [safe_intros]: "safe n (derr e)"
  by (simp add: safe_def derr_def)

lemma safe_dreturn [safe_intros]: "safe n (dreturn a)"
  by (simp add: safe_def dreturn_def)

lemma safe_if [safe_intros]: "(b \<Longrightarrow> safe n d) \<Longrightarrow> (\<not> b \<Longrightarrow> safe n e) \<Longrightarrow> safe n (if b then d else e)"
  by simp

lemma safe_need [safe_intros]: "safe n d \<Longrightarrow> safe 0 (need n d)"
  by (simp add: safe_def need_eval not_less)

lemma safe_dbind_exact:
  assumes "exact n m" and "n \<le> t" and "\<And>x. safe (t - n) (f x)"
  shows "safe t (dbind m f)"
  unfolding safe_def
proof (intro allI impI)
  fix bs :: bytes
  assume "t \<le> length bs"
  then have "n \<le> length bs" "t - n \<le> length (drop n bs)" using assms(2) by auto
  then obtain x where "m bs = Ok (x, drop n bs)" "f x (drop n bs) \<noteq> Panic"
    using assms(1,3) unfolding exact_def safe_def by meson
  then show "dbind m f bs \<noteq> Panic" by (simp add: dbind_def)
qed

lemmas safe_get_binds [safe_intros] = exact_get [THEN safe_dbind_exact]

lemma safe_dbind:
  assumes "safe 0 m" and "\<And>x. safe 0 (f x)"
  shows "safe 0 (dbind m f)"
  using assms by (auto simp: safe_def dbind_def rbind_eq_Panic)

lemma safe_repeat_decode [safe_intros]: "safe 0 d \<Longrightarrow> safe 0 (repeat_decode n d)"
  by (induction n) (auto intro!: safe_intros safe_dbind)

lemma safeD: "safe 0 d \<Longrightarrow> d bs \<noteq> Panic"
  by (simp add: safe_def)

section \<open>The trait WireFormat\<close>

text \<open>
  \<open>ok\<close> is what the Rust types and the sender guarantee about a message (array lengths, a
  count field that agrees with its list).
\<close>

locale wire_format =
  fixes encode :: "'a \<Rightarrow> bytes"
    and decode :: "('a, ProtocolError) decoder"
    and wire_size :: "'a \<Rightarrow> usize"
    and ok :: "'a \<Rightarrow> bool"
  assumes encode_size: "ok x \<Longrightarrow> length (encode x) = wire_size x"
    and decode_encode: "ok x \<Longrightarrow> decode (encode x @ rest) = Ok (x, rest)"
    and decode_safe: "safe 0 decode"
    and decode_ok: "decode bs = Ok (x, rest) \<Longrightarrow> ok x"
    and decode_consumes: "decode bs = Ok (x, rest) \<Longrightarrow> \<exists>m. bs = m @ rest \<and> length m = wire_size x"
begin

lemma prefix_free:
  assumes "ok x" "ok y" "encode x @ r = encode y @ s"
  shows "x = y \<and> r = s"
proof -
  have "Ok (x, r) = decode (encode y @ s)"
    unfolding assms(3) [symmetric] by (rule decode_encode [OF assms(1), symmetric])
  then show ?thesis by (simp add: decode_encode [OF assms(2)])
qed

lemma encode_inj: "ok x \<Longrightarrow> ok y \<Longrightarrow> encode x = encode y \<longleftrightarrow> x = y"
  using prefix_free [of x y "[]" "[]"] by auto

lemma repeat_decode_encode:
  "(\<And>x. x \<in> set xs \<Longrightarrow> ok x) \<Longrightarrow>
     repeat_decode (length xs) decode (concat (map encode xs) @ rest) = Ok (xs, rest)"
  by (induction xs) (auto simp: wire_simps decode_encode)

lemma length_encode_list:
  "(\<And>x. x \<in> set xs \<Longrightarrow> ok x) \<Longrightarrow> length (concat (map encode xs)) = sum_list (map wire_size xs)"
  by (induction xs) (auto simp: encode_size)

lemma repeat_decode_props:
  "repeat_decode n decode bs = Ok (xs, rest) \<Longrightarrow>
     length xs = n \<and> (\<forall>x \<in> set xs. ok x) \<and>
     (\<exists>m. bs = m @ rest \<and> length m = sum_list (map wire_size xs))"
proof (induction n arbitrary: bs xs)
  case 0
  then show ?case by (simp add: wire_simps)
next
  case (Suc n)
  from Suc.prems obtain x r ys where
    x: "decode bs = Ok (x, r)" and ys: "repeat_decode n decode r = Ok (ys, rest)" and "xs = x # ys"
    by (auto simp: wire_simps rbind_eq_Ok)
  from x obtain m where "bs = m @ r" "length m = wire_size x" "ok x"
    using decode_consumes decode_ok by blast
  moreover from Suc.IH [OF ys] obtain m' where "r = m' @ rest"
    "length m' = sum_list (map wire_size ys)" "length ys = n" "\<forall>x \<in> set ys. ok x" by auto
  ultimately show ?case using \<open>xs = x # ys\<close> by (auto intro: exI [of _ "m @ m'"])
qed

lemma decode_size: "decode bs = Ok (x, rest) \<Longrightarrow> length bs = wire_size x + length rest"
  using decode_consumes by fastforce

lemma safe_decode_list: "safe 0 (repeat_decode n decode)"
  by (intro safe_repeat_decode decode_safe)

end

text \<open>
  A format with no ignored or reserved bytes is canonical: the bytes a successful \<open>decode\<close>
  consumed are the encoding of what it returned.
\<close>

locale canonical_wire_format = wire_format +
  assumes decode_canonical: "decode bs = Ok (x, rest) \<Longrightarrow> bs = encode x @ rest"
begin

lemma decode_iff: "decode bs = Ok (x, rest) \<longleftrightarrow> ok x \<and> bs = encode x @ rest"
  using decode_canonical decode_encode decode_ok by blast

lemma repeat_decode_canonical:
  "repeat_decode n decode bs = Ok (xs, rest) \<Longrightarrow> bs = concat (map encode xs) @ rest"
proof (induction n arbitrary: bs xs)
  case 0
  then show ?case by (simp add: wire_simps)
next
  case (Suc n)
  then show ?case by (fastforce simp: wire_simps rbind_eq_Ok dest!: decode_canonical)
qed

end

end
