(* ===== verification/Wire_Device.thy ===== *)
theory Wire_Device
  imports Wire_Codes
begin

text \<open>
  \<open>extender-protocol/src/device.rs\<close>: device and interface descriptors as they travel in
  DEVLIST and IMPORT replies. The fixed-size arrays \<open>[u8; 256]\<close> and \<open>[u8; 32]\<close> are byte
  lists, and \<open>UsbDevice_ok\<close> states their lengths. The three codecs (device alone,
  interface, device with its interfaces) implement the locale \<open>wire_format\<close>.
\<close>

section \<open>Descriptors\<close>

definition DEVICE_PATH_SIZE :: usize where
  "DEVICE_PATH_SIZE = 256"

definition BUSID_SIZE :: usize where
  "BUSID_SIZE = 32"

type_synonym BusId = bytes

record UsbInterface =
  interface_class :: u8
  interface_subclass :: u8
  interface_protocol :: u8
  padding :: u8

record UsbDevice =
  path :: bytes
  busid :: BusId
  busnum :: u32
  devnum :: u32
  speed :: u32
  id_vendor :: u16
  id_product :: u16
  bcd_device :: u16
  device_class :: u8
  device_subclass :: u8
  device_protocol :: u8
  configuration_value :: u8
  num_configurations :: u8
  num_interfaces :: u8
  interfaces :: "UsbInterface list"

definition USB_DEVICE_WIRE_SIZE :: usize where
  "USB_DEVICE_WIRE_SIZE = 312"

definition USB_INTERFACE_WIRE_SIZE :: usize where
  "USB_INTERFACE_WIRE_SIZE = 4"

section \<open>Null-padded strings\<close>

definition until_nul :: "bytes \<Rightarrow> bytes" where
  "until_nul bs = takeWhile (\<lambda>b. b \<noteq> 0) bs"

definition busid_string :: "UsbDevice \<Rightarrow> string" where
  "busid_string d =
     (case from_utf8 (until_nul (busid d)) of Some s \<Rightarrow> s | None \<Rightarrow> '''')"

definition path_string :: "UsbDevice \<Rightarrow> string" where
  "path_string d =
     (case from_utf8 (until_nul (path d)) of Some s \<Rightarrow> s | None \<Rightarrow> '''')"

definition busid_from_str :: "string \<Rightarrow> (BusId, ProtocolError) result" where
  "busid_from_str s =
     (if BUSID_SIZE \<le> length s
      then Err (InvalidBusId (''bus ID too long: '' @ dec_string (length s) @ '' bytes (max '' @
                              dec_string (BUSID_SIZE - 1) @ '')''))
      else if \<not> list_all is_ascii s then Err (InvalidBusId ''bus ID must be ASCII'')
      else Ok (as_bytes s @ replicate (BUSID_SIZE - length s) 0))"

definition path_from_str :: "string \<Rightarrow> bytes" where
  "path_from_str s =
     (let len = min (length s) (DEVICE_PATH_SIZE - 1)
      in take len (as_bytes s) @ replicate (DEVICE_PATH_SIZE - len) 0)"

section \<open>Wire format\<close>

definition UsbDevice_encode :: "UsbDevice \<Rightarrow> bytes" where
  "UsbDevice_encode d =
     path d @ busid d @ u32_to_be_bytes (busnum d) @ u32_to_be_bytes (devnum d) @
     u32_to_be_bytes (speed d) @ u16_to_be_bytes (id_vendor d) @ u16_to_be_bytes (id_product d) @
     u16_to_be_bytes (bcd_device d) @
     [device_class d, device_subclass d, device_protocol d, configuration_value d,
      num_configurations d, num_interfaces d]"

definition UsbDevice_decode :: "(UsbDevice, ProtocolError) decoder" where
  "UsbDevice_decode =
     need USB_DEVICE_WIRE_SIZE
       (dbind (take_bytes DEVICE_PATH_SIZE) (\<lambda>p. dbind (take_bytes BUSID_SIZE) (\<lambda>b.
        dbind get_u32 (\<lambda>bnum. dbind get_u32 (\<lambda>dnum. dbind get_u32 (\<lambda>spd.
        dbind get_u16 (\<lambda>vid. dbind get_u16 (\<lambda>pid. dbind get_u16 (\<lambda>bcd.
        dbind get_u8 (\<lambda>cls. dbind get_u8 (\<lambda>sub. dbind get_u8 (\<lambda>prot.
        dbind get_u8 (\<lambda>cfg. dbind get_u8 (\<lambda>ncfg. dbind get_u8 (\<lambda>nif.
        dreturn \<lparr>path = p, busid = b, busnum = bnum, devnum = dnum, speed = spd,
                 id_vendor = vid, id_product = pid, bcd_device = bcd, device_class = cls,
                 device_subclass = sub, device_protocol = prot, configuration_value = cfg,
                 num_configurations = ncfg, num_interfaces = nif,
                 interfaces = []\<rparr>)))))))))))))))"

definition UsbDevice_wire_size :: "UsbDevice \<Rightarrow> usize" where
  "UsbDevice_wire_size d = USB_DEVICE_WIRE_SIZE"

definition UsbInterface_encode :: "UsbInterface \<Rightarrow> bytes" where
  "UsbInterface_encode i =
     [interface_class i, interface_subclass i, interface_protocol i, padding i]"

definition UsbInterface_decode :: "(UsbInterface, ProtocolError) decoder" where
  "UsbInterface_decode =
     need USB_INTERFACE_WIRE_SIZE
       (dbind get_u8 (\<lambda>c. dbind get_u8 (\<lambda>s. dbind get_u8 (\<lambda>p. dbind get_u8 (\<lambda>pad.
        dreturn \<lparr>interface_class = c, interface_subclass = s, interface_protocol = p,
                 padding = pad\<rparr>)))))"

definition UsbInterface_wire_size :: "UsbInterface \<Rightarrow> usize" where
  "UsbInterface_wire_size i = USB_INTERFACE_WIRE_SIZE"

definition decode_device_with_interfaces :: "(UsbDevice, ProtocolError) decoder" where
  "decode_device_with_interfaces =
     dbind UsbDevice_decode (\<lambda>device.
       let num_ifaces = unat (num_interfaces device)
       in need (num_ifaces * USB_INTERFACE_WIRE_SIZE)
            (dbind (repeat_decode num_ifaces UsbInterface_decode) (\<lambda>ifs.
               dreturn (device\<lparr>interfaces := interfaces device @ ifs\<rparr>))))"

definition encode_device_with_interfaces :: "UsbDevice \<Rightarrow> bytes" where
  "encode_device_with_interfaces d =
     UsbDevice_encode d @ concat (map UsbInterface_encode (interfaces d))"

text \<open>
  What the array types guarantee; for a device encoded alone, that it carries no
  interfaces (they are not sent); for a device sent with its interfaces, that the count
  field counts them.
\<close>

definition UsbDevice_ok :: "UsbDevice \<Rightarrow> bool" where
  "UsbDevice_ok d \<longleftrightarrow> length (path d) = DEVICE_PATH_SIZE \<and> length (busid d) = BUSID_SIZE"

definition UsbDevice_bare :: "UsbDevice \<Rightarrow> bool" where
  "UsbDevice_bare d \<longleftrightarrow> UsbDevice_ok d \<and> interfaces d = []"

definition UsbDevice_full :: "UsbDevice \<Rightarrow> bool" where
  "UsbDevice_full d \<longleftrightarrow> UsbDevice_ok d \<and> length (interfaces d) = unat (num_interfaces d)"

definition device_with_interfaces_size :: "UsbDevice \<Rightarrow> usize" where
  "device_with_interfaces_size d =
     USB_DEVICE_WIRE_SIZE + length (interfaces d) * USB_INTERFACE_WIRE_SIZE"

lemmas wire_consts = DEVICE_PATH_SIZE_def BUSID_SIZE_def USB_DEVICE_WIRE_SIZE_def
  USB_INTERFACE_WIRE_SIZE_def

section \<open>The interface codec\<close>

interpretation iface: canonical_wire_format UsbInterface_encode UsbInterface_decode
  UsbInterface_wire_size "\<lambda>_. True"
proof unfold_locales
  show "safe 0 UsbInterface_decode"
    unfolding UsbInterface_decode_def
    by (intro safe_intros) (simp_all add: wire_consts)
  show "UsbInterface_decode (UsbInterface_encode x @ rest) = Ok (x, rest)" for x rest
    by (simp add: UsbInterface_decode_def UsbInterface_encode_def wire_simps wire_consts)
  show can: "bs = UsbInterface_encode x @ rest" if "UsbInterface_decode bs = Ok (x, rest)" for bs x rest
    using that
    by (auto simp: UsbInterface_decode_def UsbInterface_encode_def wire_simps rbind_eq_Ok
      get_iffs split: if_splits)
  show "\<exists>m. bs = m @ rest \<and> length m = UsbInterface_wire_size x"
    if "UsbInterface_decode bs = Ok (x, rest)" for bs x rest
    using can [OF that]
    by (auto simp: UsbInterface_encode_def UsbInterface_wire_size_def wire_consts)
qed (simp_all add: UsbInterface_encode_def UsbInterface_wire_size_def wire_consts)

section \<open>The device codec\<close>

lemma length_UsbDevice_encode [simp, wire_length]:
  "UsbDevice_ok d \<Longrightarrow> length (UsbDevice_encode d) = USB_DEVICE_WIRE_SIZE"
  by (simp add: UsbDevice_encode_def UsbDevice_ok_def wire_consts)

lemma UsbDevice_decode_encode:
  "UsbDevice_ok d \<Longrightarrow> UsbDevice_decode (UsbDevice_encode d @ rest) = Ok (d\<lparr>interfaces := []\<rparr>, rest)"
  by (simp add: UsbDevice_decode_def UsbDevice_encode_def UsbDevice_ok_def wire_simps wire_consts)

lemma UsbDevice_decode_Ok:
  "UsbDevice_decode bs = Ok (d, rest) \<longleftrightarrow> UsbDevice_bare d \<and> bs = UsbDevice_encode d @ rest"
proof
  assume "UsbDevice_decode bs = Ok (d, rest)"
  then show "UsbDevice_bare d \<and> bs = UsbDevice_encode d @ rest"
    by (auto simp: UsbDevice_decode_def UsbDevice_encode_def UsbDevice_bare_def UsbDevice_ok_def
      wire_simps rbind_eq_Ok get_iffs split: if_splits)
qed (auto simp: UsbDevice_bare_def UsbDevice_decode_encode)

interpretation udev: canonical_wire_format UsbDevice_encode UsbDevice_decode
  UsbDevice_wire_size UsbDevice_bare
proof unfold_locales
  show "safe 0 UsbDevice_decode"
    unfolding UsbDevice_decode_def
    by (intro safe_intros) (simp_all add: wire_consts)
qed (auto simp: UsbDevice_decode_Ok UsbDevice_bare_def UsbDevice_wire_size_def UsbDevice_decode_encode)

section \<open>Devices with their interfaces\<close>

lemma length_interfaces_encode [simp]:
  "length (concat (map UsbInterface_encode is)) = length is * USB_INTERFACE_WIRE_SIZE"
  by (simp add: iface.length_encode_list UsbInterface_wire_size_def [abs_def] sum_list_triv)

lemma decode_device_with_interfaces_Ok:
  "decode_device_with_interfaces bs = Ok (d, rest) \<longleftrightarrow>
     UsbDevice_full d \<and> bs = encode_device_with_interfaces d @ rest"
proof
  assume "decode_device_with_interfaces bs = Ok (d, rest)"
  then obtain d0 ifs r where d0: "UsbDevice_bare d0" "bs = UsbDevice_encode d0 @ r"
    and ifs: "repeat_decode (unat (num_interfaces d0)) UsbInterface_decode r = Ok (ifs, rest)"
    and d: "d = d0\<lparr>interfaces := ifs\<rparr>"
    by (auto simp: decode_device_with_interfaces_def Let_def wire_simps rbind_eq_Ok
      UsbDevice_decode_Ok UsbDevice_bare_def split: if_splits)
  from iface.repeat_decode_props [OF ifs] iface.repeat_decode_canonical [OF ifs] d0 d
  show "UsbDevice_full d \<and> bs = encode_device_with_interfaces d @ rest"
    by (simp add: UsbDevice_full_def UsbDevice_bare_def UsbDevice_ok_def
      encode_device_with_interfaces_def UsbDevice_encode_def)
next
  assume "UsbDevice_full d \<and> bs = encode_device_with_interfaces d @ rest"
  then show "decode_device_with_interfaces bs = Ok (d, rest)"
    using iface.repeat_decode_encode [of "interfaces d" rest]
    by (simp add: decode_device_with_interfaces_def encode_device_with_interfaces_def
      UsbDevice_full_def Let_def wire_simps UsbDevice_decode_encode)
qed

lemma safe_decode_device_with_interfaces: "safe 0 decode_device_with_interfaces"
proof -
  have "safe 0 (need n (dbind (repeat_decode k UsbInterface_decode) (\<lambda>ifs. dreturn (f ifs))))"
    for n k and f :: "UsbInterface list \<Rightarrow> UsbDevice"
  proof (rule safe_need)
    have "safe 0 (dbind (repeat_decode k UsbInterface_decode) (\<lambda>ifs. dreturn (f ifs)))"
      by (intro safe_dbind iface.safe_decode_list safe_intros)
    then show "safe n (dbind (repeat_decode k UsbInterface_decode) (\<lambda>ifs. dreturn (f ifs)))"
      by (simp add: safe_def)
  qed
  then show ?thesis
    unfolding decode_device_with_interfaces_def Let_def
    by (intro safe_dbind udev.decode_safe)
qed

interpretation fulldev: canonical_wire_format encode_device_with_interfaces
  decode_device_with_interfaces device_with_interfaces_size UsbDevice_full
  by unfold_locales
     (auto simp: decode_device_with_interfaces_Ok safe_decode_device_with_interfaces
        encode_device_with_interfaces_def device_with_interfaces_size_def UsbDevice_full_def)

section \<open>Bus IDs\<close>

lemma byte_of_char_eq_0 [simp]: "byte_of_char c = 0 \<longleftrightarrow> c = CHR 0x00"
proof
  assume "byte_of_char c = 0"
  then have "c = char_of_byte 0" by (metis char_of_byte_of_char)
  then show "c = CHR 0x00" by (simp add: char_of_byte_def char_of_def)
qed (simp add: byte_of_char_def)

lemma until_nul_padded:
  "CHR 0x00 \<notin> set s \<Longrightarrow> until_nul (as_bytes s @ replicate n 0) = as_bytes s"
  unfolding until_nul_def as_bytes_def
  by (subst takeWhile_append2) (auto simp: takeWhile_replicate)

lemma utf8_valid_ascii: "(\<And>b. b \<in> set bs \<Longrightarrow> b < 0x80) \<Longrightarrow> utf8_valid bs"
  by (induction bs) (auto simp: utf8_valid.simps [of "_ # _"] utf8_valid.simps [of "[]"]
    utf8_char_def byte_at_def)

lemma byte_of_char_ascii: "is_ascii c \<Longrightarrow> byte_of_char c < 0x80"
  by (simp add: is_ascii_def byte_of_char_def word_less_nat_alt unsigned_of_nat
    take_bit_nat_eq_self)

lemma from_utf8_ascii: "list_all is_ascii s \<Longrightarrow> from_utf8 (as_bytes s) = Some s"
proof -
  assume "list_all is_ascii s"
  then have "utf8_valid (as_bytes s)"
    by (intro utf8_valid_ascii) (auto simp: as_bytes_def list_all_iff byte_of_char_ascii)
  then show ?thesis by (simp add: from_utf8_def)
qed

lemma busid_from_str_Ok:
  "busid_from_str s = Ok b \<longleftrightarrow>
     length s < BUSID_SIZE \<and> list_all is_ascii s \<and> b = as_bytes s @ replicate (BUSID_SIZE - length s) 0"
  by (auto simp: busid_from_str_def)

end
