(* ===== verification/Wire_Discovery.thy ===== *)
theory Wire_Discovery
  imports Wire_Device
begin

text \<open>
  \<open>extender-protocol/src/discovery.rs\<close>: the DEVLIST and IMPORT messages that open a
  connection. Each message has its \<open>encode\<close>, \<open>decode\<close> and \<open>wire_size\<close>, and each codec is an
  instance of the locale \<open>wire_format\<close>.
\<close>

section \<open>Messages\<close>

definition OP_HEADER_SIZE :: usize where
  "OP_HEADER_SIZE = 8"

definition OP_REQ_IMPORT_SIZE :: usize where
  "OP_REQ_IMPORT_SIZE = 40"

definition MAX_DEVICES_IN_DEVLIST :: u32 where
  "MAX_DEVICES_IN_DEVLIST = 256"

datatype OpReqDevlist = OpReqDevlist

record OpRepDevlist =
  devlist_status :: u32
  devlist_devices :: "UsbDevice list"

record OpReqImport =
  import_busid :: BusId

record OpRepImport =
  import_status :: u32
  import_device :: "UsbDevice option"

datatype OpMessage =
    ReqDevlist OpReqDevlist
  | RepDevlist OpRepDevlist
  | ReqImport OpReqImport
  | RepImport OpRepImport

text \<open>The checks on version and op code that open every \<open>decode\<close>; the status field is returned.\<close>

definition decode_op_header :: "OpCode \<Rightarrow> (u32, ProtocolError) decoder" where
  "decode_op_header opcode =
     dbind get_u16 (\<lambda>version.
       if version \<noteq> USBIP_VERSION then derr (UnsupportedVersion version)
       else dbind get_u16 (\<lambda>code.
         if code \<noteq> OpCode_as_u16 opcode then derr (InvalidOpCode code)
         else get_u32))"

definition encode_op_header :: "OpCode \<Rightarrow> u32 \<Rightarrow> bytes" where
  "encode_op_header opcode status =
     u16_to_be_bytes USBIP_VERSION @ u16_to_be_bytes (OpCode_as_u16 opcode) @ u32_to_be_bytes status"

section \<open>Wire format\<close>

definition OpReqDevlist_encode :: "OpReqDevlist \<Rightarrow> bytes" where
  "OpReqDevlist_encode m = encode_op_header OpReqDevlist_Code 0"

definition OpReqDevlist_decode :: "(OpReqDevlist, ProtocolError) decoder" where
  "OpReqDevlist_decode =
     need OP_HEADER_SIZE
       (dbind (decode_op_header OpReqDevlist_Code) (\<lambda>_. dreturn OpReqDevlist))"

definition OpReqDevlist_wire_size :: "OpReqDevlist \<Rightarrow> usize" where
  "OpReqDevlist_wire_size m = OP_HEADER_SIZE"

definition OpRepDevlist_encode :: "OpRepDevlist \<Rightarrow> bytes" where
  "OpRepDevlist_encode m =
     encode_op_header OpRepDevlist_Code (devlist_status m) @
     u32_to_be_bytes (word_of_nat (length (devlist_devices m))) @
     concat (map encode_device_with_interfaces (devlist_devices m))"

definition OpRepDevlist_decode :: "(OpRepDevlist, ProtocolError) decoder" where
  "OpRepDevlist_decode =
     need (OP_HEADER_SIZE + 4)
       (dbind (decode_op_header OpRepDevlist_Code) (\<lambda>status.
        dbind get_u32 (\<lambda>num_devices_raw.
        if num_devices_raw > MAX_DEVICES_IN_DEVLIST
        then derr (TooManyDevices num_devices_raw MAX_DEVICES_IN_DEVLIST)
        else dbind (repeat_decode (unat num_devices_raw) decode_device_with_interfaces) (\<lambda>devices.
             dreturn \<lparr>devlist_status = status, devlist_devices = devices\<rparr>))))"

definition OpRepDevlist_wire_size :: "OpRepDevlist \<Rightarrow> usize" where
  "OpRepDevlist_wire_size m =
     OP_HEADER_SIZE + 4 +
     sum_list (map (\<lambda>d. USB_DEVICE_WIRE_SIZE + length (interfaces d) * USB_INTERFACE_WIRE_SIZE)
       (devlist_devices m))"

definition OpReqImport_encode :: "OpReqImport \<Rightarrow> bytes" where
  "OpReqImport_encode m = encode_op_header OpReqImport_Code 0 @ import_busid m"

definition OpReqImport_decode :: "(OpReqImport, ProtocolError) decoder" where
  "OpReqImport_decode =
     need OP_REQ_IMPORT_SIZE
       (dbind (decode_op_header OpReqImport_Code) (\<lambda>_.
        dbind (take_bytes 32) (\<lambda>b. dreturn \<lparr>import_busid = b\<rparr>)))"

definition OpReqImport_wire_size :: "OpReqImport \<Rightarrow> usize" where
  "OpReqImport_wire_size m = OP_REQ_IMPORT_SIZE"

definition OpRepImport_encode :: "OpRepImport \<Rightarrow> bytes" where
  "OpRepImport_encode m =
     encode_op_header OpRepImport_Code (import_status m) @
     (case import_device m of Some device \<Rightarrow> UsbDevice_encode device | None \<Rightarrow> [])"

definition OpRepImport_decode :: "(OpRepImport, ProtocolError) decoder" where
  "OpRepImport_decode =
     need OP_HEADER_SIZE
       (dbind (decode_op_header OpRepImport_Code) (\<lambda>status.
        if status = 0
        then dbind UsbDevice_decode (\<lambda>d.
               dreturn \<lparr>import_status = status, import_device = Some d\<rparr>)
        else dreturn \<lparr>import_status = status, import_device = None\<rparr>))"

definition OpRepImport_wire_size :: "OpRepImport \<Rightarrow> usize" where
  "OpRepImport_wire_size m =
     OP_HEADER_SIZE + (if import_device m \<noteq> None then USB_DEVICE_WIRE_SIZE else 0)"

text \<open>
  Messages a peer can be sent: the DEVLIST bound and the array lengths hold, and an IMPORT
  reply has a device exactly when it reports success.
\<close>

definition OpRepDevlist_ok :: "OpRepDevlist \<Rightarrow> bool" where
  "OpRepDevlist_ok m \<longleftrightarrow>
     length (devlist_devices m) \<le> unat MAX_DEVICES_IN_DEVLIST \<and>
     (\<forall>d \<in> set (devlist_devices m). UsbDevice_full d)"

definition OpReqImport_ok :: "OpReqImport \<Rightarrow> bool" where
  "OpReqImport_ok m \<longleftrightarrow> length (import_busid m) = BUSID_SIZE"

definition OpRepImport_ok :: "OpRepImport \<Rightarrow> bool" where
  "OpRepImport_ok m \<longleftrightarrow>
     (case import_device m of
        Some d \<Rightarrow> import_status m = 0 \<and> UsbDevice_bare d
      | None \<Rightarrow> import_status m \<noteq> 0)"

lemmas op_consts = OP_HEADER_SIZE_def OP_REQ_IMPORT_SIZE_def wire_consts

section \<open>The header\<close>

lemma length_encode_op_header [simp, wire_length]: "length (encode_op_header c st) = OP_HEADER_SIZE"
  by (simp add: encode_op_header_def OP_HEADER_SIZE_def)

lemma decode_op_header_encode [wire_simps]:
  "decode_op_header c (encode_op_header c st @ rest) = Ok (st, rest)"
  by (simp add: decode_op_header_def encode_op_header_def wire_simps)

lemma decode_op_header_Ok:
  "decode_op_header c bs = Ok (st, rest) \<longleftrightarrow> bs = encode_op_header c st @ rest"
  by (auto simp: decode_op_header_def encode_op_header_def wire_simps rbind_eq_Ok get_iffs
    split: if_splits)

lemma safe_decode_op_header_bind:
  assumes "8 \<le> t" and "\<And>x. safe (t - 8) (f x)"
  shows "safe t (dbind (decode_op_header c) f)"
  unfolding safe_def
proof (intro allI impI)
  fix bs :: bytes
  assume t: "t \<le> length bs"
  have "safe 8 (decode_op_header c)"
    unfolding decode_op_header_def
    by (intro safe_intros exact_imp_safe exact_get) (auto intro: exact_imp_safe exact_get)
  then have "decode_op_header c bs \<noteq> Panic" using t assms(1) by (simp add: safe_def)
  moreover have "f st r \<noteq> Panic" if "decode_op_header c bs = Ok (st, r)" for st r
    using assms(2) t that
    by (auto simp: safe_def decode_op_header_Ok OP_HEADER_SIZE_def)
  ultimately show "dbind (decode_op_header c) f bs \<noteq> Panic"
    by (auto simp: dbind_def rbind_eq_Panic)
qed

lemma safe_weaken: "safe 0 d \<Longrightarrow> safe n d"
  by (simp add: safe_def)

section \<open>Every discovery message is a wire format\<close>

interpretation req_devlist: wire_format OpReqDevlist_encode OpReqDevlist_decode
  OpReqDevlist_wire_size "\<lambda>_. True"
proof unfold_locales
  show "safe 0 OpReqDevlist_decode"
    unfolding OpReqDevlist_decode_def
    by (intro safe_need safe_decode_op_header_bind safe_intros) (simp_all add: op_consts)
  show "\<exists>m. bs = m @ rest \<and> length m = OpReqDevlist_wire_size x"
    if "OpReqDevlist_decode bs = Ok (x, rest)" for bs x rest
    using that
    by (auto simp: OpReqDevlist_decode_def OpReqDevlist_wire_size_def wire_simps rbind_eq_Ok
      decode_op_header_Ok split: if_splits)
  show "OpReqDevlist_decode (OpReqDevlist_encode x @ rest) = Ok (x, rest)" for x rest
    by (cases x) (simp add: OpReqDevlist_decode_def OpReqDevlist_encode_def wire_simps)
qed (simp_all add: OpReqDevlist_encode_def OpReqDevlist_wire_size_def)

interpretation rep_devlist: canonical_wire_format OpRepDevlist_encode OpRepDevlist_decode
  OpRepDevlist_wire_size OpRepDevlist_ok
proof unfold_locales
  note defs = OpRepDevlist_encode_def OpRepDevlist_decode_def OpRepDevlist_wire_size_def
    OpRepDevlist_ok_def
  have sz: "(\<lambda>d. USB_DEVICE_WIRE_SIZE + length (interfaces d) * USB_INTERFACE_WIRE_SIZE)
      = device_with_interfaces_size"
    by (simp add: device_with_interfaces_size_def [abs_def])
  show size: "length (OpRepDevlist_encode x) = OpRepDevlist_wire_size x" if "OpRepDevlist_ok x" for x
    using that fulldev.length_encode_list [of "devlist_devices x"] by (simp add: defs sz)
  show "OpRepDevlist_decode (OpRepDevlist_encode x @ rest) = Ok (x, rest)"
    if "OpRepDevlist_ok x" for x rest
  proof -
    have le: "length (devlist_devices x) \<le> 256"
      using that by (simp add: defs MAX_DEVICES_IN_DEVLIST_def)
    then have "unat (word_of_nat (length (devlist_devices x)) :: u32) = length (devlist_devices x)"
      by (simp add: unsigned_of_nat take_bit_nat_eq_self)
    then show ?thesis
      using that le fulldev.repeat_decode_encode [of "devlist_devices x" rest]
      by (simp add: defs wire_simps MAX_DEVICES_IN_DEVLIST_def word_less_nat_alt)
  qed
  show "safe 0 OpRepDevlist_decode"
    unfolding OpRepDevlist_decode_def
    by (intro safe_need safe_decode_op_header_bind safe_intros safe_weaken [OF safe_dbind]
        fulldev.decode_safe) (simp_all add: op_consts)
  show can: "bs = OpRepDevlist_encode x @ rest" and "OpRepDevlist_ok x"
    if dec: "OpRepDevlist_decode bs = Ok (x, rest)" for bs x rest
  proof -
    from dec obtain n r where n: "\<not> MAX_DEVICES_IN_DEVLIST < n"
      and bs: "bs = encode_op_header OpRepDevlist_Code (devlist_status x) @ u32_to_be_bytes n @ r"
      and ds: "repeat_decode (unat n) decode_device_with_interfaces r = Ok (devlist_devices x, rest)"
      by (auto simp: OpRepDevlist_decode_def wire_simps rbind_eq_Ok decode_op_header_Ok get_iffs
        split: if_splits)
    from fulldev.repeat_decode_props [OF ds] have len: "length (devlist_devices x) = unat n" by simp
    then show "bs = OpRepDevlist_encode x @ rest"
      using fulldev.repeat_decode_canonical [OF ds] bs by (simp add: OpRepDevlist_encode_def)
    show "OpRepDevlist_ok x"
      using fulldev.repeat_decode_props [OF ds] n
      by (simp add: OpRepDevlist_ok_def word_less_nat_alt)
  qed
  show "\<exists>m. bs = m @ rest \<and> length m = OpRepDevlist_wire_size x"
    if "OpRepDevlist_decode bs = Ok (x, rest)" for bs x rest
    using can [OF that] \<open>OpRepDevlist_decode bs = Ok (x, rest) \<Longrightarrow> OpRepDevlist_ok x\<close> size that
    by (intro exI [of _ "OpRepDevlist_encode x"]) simp
qed

interpretation req_import: wire_format OpReqImport_encode OpReqImport_decode
  OpReqImport_wire_size OpReqImport_ok
proof unfold_locales
  note defs = OpReqImport_encode_def OpReqImport_decode_def OpReqImport_wire_size_def
    OpReqImport_ok_def
  show "safe 0 OpReqImport_decode"
    unfolding OpReqImport_decode_def
    by (intro safe_need safe_decode_op_header_bind safe_intros) (simp_all add: op_consts)
  show "\<exists>m. bs = m @ rest \<and> length m = OpReqImport_wire_size x" "OpReqImport_ok x"
    if "OpReqImport_decode bs = Ok (x, rest)" for bs x rest
    using that
    by (auto simp: defs op_consts wire_simps rbind_eq_Ok decode_op_header_Ok get_iffs
      split: if_splits)
  show "OpReqImport_decode (OpReqImport_encode x @ rest) = Ok (x, rest)"
    "length (OpReqImport_encode x) = OpReqImport_wire_size x" if "OpReqImport_ok x" for x rest
    using that by (simp_all add: defs op_consts wire_simps)
qed

interpretation rep_import: canonical_wire_format OpRepImport_encode OpRepImport_decode
  OpRepImport_wire_size OpRepImport_ok
proof unfold_locales
  note defs = OpRepImport_encode_def OpRepImport_decode_def OpRepImport_wire_size_def
    OpRepImport_ok_def
  show "safe 0 OpRepImport_decode"
    unfolding OpRepImport_decode_def
    by (intro safe_need safe_decode_op_header_bind safe_intros safe_weaken [OF safe_dbind]
        udev.decode_safe) (simp_all add: op_consts)
  show "\<exists>m. bs = m @ rest \<and> length m = OpRepImport_wire_size x" "OpRepImport_ok x"
    "bs = OpRepImport_encode x @ rest"
    if "OpRepImport_decode bs = Ok (x, rest)" for bs x rest
    using that
    by (auto simp: defs wire_simps rbind_eq_Ok decode_op_header_Ok UsbDevice_decode_Ok
      UsbDevice_bare_def split: if_splits)
  show "OpRepImport_decode (OpRepImport_encode x @ rest) = Ok (x, rest)"
    "length (OpRepImport_encode x) = OpRepImport_wire_size x" if "OpRepImport_ok x" for x rest
    using that
    by (auto simp: defs wire_simps UsbDevice_bare_def UsbDevice_decode_encode split: option.splits)
qed

end
