(* ===== verification/Wire_Urb.thy ===== *)
theory Wire_Urb
  imports Wire_Discovery
begin

text \<open>
  \<open>extender-protocol/src/urb.rs\<close>: the messages of the URB phase, which follows a successful
  IMPORT. Every message opens with the 20-byte basic header; CMD_SUBMIT carries the transfer
  buffer when the direction is OUT, RET_SUBMIT when it is IN, and both end with the
  isochronous packet descriptors. A signed field (\<open>i32\<close>) is the word with its bits. The
  padding of RET_SUBMIT, CMD_UNLINK and RET_UNLINK is written as zeros and ignored on
  reception.
\<close>

section \<open>Constants\<close>

definition ECONNRESET :: i32 where
  "ECONNRESET = - 104"

definition HEADER_BASIC_SIZE :: usize where
  "HEADER_BASIC_SIZE = 20"

definition CMD_SUBMIT_FIELDS_SIZE :: usize where
  "CMD_SUBMIT_FIELDS_SIZE = 28"

definition RET_SUBMIT_FIELDS_SIZE :: usize where
  "RET_SUBMIT_FIELDS_SIZE = 28"

definition CMD_UNLINK_FIELDS_SIZE :: usize where
  "CMD_UNLINK_FIELDS_SIZE = 28"

definition RET_UNLINK_FIELDS_SIZE :: usize where
  "RET_UNLINK_FIELDS_SIZE = 28"

definition MAX_TRANSFER_BUFFER_LENGTH :: u32 where
  "MAX_TRANSFER_BUFFER_LENGTH = 1048576"

definition MAX_ISO_PACKETS :: u32 where
  "MAX_ISO_PACKETS = 1024"

definition ISO_PACKET_DESCRIPTOR_SIZE :: usize where
  "ISO_PACKET_DESCRIPTOR_SIZE = 16"

definition NON_ISO_PACKETS_SENTINEL :: u32 where
  "NON_ISO_PACKETS_SENTINEL = 0xFFFFFFFF"

definition URB_HEADER_TOTAL_SIZE :: usize where
  "URB_HEADER_TOTAL_SIZE = 48"

section \<open>Messages\<close>

record UsbipHeaderBasic =
  hdr_command :: u32
  hdr_seqnum :: u32
  hdr_devid :: u32
  hdr_direction :: u32
  hdr_ep :: u32

record IsoPacketDescriptor =
  iso_offset :: u32
  iso_length :: u32
  iso_actual_length :: u32
  iso_status :: u32

definition is_iso_transfer :: "u32 \<Rightarrow> bool" where
  "is_iso_transfer number_of_packets = (number_of_packets \<noteq> NON_ISO_PACKETS_SENTINEL)"

record CmdSubmit =
  cs_header :: UsbipHeaderBasic
  cs_transfer_flags :: u32
  cs_transfer_buffer_length :: u32
  cs_start_frame :: u32
  cs_number_of_packets :: u32
  cs_interval :: u32
  cs_setup :: bytes
  cs_transfer_buffer :: bytes
  cs_iso_packet_descriptors :: "IsoPacketDescriptor list"

record RetSubmit =
  rs_header :: UsbipHeaderBasic
  rs_status :: i32
  rs_actual_length :: u32
  rs_start_frame :: u32
  rs_number_of_packets :: u32
  rs_error_count :: u32
  rs_transfer_buffer :: bytes
  rs_iso_packet_descriptors :: "IsoPacketDescriptor list"

record CmdUnlink =
  cu_header :: UsbipHeaderBasic
  cu_unlink_seqnum :: u32

record RetUnlink =
  ru_header :: UsbipHeaderBasic
  ru_status :: i32

datatype UrbMessage =
    CmdSubmit CmdSubmit
  | RetSubmit RetSubmit
  | CmdUnlink CmdUnlink
  | RetUnlink RetUnlink

section \<open>Wire format\<close>

definition UsbipHeaderBasic_encode :: "UsbipHeaderBasic \<Rightarrow> bytes" where
  "UsbipHeaderBasic_encode h =
     u32_to_be_bytes (hdr_command h) @ u32_to_be_bytes (hdr_seqnum h) @
     u32_to_be_bytes (hdr_devid h) @ u32_to_be_bytes (hdr_direction h) @ u32_to_be_bytes (hdr_ep h)"

definition UsbipHeaderBasic_decode :: "(UsbipHeaderBasic, ProtocolError) decoder" where
  "UsbipHeaderBasic_decode =
     need HEADER_BASIC_SIZE
       (dbind get_u32 (\<lambda>c. dbind get_u32 (\<lambda>s. dbind get_u32 (\<lambda>dev. dbind get_u32 (\<lambda>dir.
        dbind get_u32 (\<lambda>e.
        dreturn \<lparr>hdr_command = c, hdr_seqnum = s, hdr_devid = dev, hdr_direction = dir,
                 hdr_ep = e\<rparr>))))))"

definition UsbipHeaderBasic_wire_size :: "UsbipHeaderBasic \<Rightarrow> usize" where
  "UsbipHeaderBasic_wire_size h = HEADER_BASIC_SIZE"

definition IsoPacketDescriptor_encode :: "IsoPacketDescriptor \<Rightarrow> bytes" where
  "IsoPacketDescriptor_encode d =
     u32_to_be_bytes (iso_offset d) @ u32_to_be_bytes (iso_length d) @
     u32_to_be_bytes (iso_actual_length d) @ u32_to_be_bytes (iso_status d)"

definition IsoPacketDescriptor_decode :: "(IsoPacketDescriptor, ProtocolError) decoder" where
  "IsoPacketDescriptor_decode =
     need ISO_PACKET_DESCRIPTOR_SIZE
       (dbind get_u32 (\<lambda>off. dbind get_u32 (\<lambda>len. dbind get_u32 (\<lambda>act. dbind get_u32 (\<lambda>st.
        dreturn \<lparr>iso_offset = off, iso_length = len, iso_actual_length = act,
                 iso_status = st\<rparr>)))))"

definition IsoPacketDescriptor_wire_size :: "IsoPacketDescriptor \<Rightarrow> usize" where
  "IsoPacketDescriptor_wire_size d = ISO_PACKET_DESCRIPTOR_SIZE"

text \<open>
  The tails of CMD_SUBMIT and RET_SUBMIT, written twice in the code with the same text: a
  transfer buffer of a known length, then the packet descriptors.
\<close>

definition encode_iso_packets :: "u32 \<Rightarrow> IsoPacketDescriptor list \<Rightarrow> bytes" where
  "encode_iso_packets number_of_packets descs =
     (if is_iso_transfer number_of_packets then concat (map IsoPacketDescriptor_encode descs)
      else [])"

definition decode_transfer_buffer :: "usize \<Rightarrow> (bytes, ProtocolError) decoder" where
  "decode_transfer_buffer buf_len =
     need buf_len (if buf_len > 0 then take_bytes buf_len else dreturn [])"

definition decode_iso_packets :: "u32 \<Rightarrow> (IsoPacketDescriptor list, ProtocolError) decoder" where
  "decode_iso_packets number_of_packets =
     (if is_iso_transfer number_of_packets
      then if number_of_packets > MAX_ISO_PACKETS
           then derr (TooManyIsoPackets number_of_packets MAX_ISO_PACKETS)
           else need (unat number_of_packets * ISO_PACKET_DESCRIPTOR_SIZE)
                  (repeat_decode (unat number_of_packets) IsoPacketDescriptor_decode)
      else dreturn [])"

definition CmdSubmit_encode :: "CmdSubmit \<Rightarrow> bytes" where
  "CmdSubmit_encode m =
     UsbipHeaderBasic_encode (cs_header m) @
     u32_to_be_bytes (cs_transfer_flags m) @ u32_to_be_bytes (cs_transfer_buffer_length m) @
     u32_to_be_bytes (cs_start_frame m) @ u32_to_be_bytes (cs_number_of_packets m) @
     u32_to_be_bytes (cs_interval m) @ cs_setup m @ cs_transfer_buffer m @
     encode_iso_packets (cs_number_of_packets m) (cs_iso_packet_descriptors m)"

definition CmdSubmit_decode :: "(CmdSubmit, ProtocolError) decoder" where
  "CmdSubmit_decode =
     dbind UsbipHeaderBasic_decode (\<lambda>header.
       if hdr_command header \<noteq> Command_as_u32 CmdSubmit_Code
       then derr (InvalidCommand (hdr_command header))
       else need CMD_SUBMIT_FIELDS_SIZE
        (dbind get_u32 (\<lambda>transfer_flags. dbind get_u32 (\<lambda>transfer_buffer_length.
         if transfer_buffer_length > MAX_TRANSFER_BUFFER_LENGTH
         then derr (TransferTooLarge transfer_buffer_length MAX_TRANSFER_BUFFER_LENGTH)
         else dbind get_u32 (\<lambda>start_frame. dbind get_u32 (\<lambda>number_of_packets.
              dbind get_u32 (\<lambda>interval. dbind (take_bytes 8) (\<lambda>setup.
              dbind (decode_transfer_buffer
                       (if hdr_direction header = 0 then unat transfer_buffer_length else 0))
                (\<lambda>transfer_buffer. dbind (decode_iso_packets number_of_packets) (\<lambda>descs.
              dreturn \<lparr>cs_header = header, cs_transfer_flags = transfer_flags,
                       cs_transfer_buffer_length = transfer_buffer_length,
                       cs_start_frame = start_frame, cs_number_of_packets = number_of_packets,
                       cs_interval = interval, cs_setup = setup,
                       cs_transfer_buffer = transfer_buffer,
                       cs_iso_packet_descriptors = descs\<rparr>))))))))))"

definition CmdSubmit_wire_size :: "CmdSubmit \<Rightarrow> usize" where
  "CmdSubmit_wire_size m =
     URB_HEADER_TOTAL_SIZE + length (cs_transfer_buffer m) +
     length (cs_iso_packet_descriptors m) * ISO_PACKET_DESCRIPTOR_SIZE"

definition RetSubmit_encode :: "RetSubmit \<Rightarrow> bytes" where
  "RetSubmit_encode m =
     UsbipHeaderBasic_encode (rs_header m) @
     u32_to_be_bytes (rs_status m) @ u32_to_be_bytes (rs_actual_length m) @
     u32_to_be_bytes (rs_start_frame m) @ u32_to_be_bytes (rs_number_of_packets m) @
     u32_to_be_bytes (rs_error_count m) @ replicate 8 0 @ rs_transfer_buffer m @
     encode_iso_packets (rs_number_of_packets m) (rs_iso_packet_descriptors m)"

definition RetSubmit_decode :: "(RetSubmit, ProtocolError) decoder" where
  "RetSubmit_decode =
     dbind UsbipHeaderBasic_decode (\<lambda>header.
       if hdr_command header \<noteq> Command_as_u32 RetSubmit_Code
       then derr (InvalidCommand (hdr_command header))
       else need RET_SUBMIT_FIELDS_SIZE
        (dbind get_u32 (\<lambda>status. dbind get_u32 (\<lambda>actual_length.
         if actual_length > MAX_TRANSFER_BUFFER_LENGTH
         then derr (TransferTooLarge actual_length MAX_TRANSFER_BUFFER_LENGTH)
         else dbind get_u32 (\<lambda>start_frame. dbind get_u32 (\<lambda>number_of_packets.
              dbind get_u32 (\<lambda>error_count. dbind (advance 8) (\<lambda>_.
              dbind (decode_transfer_buffer
                       (if hdr_direction header = 1 then unat actual_length else 0))
                (\<lambda>transfer_buffer. dbind (decode_iso_packets number_of_packets) (\<lambda>descs.
              dreturn \<lparr>rs_header = header, rs_status = status,
                       rs_actual_length = actual_length, rs_start_frame = start_frame,
                       rs_number_of_packets = number_of_packets, rs_error_count = error_count,
                       rs_transfer_buffer = transfer_buffer,
                       rs_iso_packet_descriptors = descs\<rparr>))))))))))"

definition RetSubmit_wire_size :: "RetSubmit \<Rightarrow> usize" where
  "RetSubmit_wire_size m =
     URB_HEADER_TOTAL_SIZE + length (rs_transfer_buffer m) +
     length (rs_iso_packet_descriptors m) * ISO_PACKET_DESCRIPTOR_SIZE"

definition CmdUnlink_encode :: "CmdUnlink \<Rightarrow> bytes" where
  "CmdUnlink_encode m =
     UsbipHeaderBasic_encode (cu_header m) @ u32_to_be_bytes (cu_unlink_seqnum m) @ replicate 24 0"

definition CmdUnlink_decode :: "(CmdUnlink, ProtocolError) decoder" where
  "CmdUnlink_decode =
     dbind UsbipHeaderBasic_decode (\<lambda>header.
       if hdr_command header \<noteq> Command_as_u32 CmdUnlink_Code
       then derr (InvalidCommand (hdr_command header))
       else need CMD_UNLINK_FIELDS_SIZE
        (dbind get_u32 (\<lambda>unlink_seqnum. dbind (advance 24) (\<lambda>_.
         dreturn \<lparr>cu_header = header, cu_unlink_seqnum = unlink_seqnum\<rparr>))))"

definition CmdUnlink_wire_size :: "CmdUnlink \<Rightarrow> usize" where
  "CmdUnlink_wire_size m = URB_HEADER_TOTAL_SIZE"

definition RetUnlink_encode :: "RetUnlink \<Rightarrow> bytes" where
  "RetUnlink_encode m =
     UsbipHeaderBasic_encode (ru_header m) @ u32_to_be_bytes (ru_status m) @ replicate 24 0"

definition RetUnlink_decode :: "(RetUnlink, ProtocolError) decoder" where
  "RetUnlink_decode =
     dbind UsbipHeaderBasic_decode (\<lambda>header.
       if hdr_command header \<noteq> Command_as_u32 RetUnlink_Code
       then derr (InvalidCommand (hdr_command header))
       else need RET_UNLINK_FIELDS_SIZE
        (dbind get_u32 (\<lambda>status. dbind (advance 24) (\<lambda>_.
         dreturn \<lparr>ru_header = header, ru_status = status\<rparr>))))"

definition RetUnlink_wire_size :: "RetUnlink \<Rightarrow> usize" where
  "RetUnlink_wire_size m = URB_HEADER_TOTAL_SIZE"

text \<open>
  Messages that survive the wire: the header has the message's command, the lengths agree
  with the length fields and the direction, and the bounds hold.
\<close>

definition iso_packets_ok :: "u32 \<Rightarrow> IsoPacketDescriptor list \<Rightarrow> bool" where
  "iso_packets_ok n descs \<longleftrightarrow>
     (if is_iso_transfer n then n \<le> MAX_ISO_PACKETS \<and> length descs = unat n else descs = [])"

definition CmdSubmit_ok :: "CmdSubmit \<Rightarrow> bool" where
  "CmdSubmit_ok m \<longleftrightarrow>
     hdr_command (cs_header m) = Command_as_u32 CmdSubmit_Code \<and>
     cs_transfer_buffer_length m \<le> MAX_TRANSFER_BUFFER_LENGTH \<and>
     length (cs_setup m) = 8 \<and>
     length (cs_transfer_buffer m) =
       (if hdr_direction (cs_header m) = 0 then unat (cs_transfer_buffer_length m) else 0) \<and>
     iso_packets_ok (cs_number_of_packets m) (cs_iso_packet_descriptors m)"

definition RetSubmit_ok :: "RetSubmit \<Rightarrow> bool" where
  "RetSubmit_ok m \<longleftrightarrow>
     hdr_command (rs_header m) = Command_as_u32 RetSubmit_Code \<and>
     rs_actual_length m \<le> MAX_TRANSFER_BUFFER_LENGTH \<and>
     length (rs_transfer_buffer m) =
       (if hdr_direction (rs_header m) = 1 then unat (rs_actual_length m) else 0) \<and>
     iso_packets_ok (rs_number_of_packets m) (rs_iso_packet_descriptors m)"

definition CmdUnlink_ok :: "CmdUnlink \<Rightarrow> bool" where
  "CmdUnlink_ok m \<longleftrightarrow> hdr_command (cu_header m) = Command_as_u32 CmdUnlink_Code"

definition RetUnlink_ok :: "RetUnlink \<Rightarrow> bool" where
  "RetUnlink_ok m \<longleftrightarrow> hdr_command (ru_header m) = Command_as_u32 RetUnlink_Code"

lemmas urb_consts = HEADER_BASIC_SIZE_def CMD_SUBMIT_FIELDS_SIZE_def RET_SUBMIT_FIELDS_SIZE_def
  CMD_UNLINK_FIELDS_SIZE_def RET_UNLINK_FIELDS_SIZE_def ISO_PACKET_DESCRIPTOR_SIZE_def
  URB_HEADER_TOTAL_SIZE_def

section \<open>Header and packet descriptors\<close>

interpretation hdr: canonical_wire_format UsbipHeaderBasic_encode UsbipHeaderBasic_decode
  UsbipHeaderBasic_wire_size "\<lambda>_. True"
proof unfold_locales
  note defs = UsbipHeaderBasic_encode_def UsbipHeaderBasic_decode_def UsbipHeaderBasic_wire_size_def
  show "safe 0 UsbipHeaderBasic_decode"
    unfolding UsbipHeaderBasic_decode_def by (intro safe_intros) (simp_all add: urb_consts)
  show "UsbipHeaderBasic_decode (UsbipHeaderBasic_encode x @ rest) = Ok (x, rest)"
    "length (UsbipHeaderBasic_encode x) = UsbipHeaderBasic_wire_size x" for x rest
    by (simp_all add: defs wire_simps urb_consts)
  show "bs = UsbipHeaderBasic_encode x @ rest" if "UsbipHeaderBasic_decode bs = Ok (x, rest)" for bs x rest
    using that
    by (auto simp: defs wire_simps rbind_eq_Ok get_iffs split: if_splits)
  then show "\<exists>m. bs = m @ rest \<and> length m = UsbipHeaderBasic_wire_size x"
    if "UsbipHeaderBasic_decode bs = Ok (x, rest)" for bs x rest
    using that by (fastforce simp: defs urb_consts)
qed simp

interpretation iso: canonical_wire_format IsoPacketDescriptor_encode IsoPacketDescriptor_decode
  IsoPacketDescriptor_wire_size "\<lambda>_. True"
proof unfold_locales
  note defs = IsoPacketDescriptor_encode_def IsoPacketDescriptor_decode_def
    IsoPacketDescriptor_wire_size_def
  show "safe 0 IsoPacketDescriptor_decode"
    unfolding IsoPacketDescriptor_decode_def by (intro safe_intros) (simp_all add: urb_consts)
  show "IsoPacketDescriptor_decode (IsoPacketDescriptor_encode x @ rest) = Ok (x, rest)"
    "length (IsoPacketDescriptor_encode x) = IsoPacketDescriptor_wire_size x" for x rest
    by (simp_all add: defs wire_simps urb_consts)
  show "bs = IsoPacketDescriptor_encode x @ rest" if "IsoPacketDescriptor_decode bs = Ok (x, rest)" for bs x rest
    using that
    by (auto simp: defs wire_simps rbind_eq_Ok get_iffs split: if_splits)
  then show "\<exists>m. bs = m @ rest \<and> length m = IsoPacketDescriptor_wire_size x"
    if "IsoPacketDescriptor_decode bs = Ok (x, rest)" for bs x rest
    using that by (fastforce simp: defs urb_consts)
qed simp

lemmas hdr_decode_encode [wire_simps] = hdr.decode_encode [OF TrueI]
lemmas hdr_decode_iff = hdr.decode_iff [simplified]

lemma length_UsbipHeaderBasic_encode [simp, wire_length]:
  "length (UsbipHeaderBasic_encode h) = HEADER_BASIC_SIZE"
  using hdr.encode_size [of h] by (simp add: UsbipHeaderBasic_wire_size_def)

lemma length_iso_encode [simp]:
  "length (concat (map IsoPacketDescriptor_encode ds)) = length ds * ISO_PACKET_DESCRIPTOR_SIZE"
  by (simp add: iso.length_encode_list IsoPacketDescriptor_wire_size_def [abs_def] sum_list_triv)

section \<open>The payload of a transfer\<close>

lemma decode_transfer_buffer_Ok:
  "decode_transfer_buffer n bs = Ok (b, rest) \<longleftrightarrow> length b = n \<and> bs = b @ rest"
  by (auto simp: decode_transfer_buffer_def wire_simps get_iffs)

lemma decode_iso_packets_Ok:
  "decode_iso_packets n bs = Ok (ds, rest) \<longleftrightarrow>
     iso_packets_ok n ds \<and> bs = encode_iso_packets n ds @ rest"
proof (cases "is_iso_transfer n")
  case True
  show ?thesis
  proof
    assume "decode_iso_packets n bs = Ok (ds, rest)"
    then have "n \<le> MAX_ISO_PACKETS"
      and d: "repeat_decode (unat n) IsoPacketDescriptor_decode bs = Ok (ds, rest)"
      using True by (auto simp: decode_iso_packets_def wire_simps split: if_splits)
    then show "iso_packets_ok n ds \<and> bs = encode_iso_packets n ds @ rest"
      using True iso.repeat_decode_props [OF d] iso.repeat_decode_canonical [OF d]
      by (simp add: iso_packets_ok_def encode_iso_packets_def)
  next
    assume "iso_packets_ok n ds \<and> bs = encode_iso_packets n ds @ rest"
    then show "decode_iso_packets n bs = Ok (ds, rest)"
      using True iso.repeat_decode_encode [of ds rest]
      by (simp add: iso_packets_ok_def encode_iso_packets_def decode_iso_packets_def wire_simps
        not_less)
  qed
qed (auto simp: iso_packets_ok_def encode_iso_packets_def decode_iso_packets_def wire_simps)

lemma length_encode_iso_packets [simp]:
  "iso_packets_ok n ds \<Longrightarrow>
     length (encode_iso_packets n ds) = length ds * ISO_PACKET_DESCRIPTOR_SIZE"
  by (auto simp: iso_packets_ok_def encode_iso_packets_def split: if_splits)

lemma decode_payload_encode [wire_simps]:
  "length b = n \<Longrightarrow> decode_transfer_buffer n (b @ rest) = Ok (b, rest)"
  "iso_packets_ok k ds \<Longrightarrow> decode_iso_packets k (encode_iso_packets k ds @ rest) = Ok (ds, rest)"
  by (simp_all add: decode_transfer_buffer_Ok decode_iso_packets_Ok)

lemma safe_payload:
  "safe 0 (decode_transfer_buffer n)" "safe 0 (decode_iso_packets k)"
proof -
  show "safe 0 (decode_transfer_buffer n)"
    unfolding decode_transfer_buffer_def
    by (intro safe_intros) (auto intro: exact_imp_safe exact_get)
  show "safe 0 (decode_iso_packets k)"
    unfolding decode_iso_packets_def
    by (auto intro!: safe_if safe_derr safe_dreturn safe_need safe_weaken [OF iso.safe_decode_list])
qed

lemma safe_payload_binds:
  "(\<And>x. safe 0 (f x)) \<Longrightarrow> safe t (dbind (decode_transfer_buffer n) f)"
  "(\<And>x. safe 0 (g x)) \<Longrightarrow> safe t (dbind (decode_iso_packets k) g)"
  by (rule safe_weaken, rule safe_dbind, rule safe_payload, assumption)+

section \<open>Every URB message is a wire format\<close>

lemmas urb_defs = CmdSubmit_encode_def CmdSubmit_decode_def CmdSubmit_wire_size_def CmdSubmit_ok_def
  RetSubmit_encode_def RetSubmit_decode_def RetSubmit_wire_size_def RetSubmit_ok_def
  CmdUnlink_encode_def CmdUnlink_decode_def CmdUnlink_wire_size_def CmdUnlink_ok_def
  RetUnlink_encode_def RetUnlink_decode_def RetUnlink_wire_size_def RetUnlink_ok_def

interpretation cmd_submit: canonical_wire_format CmdSubmit_encode CmdSubmit_decode
  CmdSubmit_wire_size CmdSubmit_ok
proof unfold_locales
  show size: "length (CmdSubmit_encode x) = CmdSubmit_wire_size x" if "CmdSubmit_ok x" for x
    using that by (simp add: urb_defs urb_consts)
  show "CmdSubmit_decode (CmdSubmit_encode x @ rest) = Ok (x, rest)" if "CmdSubmit_ok x" for x rest
    using that by (simp add: urb_defs wire_simps urb_consts not_less)
  show "safe 0 CmdSubmit_decode"
    unfolding CmdSubmit_decode_def
    by (intro safe_dbind hdr.decode_safe safe_intros safe_payload_binds) (simp_all add: urb_consts)
  show can: "bs = CmdSubmit_encode x @ rest" and ok: "CmdSubmit_ok x"
    if "CmdSubmit_decode bs = Ok (x, rest)" for bs x rest
    using that
    by (auto simp: urb_defs wire_simps rbind_eq_Ok hdr_decode_iff get_iffs decode_transfer_buffer_Ok
      decode_iso_packets_Ok not_less split: if_splits)
  show "\<exists>m. bs = m @ rest \<and> length m = CmdSubmit_wire_size x"
    if "CmdSubmit_decode bs = Ok (x, rest)" for bs x rest
    using can [OF that] size [OF ok [OF that]] by blast
qed

interpretation ret_submit: wire_format RetSubmit_encode RetSubmit_decode
  RetSubmit_wire_size RetSubmit_ok
proof unfold_locales
  show "length (RetSubmit_encode x) = RetSubmit_wire_size x" if "RetSubmit_ok x" for x
    using that by (simp add: urb_defs urb_consts)
  show "RetSubmit_decode (RetSubmit_encode x @ rest) = Ok (x, rest)" if "RetSubmit_ok x" for x rest
    using that by (simp add: urb_defs wire_simps urb_consts not_less)
  show "safe 0 RetSubmit_decode"
    unfolding RetSubmit_decode_def
    by (intro safe_dbind hdr.decode_safe safe_intros safe_payload_binds) (simp_all add: urb_consts)
  show "RetSubmit_ok x"
    if "RetSubmit_decode bs = Ok (x, rest)" for bs x rest
    using that
    by (auto simp: urb_defs wire_simps rbind_eq_Ok hdr_decode_iff get_iffs decode_transfer_buffer_Ok
      decode_iso_packets_Ok not_less split: if_splits)
  show "\<exists>m. bs = m @ rest \<and> length m = RetSubmit_wire_size x"
    if "RetSubmit_decode bs = Ok (x, rest)" for bs x rest
  proof -
    from that obtain h s l sf np ec pad tb where "length pad = 8" "iso_packets_ok np (rs_iso_packet_descriptors x)"
      "bs = UsbipHeaderBasic_encode h @ u32_to_be_bytes s @ u32_to_be_bytes l @ u32_to_be_bytes sf @
        u32_to_be_bytes np @ u32_to_be_bytes ec @ pad @ rs_transfer_buffer x @
        encode_iso_packets np (rs_iso_packet_descriptors x) @ rest"
      by (auto simp: RetSubmit_decode_def wire_simps rbind_eq_Ok hdr_decode_iff get_iffs
        decode_transfer_buffer_Ok decode_iso_packets_Ok split: if_splits)
    then show ?thesis
      by (intro exI [of _ "take (RetSubmit_wire_size x) bs"])
         (simp add: RetSubmit_wire_size_def urb_consts)
  qed
qed

interpretation cmd_unlink: wire_format CmdUnlink_encode CmdUnlink_decode
  CmdUnlink_wire_size CmdUnlink_ok
proof unfold_locales
  show "length (CmdUnlink_encode x) = CmdUnlink_wire_size x" for x
    by (simp add: urb_defs urb_consts)
  show "CmdUnlink_decode (CmdUnlink_encode x @ rest) = Ok (x, rest)" if "CmdUnlink_ok x" for x rest
    using that by (simp add: urb_defs wire_simps urb_consts)
  show "safe 0 CmdUnlink_decode"
    unfolding CmdUnlink_decode_def
    by (intro safe_dbind hdr.decode_safe safe_intros) (simp_all add: urb_consts)
  show "CmdUnlink_ok x" "\<exists>m. bs = m @ rest \<and> length m = CmdUnlink_wire_size x"
    if "CmdUnlink_decode bs = Ok (x, rest)" for bs x rest
    using that
    by (auto simp: urb_defs urb_consts wire_simps rbind_eq_Ok hdr_decode_iff get_iffs
      split: if_splits intro!: exI [of _ "take 48 bs"])
qed

interpretation ret_unlink: wire_format RetUnlink_encode RetUnlink_decode
  RetUnlink_wire_size RetUnlink_ok
proof unfold_locales
  show "length (RetUnlink_encode x) = RetUnlink_wire_size x" for x
    by (simp add: urb_defs urb_consts)
  show "RetUnlink_decode (RetUnlink_encode x @ rest) = Ok (x, rest)" if "RetUnlink_ok x" for x rest
    using that by (simp add: urb_defs wire_simps urb_consts)
  show "safe 0 RetUnlink_decode"
    unfolding RetUnlink_decode_def
    by (intro safe_dbind hdr.decode_safe safe_intros) (simp_all add: urb_consts)
  show "RetUnlink_ok x" "\<exists>m. bs = m @ rest \<and> length m = RetUnlink_wire_size x"
    if "RetUnlink_decode bs = Ok (x, rest)" for bs x rest
    using that
    by (auto simp: urb_defs urb_consts wire_simps rbind_eq_Ok hdr_decode_iff get_iffs
      split: if_splits intro!: exI [of _ "take 48 bs"])
qed

end
