(* ===== verification/Wire_Codec.thy ===== *)
theory Wire_Codec
  imports Wire_Urb
begin

text \<open>
  \<open>extender-protocol/src/codec.rs\<close>: the asynchronous readers and writers of both phases. A
  reader takes the byte stream of the peer and returns a message and the stream after it, or
  an error (the connection is then given up). The readers do not go through the buffer
  decoders: they read piece by piece, so that they agree with them is a theorem. The
  predicate \<open>framed\<close> is the contract of a reader on a stream: what it returns depends only on
  the bytes it consumes, and on any proper prefix of these it fails with the stream's error;
  \<open>message_stream\<close> states the contract of a reader with its encoder.
\<close>

section \<open>Readers\<close>

type_synonym 'a reader = "stream \<Rightarrow> ('a \<times> stream, ProtocolError) result"

definition sreturn :: "'a \<Rightarrow> 'a reader" where
  "sreturn a s = Ok (a, s)"

definition serr :: "ProtocolError \<Rightarrow> 'a reader" where
  "serr e s = Err e"

definition sbind :: "'a reader \<Rightarrow> ('a \<Rightarrow> 'b reader) \<Rightarrow> 'b reader" where
  "sbind m f s = rbind (m s) (\<lambda>(a, s'). f a s')"

text \<open>\<open>reader.read_exact(&mut buf).await?\<close> with a buffer of \<open>n\<close> bytes.\<close>

definition read_n :: "usize \<Rightarrow> bytes reader" where
  "read_n n s = map_err Io (read_exact n s)"

text \<open>\<open>let mut cursor = &buf[..]; T::decode(&mut cursor)?\<close>.\<close>

definition decode_from :: "('a, ProtocolError) decoder \<Rightarrow> bytes \<Rightarrow> 'a reader" where
  "decode_from d buf s = rbind (d buf) (\<lambda>(x, _). Ok (x, s))"

fun repeat_read :: "nat \<Rightarrow> 'a reader \<Rightarrow> 'a list reader" where
  "repeat_read 0 r = sreturn []"
| "repeat_read (Suc n) r = sbind r (\<lambda>x. sbind (repeat_read n r) (\<lambda>xs. sreturn (x # xs)))"

text \<open>\<open>u16::from_be_bytes\<close> and \<open>u32::from_be_bytes\<close> at an offset of a fixed-size array.\<close>

definition u16_at :: "bytes \<Rightarrow> nat \<Rightarrow> u16" where
  "u16_at bs i = u16_from_be_bytes (byte_at bs i) (byte_at bs (i + 1))"

definition u32_at :: "bytes \<Rightarrow> nat \<Rightarrow> u32" where
  "u32_at bs i =
     u32_from_be_bytes (byte_at bs i) (byte_at bs (i + 1)) (byte_at bs (i + 2)) (byte_at bs (i + 3))"

section \<open>Discovery phase\<close>

definition read_device_with_interfaces :: "UsbDevice reader" where
  "read_device_with_interfaces =
     sbind (read_n USB_DEVICE_WIRE_SIZE) (\<lambda>dev_buf.
     sbind (decode_from UsbDevice_decode dev_buf) (\<lambda>device.
     let num_ifaces = unat (num_interfaces device) in
     if num_ifaces > 0
     then sbind (read_n (num_ifaces * USB_INTERFACE_WIRE_SIZE)) (\<lambda>iface_buf.
          sbind (decode_from (repeat_decode num_ifaces UsbInterface_decode) iface_buf) (\<lambda>ifs.
          sreturn (device\<lparr>interfaces := interfaces device @ ifs\<rparr>)))
     else sreturn device))"

definition read_op_body :: "OpCode \<Rightarrow> OpMessage reader" where
  "read_op_body opcode =
     (case opcode of
        OpReqDevlist_Code \<Rightarrow>
          sbind (read_n 4) (\<lambda>rest. sreturn (ReqDevlist OpReqDevlist))
      | OpRepDevlist_Code \<Rightarrow>
          sbind (read_n 8) (\<lambda>rest.
            let status = u32_at rest 0; num_devices_raw = u32_at rest 4 in
            if num_devices_raw > MAX_DEVICES_IN_DEVLIST
            then serr (TooManyDevices num_devices_raw MAX_DEVICES_IN_DEVLIST)
            else sbind (repeat_read (unat num_devices_raw) read_device_with_interfaces) (\<lambda>devices.
                 sreturn (RepDevlist \<lparr>devlist_status = status, devlist_devices = devices\<rparr>)))
      | OpReqImport_Code \<Rightarrow>
          sbind (read_n 36) (\<lambda>rest. sreturn (ReqImport \<lparr>import_busid = drop 4 rest\<rparr>))
      | OpRepImport_Code \<Rightarrow>
          sbind (read_n 4) (\<lambda>status_buf.
            let status = u32_at status_buf 0 in
            if status = 0
            then sbind (read_n USB_DEVICE_WIRE_SIZE) (\<lambda>dev_buf.
                 sbind (decode_from UsbDevice_decode dev_buf) (\<lambda>device.
                 sreturn (RepImport \<lparr>import_status = status, import_device = Some device\<rparr>)))
            else sreturn (RepImport \<lparr>import_status = status, import_device = None\<rparr>)))"

definition read_op_message :: "OpMessage reader" where
  "read_op_message =
     sbind (read_n 4) (\<lambda>prefix.
       let version = u16_at prefix 0 in
       if version \<noteq> USBIP_VERSION then serr (UnsupportedVersion version)
       else let opcode_raw = u16_at prefix 2 in
            case OpCode_from_raw opcode_raw of
              None \<Rightarrow> serr (InvalidOpCode opcode_raw)
            | Some opcode \<Rightarrow> read_op_body opcode)"

fun OpMessage_encode :: "OpMessage \<Rightarrow> bytes" where
  "OpMessage_encode (ReqDevlist m) = OpReqDevlist_encode m"
| "OpMessage_encode (RepDevlist m) = OpRepDevlist_encode m"
| "OpMessage_encode (ReqImport m) = OpReqImport_encode m"
| "OpMessage_encode (RepImport m) = OpRepImport_encode m"

text \<open>
  \<open>writer.write_all(&buf).await?\<close>: an error means the peer no longer takes bytes; some prefix
  of the buffer may have been sent.
\<close>

definition write_buf :: "bytes \<Rightarrow> sink \<Rightarrow> sink \<times> (unit, ProtocolError) result" where
  "write_buf buf w =
     (case write_all buf w of (w', ok) \<Rightarrow> (w', if ok then Ok () else Err (Io BrokenPipe)))"

definition write_op_message :: "sink \<Rightarrow> OpMessage \<Rightarrow> sink \<times> (unit, ProtocolError) result" where
  "write_op_message w msg = write_buf (OpMessage_encode msg) w"

section \<open>URB phase\<close>

definition read_transfer_buffer :: "bool \<Rightarrow> u32 \<Rightarrow> bytes reader" where
  "read_transfer_buffer present len =
     (if present \<and> len > 0 then read_n (unat len) else sreturn [])"

definition read_iso_packets :: "u32 \<Rightarrow> IsoPacketDescriptor list reader" where
  "read_iso_packets number_of_packets =
     (if is_iso_transfer number_of_packets
      then if number_of_packets > MAX_ISO_PACKETS
           then serr (TooManyIsoPackets number_of_packets MAX_ISO_PACKETS)
           else sbind (read_n (unat number_of_packets * ISO_PACKET_DESCRIPTOR_SIZE)) (\<lambda>iso_buf.
                decode_from (repeat_decode (unat number_of_packets) IsoPacketDescriptor_decode)
                  iso_buf)
      else sreturn [])"

definition read_cmd_submit :: "UsbipHeaderBasic \<Rightarrow> UrbMessage reader" where
  "read_cmd_submit header =
     sbind (read_n CMD_SUBMIT_FIELDS_SIZE) (\<lambda>fields.
       let transfer_flags = u32_at fields 0; transfer_buffer_length = u32_at fields 4 in
       if transfer_buffer_length > MAX_TRANSFER_BUFFER_LENGTH
       then serr (TransferTooLarge transfer_buffer_length MAX_TRANSFER_BUFFER_LENGTH)
       else let start_frame = u32_at fields 8; number_of_packets = u32_at fields 12;
                interval = u32_at fields 16; setup = drop 20 fields in
            sbind (read_transfer_buffer (hdr_direction header = 0) transfer_buffer_length)
              (\<lambda>transfer_buffer.
            sbind (read_iso_packets number_of_packets) (\<lambda>descs.
            sreturn (CmdSubmit
              \<lparr>cs_header = header, cs_transfer_flags = transfer_flags,
               cs_transfer_buffer_length = transfer_buffer_length,
               cs_start_frame = start_frame, cs_number_of_packets = number_of_packets,
               cs_interval = interval, cs_setup = setup, cs_transfer_buffer = transfer_buffer,
               cs_iso_packet_descriptors = descs\<rparr>))))"

definition read_ret_submit :: "UsbipHeaderBasic \<Rightarrow> UrbMessage reader" where
  "read_ret_submit header =
     sbind (read_n RET_SUBMIT_FIELDS_SIZE) (\<lambda>fields.
       let status = u32_at fields 0; actual_length = u32_at fields 4 in
       if actual_length > MAX_TRANSFER_BUFFER_LENGTH
       then serr (TransferTooLarge actual_length MAX_TRANSFER_BUFFER_LENGTH)
       else let start_frame = u32_at fields 8; number_of_packets = u32_at fields 12;
                error_count = u32_at fields 16 in
            sbind (read_transfer_buffer (hdr_direction header = 1) actual_length)
              (\<lambda>transfer_buffer.
            sbind (read_iso_packets number_of_packets) (\<lambda>descs.
            sreturn (RetSubmit
              \<lparr>rs_header = header, rs_status = status, rs_actual_length = actual_length,
               rs_start_frame = start_frame, rs_number_of_packets = number_of_packets,
               rs_error_count = error_count, rs_transfer_buffer = transfer_buffer,
               rs_iso_packet_descriptors = descs\<rparr>))))"

definition read_cmd_unlink :: "UsbipHeaderBasic \<Rightarrow> UrbMessage reader" where
  "read_cmd_unlink header =
     sbind (read_n CMD_UNLINK_FIELDS_SIZE) (\<lambda>fields.
       sreturn (CmdUnlink \<lparr>cu_header = header, cu_unlink_seqnum = u32_at fields 0\<rparr>))"

definition read_ret_unlink :: "UsbipHeaderBasic \<Rightarrow> UrbMessage reader" where
  "read_ret_unlink header =
     sbind (read_n RET_UNLINK_FIELDS_SIZE) (\<lambda>fields.
       sreturn (RetUnlink \<lparr>ru_header = header, ru_status = u32_at fields 0\<rparr>))"

definition read_urb_message :: "UrbMessage reader" where
  "read_urb_message =
     sbind (read_n HEADER_BASIC_SIZE) (\<lambda>header_buf.
     sbind (decode_from UsbipHeaderBasic_decode header_buf) (\<lambda>header.
     case Command_from_raw (hdr_command header) of
       None \<Rightarrow> serr (InvalidCommand (hdr_command header))
     | Some CmdSubmit_Code \<Rightarrow> read_cmd_submit header
     | Some RetSubmit_Code \<Rightarrow> read_ret_submit header
     | Some CmdUnlink_Code \<Rightarrow> read_cmd_unlink header
     | Some RetUnlink_Code \<Rightarrow> read_ret_unlink header))"

fun UrbMessage_encode :: "UrbMessage \<Rightarrow> bytes" where
  "UrbMessage_encode (CmdSubmit m) = CmdSubmit_encode m"
| "UrbMessage_encode (RetSubmit m) = RetSubmit_encode m"
| "UrbMessage_encode (CmdUnlink m) = CmdUnlink_encode m"
| "UrbMessage_encode (RetUnlink m) = RetUnlink_encode m"

definition write_urb_message :: "sink \<Rightarrow> UrbMessage \<Rightarrow> sink \<times> (unit, ProtocolError) result" where
  "write_urb_message w msg = write_buf (UrbMessage_encode msg) w"

section \<open>The contract of a reader\<close>

definition feed :: "bytes \<Rightarrow> stream \<Rightarrow> stream" where
  "feed bs s = s\<lparr>avail := bs @ avail s\<rparr>"

lemma feed_simps [simp]:
  "feed [] s = s" "feed xs (feed ys s) = feed (xs @ ys) s" "avail (feed xs s) = xs @ avail s"
  "end_error (feed xs s) = end_error s"
  by (simp_all add: feed_def)

lemma feed_inject [simp]: "feed xs s = feed xs t \<longleftrightarrow> s = t"
  by (cases s; cases t) (auto simp: feed_def)

lemma read_n_Ok: "read_n n s = Ok (bs, s') \<longleftrightarrow> length bs = n \<and> s = feed bs s'"
  by (cases s; cases s') (auto simp: read_n_def read_exact_def feed_def)

lemma read_n_feed [simp]:
  "length xs = n \<Longrightarrow> read_n n (feed xs s) = Ok (xs, s)"
  "length xs = n \<Longrightarrow> read_n n (feed (xs @ ys) s) = Ok (xs, feed ys s)"
  by (simp_all add: read_n_Ok)

lemma read_n_short: "length (avail s) < n \<Longrightarrow> read_n n s = Err (Io (end_error s))"
  by (simp add: read_n_def read_exact_def)

lemma reader_eval:
  "sbind m f s = rbind (m s) (\<lambda>(a, s'). f a s')" "sreturn a s = Ok (a, s)" "serr e s = Err e"
  by (simp_all add: sbind_def sreturn_def serr_def)

definition framed :: "'a reader \<Rightarrow> bool" where
  "framed r \<longleftrightarrow>
     (\<forall>s x s'. r s = Ok (x, s') \<longrightarrow>
        (\<exists>bs. s = feed bs s' \<and> (\<forall>t. r (feed bs t) = Ok (x, t)) \<and>
           (\<forall>k < length bs. \<forall>t. avail t = [] \<longrightarrow> r (feed (take k bs) t) = Err (Io (end_error t)))))"

named_theorems framed_intros \<open>framed readers\<close>

lemma framedE:
  assumes "framed r" "r s = Ok (x, s')"
  obtains bs where "s = feed bs s'" "\<And>t. r (feed bs t) = Ok (x, t)"
    "\<And>k t. k < length bs \<Longrightarrow> avail t = [] \<Longrightarrow> r (feed (take k bs) t) = Err (Io (end_error t))"
  using assms unfolding framed_def by blast

lemma framed_sreturn [framed_intros]: "framed (sreturn a)"
  by (auto simp: framed_def sreturn_def intro: exI [of _ "[]"])

lemma framed_serr [framed_intros]: "framed (serr e)"
  by (simp add: framed_def serr_def)

lemma framed_read_n [framed_intros]: "framed (read_n n)"
  unfolding framed_def
proof (intro allI impI)
  fix s bs s'
  assume "read_n n s = Ok (bs, s')"
  then show "\<exists>xs. s = feed xs s' \<and> (\<forall>t. read_n n (feed xs t) = Ok (bs, t)) \<and>
      (\<forall>k < length xs. \<forall>t. avail t = [] \<longrightarrow> read_n n (feed (take k xs) t) = Err (Io (end_error t)))"
    by (intro exI [of _ bs]) (auto simp: read_n_Ok read_n_short)
qed

lemma framed_decode_from [framed_intros]: "framed (decode_from d buf)"
  by (fastforce simp: framed_def decode_from_def rbind_eq_Ok intro: exI [of _ "[]"])

lemma framed_sbind [framed_intros]:
  assumes r: "framed r" and f: "\<And>x. framed (f x)"
  shows "framed (sbind r f)"
  unfolding framed_def
proof (intro allI impI)
  fix s y s2
  assume "sbind r f s = Ok (y, s2)"
  then obtain x s1 where x: "r s = Ok (x, s1)" and y: "f x s1 = Ok (y, s2)"
    by (auto simp: sbind_def rbind_eq_Ok)
  obtain as where as: "s = feed as s1" "\<And>t. r (feed as t) = Ok (x, t)"
    "\<And>k t. k < length as \<Longrightarrow> avail t = [] \<Longrightarrow> r (feed (take k as) t) = Err (Io (end_error t))"
    by (rule framedE [OF r x]) blast
  obtain bs where bs: "s1 = feed bs s2" "\<And>t. f x (feed bs t) = Ok (y, t)"
    "\<And>k t. k < length bs \<Longrightarrow> avail t = [] \<Longrightarrow> f x (feed (take k bs) t) = Err (Io (end_error t))"
    by (rule framedE [OF f y]) blast
  have "r (feed (as @ cs) t) = Ok (x, feed cs t)" for cs t
    using as(2) [of "feed cs t"] by simp
  moreover have "sbind r f (feed (take k (as @ bs)) t) = Err (Io (end_error t))"
    if "k < length (as @ bs)" "avail t = []" for k t
  proof (cases "k < length as")
    case True
    then show ?thesis using as(3) that by (simp add: sbind_def)
  next
    case False
    then have "take k (as @ bs) = as @ take (k - length as) bs" by simp
    then show ?thesis using calculation [of "take (k - length as) bs" t] bs(3) that False
      by (simp add: sbind_def)
  qed
  ultimately show "\<exists>cs. s = feed cs s2 \<and> (\<forall>t. sbind r f (feed cs t) = Ok (y, t)) \<and>
      (\<forall>k < length cs. \<forall>t. avail t = [] \<longrightarrow> sbind r f (feed (take k cs) t) = Err (Io (end_error t)))"
    using as bs by (intro exI [of _ "as @ bs"]) (auto simp: sbind_def)
qed

lemma framed_if [framed_intros]:
  "(b \<Longrightarrow> framed r) \<Longrightarrow> (\<not> b \<Longrightarrow> framed r') \<Longrightarrow> framed (if b then r else r')"
  by simp

lemma framed_option:
  "framed r \<Longrightarrow> (\<And>x. framed (f x)) \<Longrightarrow> framed (case m of None \<Rightarrow> r | Some x \<Rightarrow> f x)"
  by (cases m) simp_all

lemma framed_repeat_read [framed_intros]: "framed r \<Longrightarrow> framed (repeat_read n r)"
  by (induction n) (auto intro!: framed_intros)

text \<open>A reader that does not panic.\<close>

definition calm :: "'a reader \<Rightarrow> bool" where
  "calm r \<longleftrightarrow> (\<forall>s. r s \<noteq> Panic)"

named_theorems calm_intros \<open>readers that do not panic\<close>

lemma calm_basic [calm_intros]: "calm (sreturn a)" "calm (serr e)" "calm (read_n n)"
  by (simp_all add: calm_def reader_eval read_n_def)

lemma calm_decode_from [calm_intros]: "safe 0 d \<Longrightarrow> calm (decode_from d buf)"
  by (auto simp: calm_def decode_from_def rbind_eq_Panic safe_def)

lemma calm_sbind [calm_intros]: "calm r \<Longrightarrow> (\<And>x. calm (f x)) \<Longrightarrow> calm (sbind r f)"
  by (auto simp: calm_def sbind_def rbind_eq_Panic)

lemma calm_if [calm_intros]:
  "(b \<Longrightarrow> calm r) \<Longrightarrow> (\<not> b \<Longrightarrow> calm r') \<Longrightarrow> calm (if b then r else r')"
  by simp

lemma calm_option:
  "calm r \<Longrightarrow> (\<And>x. calm (f x)) \<Longrightarrow> calm (case m of None \<Rightarrow> r | Some x \<Rightarrow> f x)"
  by (cases m) simp_all

lemma calm_repeat_read [calm_intros]: "calm r \<Longrightarrow> calm (repeat_read n r)"
  by (induction n) (auto intro!: calm_intros)

locale message_stream =
  fixes read :: "'a reader" and encode :: "'a \<Rightarrow> bytes" and ok :: "'a \<Rightarrow> bool"
  assumes read_encode: "ok m \<Longrightarrow> read (feed (encode m) s) = Ok (m, s)"
    and read_framed: "framed read"
    and read_calm: "calm read"
    and read_ok: "read s = Ok (m, s') \<Longrightarrow> ok m"
begin

lemma read_many:
  "(\<And>m. m \<in> set ms \<Longrightarrow> ok m) \<Longrightarrow>
     repeat_read (length ms) read (feed (concat (map encode ms)) s) = Ok (ms, s)"
proof (induction ms arbitrary: s)
  case (Cons m ms)
  then have "read (feed (encode m @ concat (map encode ms)) s)
      = Ok (m, feed (concat (map encode ms)) s)"
    using read_encode [of m "feed (concat (map encode ms)) s"] by simp
  then show ?case using Cons by (simp add: reader_eval)
qed (simp add: reader_eval)

lemma read_truncated:
  assumes "ok m" "k < length (encode m)"
  shows "read \<lparr>avail = take k (encode m), end_error = e\<rparr> = Err (Io e)"
proof -
  let ?t = "\<lparr>avail = [], end_error = e\<rparr>"
  obtain bs where bs: "feed (encode m) ?t = feed bs ?t"
    "\<And>k t. k < length bs \<Longrightarrow> avail t = [] \<Longrightarrow> read (feed (take k bs) t) = Err (Io (end_error t))"
    using framedE [OF read_framed read_encode [OF assms(1)]] by metis
  from bs(1) have "bs = encode m" by (simp add: feed_def)
  then show ?thesis using bs(2) [of k ?t] assms(2) by (simp add: feed_def)
qed

lemma read_many_safe: "repeat_read n read s \<noteq> Panic"
  using calm_repeat_read [OF read_calm, of n] by (simp add: calm_def)

lemma read_consumes:
  assumes "read s = Ok (m, s')"
  shows "\<exists>bs. s = feed bs s' \<and> (\<forall>t. read (feed bs t) = Ok (m, t))"
  using framedE [OF read_framed assms] by metis

end

section \<open>Fixed-size fields\<close>

lemma byte_at_drop: "i < length bs \<Longrightarrow> drop i bs = byte_at bs i # drop (Suc i) bs"
  by (simp add: byte_at_def Cons_nth_drop_Suc)

lemma drop_u16_at: "i + 2 \<le> length bs \<Longrightarrow> drop i bs = u16_to_be_bytes (u16_at bs i) @ drop (i + 2) bs"
  by (simp add: u16_at_def u16_to_from_be byte_at_drop)

lemma drop_u32_at: "i + 4 \<le> length bs \<Longrightarrow> drop i bs = u32_to_be_bytes (u32_at bs i) @ drop (i + 4) bs"
  by (simp add: u32_at_def u32_to_from_be byte_at_drop [of i] byte_at_drop [of "Suc i"]
    byte_at_drop [of "Suc (Suc i)"] byte_at_drop [of "Suc (Suc (Suc i))"] numeral_eq_Suc)

lemma byte_at_append:
  "byte_at (xs @ ys) i = (if i < length xs then byte_at xs i else byte_at ys (i - length xs))"
  by (auto simp: byte_at_def nth_append)

lemma u16_at_append:
  "length xs \<le> i \<Longrightarrow> u16_at (xs @ ys) i = u16_at ys (i - length xs)"
  "u16_at (u16_to_be_bytes v @ ys) 0 = v"
  by (auto simp: u16_at_def byte_at_append Suc_diff_le)
     (simp add: u16_to_be_bytes_def byte_at_def u16_from_to_be)

lemma u32_at_append:
  "length xs \<le> i \<Longrightarrow> u32_at (xs @ ys) i = u32_at ys (i - length xs)"
  "u32_at (u32_to_be_bytes w @ ys) 0 = w" "u32_at (u32_to_be_bytes w) 0 = w"
proof -
  show "length xs \<le> i \<Longrightarrow> u32_at (xs @ ys) i = u32_at ys (i - length xs)"
    by (simp add: u32_at_def byte_at_append Suc_diff_le)
  show "u32_at (u32_to_be_bytes w @ ys) 0 = w" "u32_at (u32_to_be_bytes w) 0 = w"
    by (simp_all add: u32_at_def u32_to_be_bytes_def byte_at_def u32_from_to_be)
qed

lemma prefix_iff:
  "length p = 4 \<Longrightarrow> u16_at p 0 = v \<and> u16_at p 2 = c \<longleftrightarrow> p = u16_to_be_bytes v @ u16_to_be_bytes c"
  using drop_u16_at [of 0 p] drop_u16_at [of 2 p]
  by (auto simp: u16_at_append u16_at_append(2) [where ys = "[]", simplified] numeral_2_eq_2)

lemma word4_iff: "length r = 4 \<Longrightarrow> u32_at r 0 = w \<longleftrightarrow> r = u32_to_be_bytes w"
  using drop_u32_at [of 0 r] by (auto simp: u32_at_append)

lemma word8_split: "length r = 8 \<Longrightarrow> r = u32_to_be_bytes (u32_at r 0) @ u32_to_be_bytes (u32_at r 4)"
  using drop_u32_at [of 0 r] drop_u32_at [of 4 r] by simp

lemma fields_join:
  assumes "length f = 28"
  shows "u32_to_be_bytes (u32_at f 0) @ u32_to_be_bytes (u32_at f 4) @
    u32_to_be_bytes (u32_at f 8) @ u32_to_be_bytes (u32_at f 12) @ u32_to_be_bytes (u32_at f 16) @
    drop 20 f @ xs = f @ xs"
  using drop_u32_at [of 0 f] drop_u32_at [of 4 f] drop_u32_at [of 8 f] drop_u32_at [of 12 f]
    drop_u32_at [of 16 f] assms by simp

lemma fields_head_join: "length f = 28 \<Longrightarrow> u32_to_be_bytes (u32_at f 0) @ drop 4 f = f"
  using drop_u32_at [of 0 f] by simp

section \<open>Discovery messages on a stream\<close>

lemma read_device_with_interfaces_Ok:
  "read_device_with_interfaces s = Ok (d, s') \<longleftrightarrow>
     UsbDevice_full d \<and> s = feed (encode_device_with_interfaces d) s'"
proof
  assume "read_device_with_interfaces s = Ok (d, s')"
  then obtain d0 s1 where d0: "UsbDevice_bare d0" "s = feed (UsbDevice_encode d0) s1"
    and r: "(if unat (num_interfaces d0) > 0
       then sbind (read_n (unat (num_interfaces d0) * USB_INTERFACE_WIRE_SIZE)) (\<lambda>iface_buf.
          sbind (decode_from (repeat_decode (unat (num_interfaces d0)) UsbInterface_decode) iface_buf)
            (\<lambda>ifs. sreturn (d0\<lparr>interfaces := interfaces d0 @ ifs\<rparr>)))
       else sreturn d0) s1 = Ok (d, s')"
    by (auto simp: read_device_with_interfaces_def reader_eval rbind_eq_Ok decode_from_def
      read_n_Ok UsbDevice_decode_Ok UsbDevice_bare_def Let_def)
  have "\<exists>ifs. length ifs = unat (num_interfaces d0) \<and> d = d0\<lparr>interfaces := ifs\<rparr> \<and>
      s1 = feed (concat (map UsbInterface_encode ifs)) s'"
  proof (cases "unat (num_interfaces d0) > 0")
    case True
    with r d0 obtain buf ifs x where "length buf = unat (num_interfaces d0) * USB_INTERFACE_WIRE_SIZE"
      "s1 = feed buf s'" "d = d0\<lparr>interfaces := ifs\<rparr>"
      and i: "repeat_decode (unat (num_interfaces d0)) UsbInterface_decode buf = Ok (ifs, x)"
      by (auto simp: reader_eval rbind_eq_Ok read_n_Ok decode_from_def UsbDevice_bare_def)
    then show ?thesis
      using iface.repeat_decode_props [OF i] iface.repeat_decode_canonical [OF i] by auto
  qed (use r d0 in \<open>auto simp: reader_eval UsbDevice_bare_def\<close>)
  then show "UsbDevice_full d \<and> s = feed (encode_device_with_interfaces d) s'"
    using d0
    by (auto simp: UsbDevice_full_def UsbDevice_bare_def encode_device_with_interfaces_def
      UsbDevice_ok_def UsbDevice_encode_def)
next
  assume "UsbDevice_full d \<and> s = feed (encode_device_with_interfaces d) s'"
  then show "read_device_with_interfaces s = Ok (d, s')"
    using iface.repeat_decode_encode [of "interfaces d" "[]"] UsbDevice_decode_encode [of d "[]"]
    by (cases "interfaces d = []", cases d)
       (auto simp: read_device_with_interfaces_def reader_eval decode_from_def UsbDevice_full_def
         encode_device_with_interfaces_def Let_def)
qed

lemma repeat_read_Ok:
  assumes "\<And>s x s'. r s = Ok (x, s') \<longleftrightarrow> P x \<and> s = feed (enc x) s'"
  shows "repeat_read n r s = Ok (xs, s') \<longleftrightarrow>
    length xs = n \<and> (\<forall>x \<in> set xs. P x) \<and> s = feed (concat (map enc xs)) s'"
proof (induction n arbitrary: s xs)
  case (Suc n)
  then show ?case by (cases xs) (auto simp: reader_eval rbind_eq_Ok assms)
qed (auto simp: reader_eval)

fun OpMessage_ok :: "OpMessage \<Rightarrow> bool" where
  "OpMessage_ok (ReqDevlist m) = True"
| "OpMessage_ok (RepDevlist m) = OpRepDevlist_ok m"
| "OpMessage_ok (ReqImport m) = OpReqImport_ok m"
| "OpMessage_ok (RepImport m) = OpRepImport_ok m"

text \<open>The whole buffer is a message for the buffer decoder of the message's type.\<close>

fun OpMessage_decodes :: "bytes \<Rightarrow> OpMessage \<Rightarrow> bool" where
  "OpMessage_decodes bs (ReqDevlist m) = (OpReqDevlist_decode bs = Ok (m, []))"
| "OpMessage_decodes bs (RepDevlist m) = (OpRepDevlist_decode bs = Ok (m, []))"
| "OpMessage_decodes bs (ReqImport m) = (OpReqImport_decode bs = Ok (m, []))"
| "OpMessage_decodes bs (RepImport m) = (OpRepImport_decode bs = Ok (m, []))"

definition op_prefix :: "OpCode \<Rightarrow> bytes" where
  "op_prefix c = u16_to_be_bytes USBIP_VERSION @ u16_to_be_bytes (OpCode_as_u16 c)"

lemma length_op_prefix [simp]: "length (op_prefix c) = 4"
  by (simp add: op_prefix_def)

lemma encode_op_header_prefix: "encode_op_header c st = op_prefix c @ u32_to_be_bytes st"
  by (simp add: encode_op_header_def op_prefix_def)

lemma read_op_message_Ok:
  "read_op_message s = Ok (m, s') \<longleftrightarrow>
     (\<exists>c s1. s = feed (op_prefix c) s1 \<and> read_op_body c s1 = Ok (m, s'))"
proof
  assume "read_op_message s = Ok (m, s')"
  then obtain p s1 c where p: "length p = 4" "s = feed p s1" "u16_at p 0 = USBIP_VERSION"
    "u16_at p 2 = OpCode_as_u16 c" and b: "read_op_body c s1 = Ok (m, s')"
    by (auto simp: read_op_message_def reader_eval rbind_eq_Ok read_n_Ok Let_def
      OpCode_from_raw_Some split: if_splits option.splits)
  then have "p = op_prefix c" using prefix_iff [of p] by (auto simp: op_prefix_def)
  then show "\<exists>c s1. s = feed (op_prefix c) s1 \<and> read_op_body c s1 = Ok (m, s')" using p b by blast
next
  assume "\<exists>c s1. s = feed (op_prefix c) s1 \<and> read_op_body c s1 = Ok (m, s')"
  then obtain c s1 where "s = feed (op_prefix c) s1" "read_op_body c s1 = Ok (m, s')" by blast
  moreover have "u16_at (op_prefix c) 0 = USBIP_VERSION \<and> u16_at (op_prefix c) 2 = OpCode_as_u16 c"
    using prefix_iff [of "op_prefix c"] by (simp add: op_prefix_def)
  ultimately show "read_op_message s = Ok (m, s')"
    by (simp add: read_op_message_def reader_eval)
qed

lemma read_op_body_Ok:
  "read_op_body OpReqDevlist_Code s = Ok (m, s') \<longleftrightarrow>
     (\<exists>st. s = feed (u32_to_be_bytes st) s' \<and> m = ReqDevlist OpReqDevlist)"
  "read_op_body OpReqImport_Code s = Ok (m, s') \<longleftrightarrow>
     (\<exists>st b. s = feed (u32_to_be_bytes st @ b) s' \<and> length b = 32 \<and>
        m = ReqImport \<lparr>import_busid = b\<rparr>)"
proof -
  show "read_op_body OpReqDevlist_Code s = Ok (m, s') \<longleftrightarrow>
     (\<exists>st. s = feed (u32_to_be_bytes st) s' \<and> m = ReqDevlist OpReqDevlist)"
    by (auto simp: read_op_body_def reader_eval rbind_eq_Ok read_n_Ok
      intro: exI [of _ "u32_to_be_bytes _"]) (metis word4_iff length_to_bytes(2))+
  show "read_op_body OpReqImport_Code s = Ok (m, s') \<longleftrightarrow>
     (\<exists>st b. s = feed (u32_to_be_bytes st @ b) s' \<and> length b = 32 \<and>
        m = ReqImport \<lparr>import_busid = b\<rparr>)" (is "?L = ?R")
  proof
    assume ?L
    then obtain r where "length r = 36" "s = feed r s'" "m = ReqImport \<lparr>import_busid = drop 4 r\<rparr>"
      by (auto simp: read_op_body_def reader_eval rbind_eq_Ok read_n_Ok)
    then show ?R using drop_u32_at [of 0 r]
      by (intro exI [of _ "u32_at r 0"] exI [of _ "drop 4 r"]) simp
  qed (auto simp: read_op_body_def reader_eval)
qed

lemma read_op_body_reply_Ok:
  "read_op_body OpRepDevlist_Code s = Ok (m, s') \<longleftrightarrow>
     (\<exists>r. m = RepDevlist r \<and> OpRepDevlist_ok r \<and>
        s = feed (u32_to_be_bytes (devlist_status r) @
              u32_to_be_bytes (word_of_nat (length (devlist_devices r))) @
              concat (map encode_device_with_interfaces (devlist_devices r))) s')"
  "read_op_body OpRepImport_Code s = Ok (m, s') \<longleftrightarrow>
     (\<exists>r. m = RepImport r \<and> OpRepImport_ok r \<and>
        s = feed (u32_to_be_bytes (import_status r) @
              (case import_device r of Some device \<Rightarrow> UsbDevice_encode device | None \<Rightarrow> [])) s')"
proof -
  show "read_op_body OpRepDevlist_Code s = Ok (m, s') \<longleftrightarrow>
     (\<exists>r. m = RepDevlist r \<and> OpRepDevlist_ok r \<and>
        s = feed (u32_to_be_bytes (devlist_status r) @
              u32_to_be_bytes (word_of_nat (length (devlist_devices r))) @
              concat (map encode_device_with_interfaces (devlist_devices r))) s')" (is "?L = ?R")
  proof
    assume ?L
    then obtain f s1 ds where f: "length f = 8" "s = feed f s1"
      and n: "\<not> MAX_DEVICES_IN_DEVLIST < u32_at f 4"
      and ds: "repeat_read (unat (u32_at f 4)) read_device_with_interfaces s1 = Ok (ds, s')"
      and m: "m = RepDevlist \<lparr>devlist_status = u32_at f 0, devlist_devices = ds\<rparr>"
      by (auto simp: read_op_body_def reader_eval rbind_eq_Ok read_n_Ok Let_def split: if_splits)
    from ds have "length ds = unat (u32_at f 4)" "\<forall>d \<in> set ds. UsbDevice_full d"
      "s1 = feed (concat (map encode_device_with_interfaces ds)) s'"
      by (simp_all add: repeat_read_Ok [OF read_device_with_interfaces_Ok])
    moreover have "s = feed (u32_to_be_bytes (u32_at f 0) @ u32_to_be_bytes (u32_at f 4)) s1"
      using f word8_split by metis
    ultimately show ?R using n m by (simp add: OpRepDevlist_ok_def not_less word_le_nat_alt)
  next
    assume ?R
    then obtain st ds where ok: "OpRepDevlist_ok \<lparr>devlist_status = st, devlist_devices = ds\<rparr>"
      and m: "m = RepDevlist \<lparr>devlist_status = st, devlist_devices = ds\<rparr>"
      and s: "s = feed (u32_to_be_bytes st @ u32_to_be_bytes (word_of_nat (length ds)) @
        concat (map encode_device_with_interfaces ds)) s'"
      by (metis (full_types) OpRepDevlist.cases OpRepDevlist.select_convs)
    from ok have n: "unat (word_of_nat (length ds) :: u32) = length ds"
      by (simp add: OpRepDevlist_ok_def MAX_DEVICES_IN_DEVLIST_def unsigned_of_nat
        take_bit_nat_eq_self)
    let ?f = "u32_to_be_bytes st @ u32_to_be_bytes (word_of_nat (length ds))"
    have "read_n 8 s = Ok (?f, feed (concat (map encode_device_with_interfaces ds)) s')"
      using s by (simp add: read_n_Ok)
    moreover have "u32_at ?f 0 = st" "u32_at ?f 4 = word_of_nat (length ds)"
      by (simp_all add: u32_at_append)
    moreover have "repeat_read (length ds) read_device_with_interfaces
        (feed (concat (map encode_device_with_interfaces ds)) s') = Ok (ds, s')"
      using ok by (simp add: repeat_read_Ok [OF read_device_with_interfaces_Ok] OpRepDevlist_ok_def)
    ultimately show ?L
      using ok n m
      by (simp add: read_op_body_def reader_eval OpRepDevlist_ok_def word_less_nat_alt)
  qed
  show "read_op_body OpRepImport_Code s = Ok (m, s') \<longleftrightarrow>
     (\<exists>r. m = RepImport r \<and> OpRepImport_ok r \<and>
        s = feed (u32_to_be_bytes (import_status r) @
              (case import_device r of Some device \<Rightarrow> UsbDevice_encode device | None \<Rightarrow> [])) s')"
    (is "?L = ?R")
  proof
    assume ?L
    then obtain f s1 where f: "length f = 4" "s = feed f s1"
      and r: "(if u32_at f 0 = 0
        then sbind (read_n USB_DEVICE_WIRE_SIZE) (\<lambda>dev_buf.
             sbind (decode_from UsbDevice_decode dev_buf) (\<lambda>device.
             sreturn (RepImport \<lparr>import_status = u32_at f 0, import_device = Some device\<rparr>)))
        else sreturn (RepImport \<lparr>import_status = u32_at f 0, import_device = None\<rparr>)) s1 = Ok (m, s')"
      by (auto simp: read_op_body_def sbind_def rbind_eq_Ok read_n_Ok Let_def)
    have w: "f = u32_to_be_bytes (u32_at f 0)" by (rule word4_iff [THEN iffD1, OF f(1) refl])
    show ?R
    proof (cases "u32_at f 0 = 0")
      case True
      with r obtain d where "UsbDevice_bare d" "s1 = feed (UsbDevice_encode d) s'"
        "m = RepImport \<lparr>import_status = 0, import_device = Some d\<rparr>"
        by (auto simp: reader_eval rbind_eq_Ok read_n_Ok decode_from_def UsbDevice_decode_Ok
          UsbDevice_bare_def)
      then show ?thesis using f w True by (simp add: OpRepImport_ok_def)
    next
      case False
      then show ?thesis using f w r
        by (intro exI [of _ "\<lparr>import_status = u32_at f 0, import_device = None\<rparr>"])
           (simp add: OpRepImport_ok_def reader_eval)
    qed
  next
    assume ?R
    then obtain r where m: "m = RepImport r" and ok: "OpRepImport_ok r"
      and s: "s = feed (u32_to_be_bytes (import_status r) @
         (case import_device r of Some device \<Rightarrow> UsbDevice_encode device | None \<Rightarrow> [])) s'" by blast
    show ?L
      using UsbDevice_decode_encode [where rest = "[]"]
      using m ok s
      by (cases r) (auto simp: read_op_body_def reader_eval OpRepImport_ok_def u32_at_append
        decode_from_def UsbDevice_bare_def split: option.splits)
  qed
qed

lemma OpReqDevlist_decode_Ok:
  "OpReqDevlist_decode bs = Ok (m, rest) \<longleftrightarrow>
     (\<exists>st. bs = op_prefix OpReqDevlist_Code @ u32_to_be_bytes st @ rest)"
  by (cases m) (auto simp: OpReqDevlist_decode_def wire_simps rbind_eq_Ok decode_op_header_Ok
    encode_op_header_prefix op_consts split: if_splits)

lemma OpReqImport_decode_Ok:
  "OpReqImport_decode bs = Ok (m, rest) \<longleftrightarrow>
     length (import_busid m) = 32 \<and>
     (\<exists>st. bs = op_prefix OpReqImport_Code @ u32_to_be_bytes st @ import_busid m @ rest)"
  by (cases m) (auto simp: OpReqImport_decode_def wire_simps rbind_eq_Ok decode_op_header_Ok
    get_iffs encode_op_header_prefix op_consts split: if_splits)

lemma read_op_message_iff:
  "read_op_message s = Ok (m, s') \<longleftrightarrow> (\<exists>bs. s = feed bs s' \<and> OpMessage_decodes bs m)"
proof
  assume "read_op_message s = Ok (m, s')"
  then obtain c s1 where c: "s = feed (op_prefix c) s1" "read_op_body c s1 = Ok (m, s')"
    by (auto simp: read_op_message_Ok)
  show "\<exists>bs. s = feed bs s' \<and> OpMessage_decodes bs m"
    using c by (cases c)
      (fastforce simp: read_op_body_Ok read_op_body_reply_Ok OpReqDevlist_decode_Ok
        OpReqImport_decode_Ok rep_devlist.decode_iff rep_import.decode_iff OpRepDevlist_encode_def
        OpRepImport_encode_def encode_op_header_prefix)+
next
  assume "\<exists>bs. s = feed bs s' \<and> OpMessage_decodes bs m"
  then obtain bs where s: "s = feed bs s'" and d: "OpMessage_decodes bs m" by blast
  have "read_op_message (feed (op_prefix c @ xs) s') = Ok (m, s')"
    if "read_op_body c (feed xs s') = Ok (m, s')" for c xs
    using that by (auto simp: read_op_message_Ok intro!: exI [of _ c] exI [of _ "feed xs s'"])
  note step = this
  have "read_op_body c (feed xs s') = Ok (m, s') \<Longrightarrow> bs = op_prefix c @ xs \<Longrightarrow>
      read_op_message s = Ok (m, s')" for c xs
    using step s by simp
  note run = this
  show "read_op_message s = Ok (m, s')"
  proof (cases m)
    case (ReqDevlist r)
    then show ?thesis using d run [of OpReqDevlist_Code]
      by (cases r) (auto simp: OpReqDevlist_decode_Ok read_op_body_Ok)
  next
    case (RepDevlist r)
    then show ?thesis using d run [of OpRepDevlist_Code]
      by (auto simp: rep_devlist.decode_iff OpRepDevlist_encode_def encode_op_header_prefix
        read_op_body_reply_Ok)
  next
    case (ReqImport r)
    then show ?thesis using d run [of OpReqImport_Code]
      by (cases r) (auto simp: OpReqImport_decode_Ok read_op_body_Ok)
  next
    case (RepImport r)
    then show ?thesis using d run [of OpRepImport_Code]
      by (auto simp: rep_import.decode_iff OpRepImport_encode_def encode_op_header_prefix
        read_op_body_reply_Ok)
  qed
qed

lemma OpMessage_decodes_encode: "OpMessage_ok m \<Longrightarrow> OpMessage_decodes (OpMessage_encode m) m"
  using req_devlist.decode_encode [where rest = "[]"] req_import.decode_encode [where rest = "[]"]
    rep_devlist.decode_encode [where rest = "[]"] rep_import.decode_encode [where rest = "[]"]
  by (cases m) simp_all

lemma OpMessage_decodes_ok: "OpMessage_decodes bs m \<Longrightarrow> OpMessage_ok m"
  by (cases m) (auto dest: rep_devlist.decode_ok req_import.decode_ok rep_import.decode_ok)

interpretation op_stream: message_stream read_op_message OpMessage_encode OpMessage_ok
proof unfold_locales
  show "read_op_message (feed (OpMessage_encode m) s) = Ok (m, s)" if "OpMessage_ok m" for m s
    using OpMessage_decodes_encode [OF that] by (auto simp: read_op_message_iff)
  show "OpMessage_ok m" if "read_op_message s = Ok (m, s')" for s m s'
    using that OpMessage_decodes_ok by (auto simp: read_op_message_iff)
  have "framed read_device_with_interfaces" "calm read_device_with_interfaces"
    unfolding read_device_with_interfaces_def Let_def
    by (intro framed_intros calm_intros udev.decode_safe iface.safe_decode_list)+
  then have "framed (read_op_body c) \<and> calm (read_op_body c)" for c
    by (cases c)
       (auto simp: read_op_body_def Let_def intro!: framed_intros calm_intros udev.decode_safe)
  then show "framed read_op_message" "calm read_op_message"
    unfolding read_op_message_def Let_def
    by (auto intro!: framed_intros calm_intros framed_option calm_option)
qed

section \<open>URB messages on a stream\<close>

fun UrbMessage_ok :: "UrbMessage \<Rightarrow> bool" where
  "UrbMessage_ok (CmdSubmit m) = CmdSubmit_ok m"
| "UrbMessage_ok (RetSubmit m) = RetSubmit_ok m"
| "UrbMessage_ok (CmdUnlink m) = CmdUnlink_ok m"
| "UrbMessage_ok (RetUnlink m) = RetUnlink_ok m"

fun UrbMessage_decodes :: "bytes \<Rightarrow> UrbMessage \<Rightarrow> bool" where
  "UrbMessage_decodes bs (CmdSubmit m) = (CmdSubmit_decode bs = Ok (m, []))"
| "UrbMessage_decodes bs (RetSubmit m) = (RetSubmit_decode bs = Ok (m, []))"
| "UrbMessage_decodes bs (CmdUnlink m) = (CmdUnlink_decode bs = Ok (m, []))"
| "UrbMessage_decodes bs (RetUnlink m) = (RetUnlink_decode bs = Ok (m, []))"

lemma read_transfer_buffer_Ok:
  "read_transfer_buffer p len s = Ok (b, s') \<longleftrightarrow>
     length b = (if p then unat len else 0) \<and> s = feed b s'"
  by (auto simp: read_transfer_buffer_def reader_eval read_n_Ok word_neq_0_conv unat_gt_0
    simp flip: word_neq_0_conv)

lemma read_iso_packets_Ok:
  "read_iso_packets n s = Ok (ds, s') \<longleftrightarrow>
     iso_packets_ok n ds \<and> s = feed (encode_iso_packets n ds) s'"
proof (cases "is_iso_transfer n \<and> n \<le> MAX_ISO_PACKETS")
  case True
  have "repeat_decode (unat n) IsoPacketDescriptor_decode buf = Ok (ds, rest) \<longleftrightarrow>
      length ds = unat n \<and> buf = concat (map IsoPacketDescriptor_encode ds) @ rest" for buf rest
    using iso.repeat_decode_props [of "unat n" buf ds rest] iso.repeat_decode_encode [of ds rest]
      iso.repeat_decode_canonical [of "unat n" buf ds rest] by auto
  then show ?thesis
    using True by (auto simp: read_iso_packets_def reader_eval rbind_eq_Ok read_n_Ok decode_from_def
      iso_packets_ok_def encode_iso_packets_def)
      (rule exI [of _ "concat (map IsoPacketDescriptor_encode ds)"], simp)
qed (auto simp: read_iso_packets_def reader_eval iso_packets_ok_def encode_iso_packets_def not_less)

lemmas urb_read_simps = reader_eval rbind_eq_Ok read_n_Ok read_transfer_buffer_Ok
  read_iso_packets_Ok Let_def

text \<open>The bytes that follow the header, for each command.\<close>

definition CmdSubmit_body :: "CmdSubmit \<Rightarrow> bytes" where
  "CmdSubmit_body m =
     u32_to_be_bytes (cs_transfer_flags m) @ u32_to_be_bytes (cs_transfer_buffer_length m) @
     u32_to_be_bytes (cs_start_frame m) @ u32_to_be_bytes (cs_number_of_packets m) @
     u32_to_be_bytes (cs_interval m) @ cs_setup m @ cs_transfer_buffer m @
     encode_iso_packets (cs_number_of_packets m) (cs_iso_packet_descriptors m)"

definition RetSubmit_body :: "bytes \<Rightarrow> RetSubmit \<Rightarrow> bytes" where
  "RetSubmit_body pad m =
     u32_to_be_bytes (rs_status m) @ u32_to_be_bytes (rs_actual_length m) @
     u32_to_be_bytes (rs_start_frame m) @ u32_to_be_bytes (rs_number_of_packets m) @
     u32_to_be_bytes (rs_error_count m) @ pad @ rs_transfer_buffer m @
     encode_iso_packets (rs_number_of_packets m) (rs_iso_packet_descriptors m)"

lemma read_cmd_submit_Ok:
  assumes "hdr_command h = Command_as_u32 CmdSubmit_Code"
  shows "read_cmd_submit h s = Ok (u, s') \<longleftrightarrow>
    (\<exists>m. u = CmdSubmit m \<and> cs_header m = h \<and> CmdSubmit_ok m \<and> s = feed (CmdSubmit_body m) s')"
    (is "?L = ?R")
proof
  assume ?L
  then obtain f s1 tb ds where f: "length f = 28" "s = feed f s1"
    and rest: "u32_at f 4 \<le> MAX_TRANSFER_BUFFER_LENGTH"
      "length tb = (if hdr_direction h = 0 then unat (u32_at f 4) else 0)"
      "iso_packets_ok (u32_at f 12) ds"
      "s1 = feed (tb @ encode_iso_packets (u32_at f 12) ds) s'"
    and u: "u = CmdSubmit \<lparr>cs_header = h, cs_transfer_flags = u32_at f 0,
      cs_transfer_buffer_length = u32_at f 4, cs_start_frame = u32_at f 8,
      cs_number_of_packets = u32_at f 12, cs_interval = u32_at f 16, cs_setup = drop 20 f,
      cs_transfer_buffer = tb, cs_iso_packet_descriptors = ds\<rparr>"
    by (auto simp: read_cmd_submit_def urb_read_simps CMD_SUBMIT_FIELDS_SIZE_def not_less
      simp del: if_split split: if_split_asm)
  then show ?R using assms fields_join [OF f(1)] by (simp add: CmdSubmit_ok_def CmdSubmit_body_def)
next
  assume ?R
  then obtain m where m: "u = CmdSubmit m" "cs_header m = h" "CmdSubmit_ok m"
    "s = feed (CmdSubmit_body m) s'" by blast
  let ?f = "u32_to_be_bytes (cs_transfer_flags m) @ u32_to_be_bytes (cs_transfer_buffer_length m) @
     u32_to_be_bytes (cs_start_frame m) @ u32_to_be_bytes (cs_number_of_packets m) @
     u32_to_be_bytes (cs_interval m) @ cs_setup m"
  have "read_n CMD_SUBMIT_FIELDS_SIZE s = Ok (?f, feed (cs_transfer_buffer m @
     encode_iso_packets (cs_number_of_packets m) (cs_iso_packet_descriptors m)) s')"
    using m by (simp add: read_n_Ok CmdSubmit_body_def CMD_SUBMIT_FIELDS_SIZE_def CmdSubmit_ok_def)
  moreover have "read_transfer_buffer (hdr_direction h = 0) (cs_transfer_buffer_length m)
       (feed (cs_transfer_buffer m @ xs) s') = Ok (cs_transfer_buffer m, feed xs s')" for xs
    using m by (auto simp: read_transfer_buffer_Ok CmdSubmit_ok_def)
  moreover have "read_iso_packets (cs_number_of_packets m)
      (feed (encode_iso_packets (cs_number_of_packets m) (cs_iso_packet_descriptors m)) s')
       = Ok (cs_iso_packet_descriptors m, s')"
    using m by (auto simp: read_iso_packets_Ok CmdSubmit_ok_def)
  ultimately show ?L
    using m by (cases m)
      (simp add: read_cmd_submit_def CmdSubmit_ok_def reader_eval u32_at_append not_less)
qed

lemma read_ret_submit_Ok:
  assumes "hdr_command h = Command_as_u32 RetSubmit_Code"
  shows "read_ret_submit h s = Ok (u, s') \<longleftrightarrow>
    (\<exists>m pad. u = RetSubmit m \<and> rs_header m = h \<and> RetSubmit_ok m \<and> length pad = 8 \<and>
       s = feed (RetSubmit_body pad m) s')"
    (is "?L = ?R")
proof
  assume ?L
  then obtain f s1 tb ds where f: "length f = 28" "s = feed f s1"
    and rest: "u32_at f 4 \<le> MAX_TRANSFER_BUFFER_LENGTH"
      "length tb = (if hdr_direction h = 1 then unat (u32_at f 4) else 0)"
      "iso_packets_ok (u32_at f 12) ds"
      "s1 = feed (tb @ encode_iso_packets (u32_at f 12) ds) s'"
    and u: "u = RetSubmit \<lparr>rs_header = h, rs_status = u32_at f 0,
      rs_actual_length = u32_at f 4, rs_start_frame = u32_at f 8,
      rs_number_of_packets = u32_at f 12, rs_error_count = u32_at f 16,
      rs_transfer_buffer = tb, rs_iso_packet_descriptors = ds\<rparr>"
    by (auto simp: read_ret_submit_def urb_read_simps RET_SUBMIT_FIELDS_SIZE_def not_less
      simp del: if_split split: if_split_asm)
  then show ?R using assms fields_join [OF f(1)]
    by (auto simp: RetSubmit_ok_def RetSubmit_body_def intro!: exI [of _ "drop 20 f"])
next
  assume ?R
  then obtain m pad where m: "u = RetSubmit m" "rs_header m = h" "RetSubmit_ok m"
    "length pad = 8" "s = feed (RetSubmit_body pad m) s'" by blast
  let ?f = "u32_to_be_bytes (rs_status m) @ u32_to_be_bytes (rs_actual_length m) @
     u32_to_be_bytes (rs_start_frame m) @ u32_to_be_bytes (rs_number_of_packets m) @
     u32_to_be_bytes (rs_error_count m) @ pad"
  have "read_n RET_SUBMIT_FIELDS_SIZE s = Ok (?f, feed (rs_transfer_buffer m @
     encode_iso_packets (rs_number_of_packets m) (rs_iso_packet_descriptors m)) s')"
    using m by (simp add: read_n_Ok RetSubmit_body_def RET_SUBMIT_FIELDS_SIZE_def)
  moreover have "read_transfer_buffer (hdr_direction h = 1) (rs_actual_length m)
       (feed (rs_transfer_buffer m @ xs) s') = Ok (rs_transfer_buffer m, feed xs s')" for xs
    using m by (auto simp: read_transfer_buffer_Ok RetSubmit_ok_def)
  moreover have "read_iso_packets (rs_number_of_packets m)
      (feed (encode_iso_packets (rs_number_of_packets m) (rs_iso_packet_descriptors m)) s')
       = Ok (rs_iso_packet_descriptors m, s')"
    using m by (auto simp: read_iso_packets_Ok RetSubmit_ok_def)
  ultimately show ?L
    using m by (cases m)
      (simp add: read_ret_submit_def RetSubmit_ok_def reader_eval u32_at_append not_less)
qed

lemma read_unlink_Ok:
  "read_cmd_unlink h s = Ok (u, s') \<longleftrightarrow>
     (\<exists>n pad. u = CmdUnlink \<lparr>cu_header = h, cu_unlink_seqnum = n\<rparr> \<and> length pad = 24 \<and>
        s = feed (u32_to_be_bytes n @ pad) s')"
  "read_ret_unlink h s = Ok (u, s') \<longleftrightarrow>
     (\<exists>n pad. u = RetUnlink \<lparr>ru_header = h, ru_status = n\<rparr> \<and> length pad = 24 \<and>
        s = feed (u32_to_be_bytes n @ pad) s')"
proof -
  have *: "(\<exists>f. length f = 28 \<and> s = feed f s' \<and> P (u32_at f 0)) \<longleftrightarrow>
      (\<exists>n pad. P n \<and> length pad = 24 \<and> s = feed (u32_to_be_bytes n @ pad) s')" for P
  proof
    assume "\<exists>f. length f = 28 \<and> s = feed f s' \<and> P (u32_at f 0)"
    then obtain f where "length f = 28" "s = feed f s'" "P (u32_at f 0)" by blast
    then show "\<exists>n pad. P n \<and> length pad = 24 \<and> s = feed (u32_to_be_bytes n @ pad) s'"
      using fields_head_join [of f] by (intro exI [of _ "u32_at f 0"] exI [of _ "drop 4 f"]) simp
  next
    assume "\<exists>n pad. P n \<and> length pad = 24 \<and> s = feed (u32_to_be_bytes n @ pad) s'"
    then obtain n pad where "P n" "length pad = 24" "s = feed (u32_to_be_bytes n @ pad) s'" by blast
    then show "\<exists>f. length f = 28 \<and> s = feed f s' \<and> P (u32_at f 0)"
      by (intro exI [of _ "u32_to_be_bytes n @ pad"]) (simp add: u32_at_append)
  qed
  show "read_cmd_unlink h s = Ok (u, s') \<longleftrightarrow>
     (\<exists>n pad. u = CmdUnlink \<lparr>cu_header = h, cu_unlink_seqnum = n\<rparr> \<and> length pad = 24 \<and>
        s = feed (u32_to_be_bytes n @ pad) s')"
    using * [of "\<lambda>n. u = CmdUnlink \<lparr>cu_header = h, cu_unlink_seqnum = n\<rparr>"]
    by (auto simp: read_cmd_unlink_def urb_read_simps urb_consts)
  show "read_ret_unlink h s = Ok (u, s') \<longleftrightarrow>
     (\<exists>n pad. u = RetUnlink \<lparr>ru_header = h, ru_status = n\<rparr> \<and> length pad = 24 \<and>
        s = feed (u32_to_be_bytes n @ pad) s')"
    using * [of "\<lambda>n. u = RetUnlink \<lparr>ru_header = h, ru_status = n\<rparr>"]
    by (auto simp: read_ret_unlink_def urb_read_simps urb_consts)
qed

lemma read_urb_message_Ok:
  "read_urb_message s = Ok (u, s') \<longleftrightarrow>
     (\<exists>h s1 c. s = feed (UsbipHeaderBasic_encode h) s1 \<and> hdr_command h = Command_as_u32 c \<and>
        (case c of CmdSubmit_Code \<Rightarrow> read_cmd_submit h | RetSubmit_Code \<Rightarrow> read_ret_submit h
         | CmdUnlink_Code \<Rightarrow> read_cmd_unlink h | RetUnlink_Code \<Rightarrow> read_ret_unlink h) s1 = Ok (u, s'))"
  (is "?L = ?R")
proof
  assume ?L
  then obtain b s1 h r where b: "length b = HEADER_BASIC_SIZE" "s = feed b s1"
    "b = UsbipHeaderBasic_encode h @ r"
    and k: "(case Command_from_raw (hdr_command h) of
       None \<Rightarrow> serr (InvalidCommand (hdr_command h))
     | Some CmdSubmit_Code \<Rightarrow> read_cmd_submit h
     | Some RetSubmit_Code \<Rightarrow> read_ret_submit h
     | Some CmdUnlink_Code \<Rightarrow> read_cmd_unlink h
     | Some RetUnlink_Code \<Rightarrow> read_ret_unlink h) s1 = Ok (u, s')"
    by (auto simp: read_urb_message_def sbind_def decode_from_def rbind_eq_Ok read_n_Ok hdr_decode_iff)
  moreover from k obtain c where "hdr_command h = Command_as_u32 c"
    by (cases "Command_from_raw (hdr_command h)") (auto simp: reader_eval Command_from_raw_Some)
  ultimately show ?R
    by (intro exI [of _ h] exI [of _ s1] exI [of _ c]) (auto split: Command.splits)
next
  assume ?R
  then obtain h s1 c where h: "s = feed (UsbipHeaderBasic_encode h) s1"
    "hdr_command h = Command_as_u32 c"
    "(case c of CmdSubmit_Code \<Rightarrow> read_cmd_submit h | RetSubmit_Code \<Rightarrow> read_ret_submit h
         | CmdUnlink_Code \<Rightarrow> read_cmd_unlink h | RetUnlink_Code \<Rightarrow> read_ret_unlink h) s1 = Ok (u, s')"
    by blast
  moreover have "read_n HEADER_BASIC_SIZE s = Ok (UsbipHeaderBasic_encode h, s1)"
    "UsbipHeaderBasic_decode (UsbipHeaderBasic_encode h) = Ok (h, [])"
    using h(1) hdr_decode_encode [of h "[]"] by (simp_all add: read_n_Ok)
  ultimately show ?L
    by (cases c) (simp_all add: read_urb_message_def sbind_def decode_from_def Command_from_raw_def)
qed

lemma CmdSubmit_decode_Ok:
  "CmdSubmit_decode bs = Ok (m, rest) \<longleftrightarrow>
     CmdSubmit_ok m \<and> bs = UsbipHeaderBasic_encode (cs_header m) @ CmdSubmit_body m @ rest"
  by (simp add: cmd_submit.decode_iff CmdSubmit_encode_def CmdSubmit_body_def)

lemma RetSubmit_decode_Ok:
  "RetSubmit_decode bs = Ok (m, rest) \<longleftrightarrow>
     RetSubmit_ok m \<and>
     (\<exists>pad. length pad = 8 \<and> bs = UsbipHeaderBasic_encode (rs_header m) @ RetSubmit_body pad m @ rest)"
  (is "?L = ?R")
proof
  assume ?L
  moreover from this have "RetSubmit_ok m" by (rule ret_submit.decode_ok)
  ultimately show ?R
    by (auto simp: RetSubmit_decode_def RetSubmit_body_def wire_simps rbind_eq_Ok hdr_decode_iff
      get_iffs decode_transfer_buffer_Ok decode_iso_packets_Ok split: if_split_asm)
next
  assume ?R
  then show ?L
    by (auto simp: RetSubmit_decode_def RetSubmit_body_def RetSubmit_ok_def wire_simps urb_consts
      not_less)
qed

lemma unlink_decode_Ok:
  "CmdUnlink_decode bs = Ok (m, rest) \<longleftrightarrow>
     CmdUnlink_ok m \<and> (\<exists>pad. length pad = 24 \<and>
       bs = UsbipHeaderBasic_encode (cu_header m) @ u32_to_be_bytes (cu_unlink_seqnum m) @ pad @ rest)"
  "RetUnlink_decode bs = Ok (n, rest) \<longleftrightarrow>
     RetUnlink_ok n \<and> (\<exists>pad. length pad = 24 \<and>
       bs = UsbipHeaderBasic_encode (ru_header n) @ u32_to_be_bytes (ru_status n) @ pad @ rest)"
proof -
  show "CmdUnlink_decode bs = Ok (m, rest) \<longleftrightarrow>
     CmdUnlink_ok m \<and> (\<exists>pad. length pad = 24 \<and>
       bs = UsbipHeaderBasic_encode (cu_header m) @ u32_to_be_bytes (cu_unlink_seqnum m) @ pad @ rest)"
    (is "?L = ?R")
  proof
    show "?L \<Longrightarrow> ?R"
      by (auto simp: CmdUnlink_decode_def CmdUnlink_ok_def wire_simps rbind_eq_Ok hdr_decode_iff
        get_iffs split: if_split_asm)
    show "?R \<Longrightarrow> ?L"
      by (auto simp: CmdUnlink_decode_def CmdUnlink_ok_def wire_simps urb_consts)
  qed
  show "RetUnlink_decode bs = Ok (n, rest) \<longleftrightarrow>
     RetUnlink_ok n \<and> (\<exists>pad. length pad = 24 \<and>
       bs = UsbipHeaderBasic_encode (ru_header n) @ u32_to_be_bytes (ru_status n) @ pad @ rest)"
    (is "?L = ?R")
  proof
    show "?L \<Longrightarrow> ?R"
      by (auto simp: RetUnlink_decode_def RetUnlink_ok_def wire_simps rbind_eq_Ok hdr_decode_iff
        get_iffs split: if_split_asm)
    show "?R \<Longrightarrow> ?L"
      by (auto simp: RetUnlink_decode_def RetUnlink_ok_def wire_simps urb_consts)
  qed
qed

lemma read_urb_message_iff:
  "read_urb_message s = Ok (u, s') \<longleftrightarrow> (\<exists>bs. s = feed bs s' \<and> UrbMessage_decodes bs u)"
  (is "?L = ?R")
proof
  assume ?L
  then obtain h s1 c where h: "s = feed (UsbipHeaderBasic_encode h) s1"
    "hdr_command h = Command_as_u32 c"
    and k: "(case c of CmdSubmit_Code \<Rightarrow> read_cmd_submit h | RetSubmit_Code \<Rightarrow> read_ret_submit h
         | CmdUnlink_Code \<Rightarrow> read_cmd_unlink h | RetUnlink_Code \<Rightarrow> read_ret_unlink h) s1 = Ok (u, s')"
    by (auto simp: read_urb_message_Ok)
  show ?R
  proof (cases c)
    case CmdSubmit_Code
    then show ?thesis using h k by (auto simp: read_cmd_submit_Ok CmdSubmit_decode_Ok)
  next
    case RetSubmit_Code
    with h k obtain m pad where "u = RetSubmit m" "rs_header m = h" "RetSubmit_ok m"
      "length pad = 8" "s1 = feed (RetSubmit_body pad m) s'" by (auto simp: read_ret_submit_Ok)
    then show ?thesis using h
      by (intro exI [of _ "UsbipHeaderBasic_encode h @ RetSubmit_body pad m"])
         (auto simp: RetSubmit_decode_Ok)
  next
    case CmdUnlink_Code
    then show ?thesis using h k
      by (auto simp: read_unlink_Ok unlink_decode_Ok CmdUnlink_ok_def)
  next
    case RetUnlink_Code
    then show ?thesis using h k
      by (auto simp: read_unlink_Ok unlink_decode_Ok RetUnlink_ok_def)
  qed
next
  assume ?R
  then obtain bs where s: "s = feed bs s'" and d: "UrbMessage_decodes bs u" by blast
  show ?L
  proof (cases u)
    case (CmdSubmit m)
    with d s show ?thesis
      by (auto simp: read_urb_message_Ok read_cmd_submit_Ok CmdSubmit_decode_Ok CmdSubmit_ok_def
        intro!: exI [of _ "cs_header m"] exI [of _ "feed (CmdSubmit_body m) s'"]
          exI [of _ CmdSubmit_Code])
  next
    case (RetSubmit m)
    with d obtain pad where "RetSubmit_ok m" "length pad = 8"
      "bs = UsbipHeaderBasic_encode (rs_header m) @ RetSubmit_body pad m"
      by (auto simp: RetSubmit_decode_Ok)
    then show ?thesis
      using RetSubmit s unfolding read_urb_message_Ok
      by (intro exI [of _ "rs_header m"] exI [of _ "feed (RetSubmit_body pad m) s'"]
          exI [of _ RetSubmit_Code]) (auto simp: read_ret_submit_Ok RetSubmit_ok_def)
  next
    case (CmdUnlink m)
    with d obtain pad where "CmdUnlink_ok m" "length pad = 24"
      "bs = UsbipHeaderBasic_encode (cu_header m) @ u32_to_be_bytes (cu_unlink_seqnum m) @ pad"
      by (auto simp: unlink_decode_Ok)
    then show ?thesis
      using CmdUnlink s unfolding read_urb_message_Ok
      by (intro exI [of _ "cu_header m"] exI [of _ CmdUnlink_Code]
          exI [of _ "feed (u32_to_be_bytes (cu_unlink_seqnum m) @ pad) s'"])
         (cases m, auto simp: read_unlink_Ok CmdUnlink_ok_def)
  next
    case (RetUnlink m)
    with d obtain pad where "RetUnlink_ok m" "length pad = 24"
      "bs = UsbipHeaderBasic_encode (ru_header m) @ u32_to_be_bytes (ru_status m) @ pad"
      by (auto simp: unlink_decode_Ok)
    then show ?thesis
      using RetUnlink s unfolding read_urb_message_Ok
      by (intro exI [of _ "ru_header m"] exI [of _ RetUnlink_Code]
          exI [of _ "feed (u32_to_be_bytes (ru_status m) @ pad) s'"])
         (cases m, auto simp: read_unlink_Ok RetUnlink_ok_def)
  qed
qed

lemma UrbMessage_decodes_encode: "UrbMessage_ok m \<Longrightarrow> UrbMessage_decodes (UrbMessage_encode m) m"
  using cmd_submit.decode_encode [where rest = "[]"] ret_submit.decode_encode [where rest = "[]"]
    cmd_unlink.decode_encode [where rest = "[]"] ret_unlink.decode_encode [where rest = "[]"]
  by (cases m) simp_all

lemma UrbMessage_decodes_ok: "UrbMessage_decodes bs m \<Longrightarrow> UrbMessage_ok m"
  by (cases m) (auto dest: cmd_submit.decode_ok ret_submit.decode_ok cmd_unlink.decode_ok
    ret_unlink.decode_ok)

interpretation urb_stream: message_stream read_urb_message UrbMessage_encode UrbMessage_ok
proof unfold_locales
  show "read_urb_message (feed (UrbMessage_encode m) s) = Ok (m, s)" if "UrbMessage_ok m" for m s
    using UrbMessage_decodes_encode [OF that] by (auto simp: read_urb_message_iff)
  show "UrbMessage_ok m" if "read_urb_message s = Ok (m, s')" for s m s'
    using that UrbMessage_decodes_ok by (auto simp: read_urb_message_iff)
  note defs = read_transfer_buffer_def read_iso_packets_def read_cmd_submit_def read_ret_submit_def
    read_cmd_unlink_def read_ret_unlink_def Let_def
  have "framed (read_cmd_submit h)" "framed (read_ret_submit h)" "framed (read_cmd_unlink h)"
    "framed (read_ret_unlink h)" for h
    unfolding defs by (intro framed_intros)+
  then show "framed read_urb_message"
    unfolding read_urb_message_def
    by (auto intro!: framed_intros framed_option split: Command.split)
  have "calm (read_cmd_submit h)" "calm (read_ret_submit h)" "calm (read_cmd_unlink h)"
    "calm (read_ret_unlink h)" for h
    unfolding defs by (intro calm_intros iso.safe_decode_list)+
  then show "calm read_urb_message"
    unfolding read_urb_message_def
    by (auto intro!: calm_intros calm_option hdr.decode_safe split: Command.split)
qed

section \<open>The errors of a reader\<close>

lemma exact_need: "exact n d \<Longrightarrow> exact n (need n d)"
  by (simp add: exact_def need_eval)

lemma exact_header: "exact HEADER_BASIC_SIZE UsbipHeaderBasic_decode"
  unfolding UsbipHeaderBasic_decode_def
  by (intro exact_need exact_intros) (simp_all add: urb_consts)

lemma exact_iso_list:
  "exact (n * ISO_PACKET_DESCRIPTOR_SIZE) (repeat_decode n IsoPacketDescriptor_decode)"
proof (induction n)
  case 0
  show ?case by (simp add: exact_dreturn)
next
  case (Suc n)
  have "exact ISO_PACKET_DESCRIPTOR_SIZE IsoPacketDescriptor_decode"
    unfolding IsoPacketDescriptor_decode_def
    by (intro exact_need exact_intros) (simp_all add: urb_consts)
  from exact_dbind [OF this exact_dbind [OF Suc exact_dreturn [OF refl]]] show ?case by simp
qed

text \<open>
  When the reader fails, and with which error, told from the bytes that arrive: the command is at
  offset 0, the direction at 12, the length of the transfer at 24 and the number of packets at 32.
\<close>

definition urb_failure :: "bytes \<Rightarrow> io_error \<Rightarrow> ProtocolError option" where
  "urb_failure bs eof =
     (let cmd = u32_at bs 0; dir = u32_at bs 12; len = u32_at bs 24; packets = u32_at bs 32;
          payload = (if cmd = 1 \<and> dir = 0 \<or> cmd = 3 \<and> dir = 1 then unat len else 0) in
      if length bs < 20 then Some (Io eof)
      else if cmd \<notin> {1, 2, 3, 4} then Some (InvalidCommand cmd)
      else if length bs < 48 then Some (Io eof)
      else if cmd = 2 \<or> cmd = 4 then None
      else if len > 1048576 then Some (TransferTooLarge len 1048576)
      else if length bs < 48 + payload then Some (Io eof)
      else if packets = 0xFFFFFFFF then None
      else if packets > 1024 then Some (TooManyIsoPackets packets 1024)
      else if length bs < 48 + payload + 16 * unat packets then Some (Io eof)
      else None)"

lemma read_n_eq:
  "read_n n s = (if length (avail s) < n then Err (Io (end_error s))
     else Ok (take n (avail s), s\<lparr>avail := drop n (avail s)\<rparr>))"
  by (simp add: read_n_def read_exact_def)

lemma u32_at_shift:
  "i + 4 \<le> n \<Longrightarrow> k + n \<le> length bs \<Longrightarrow> u32_at (take n (drop k bs)) i = u32_at bs (k + i)"
  by (simp add: u32_at_def byte_at_def add.assoc)

lemma header_decoded:
  assumes "20 \<le> length bs"
  obtains h where "UsbipHeaderBasic_decode (take 20 bs) = Ok (h, [])" "hdr_command h = u32_at bs 0"
    "hdr_direction h = u32_at bs 12"
proof -
  have "HEADER_BASIC_SIZE \<le> length (take 20 bs)" "drop HEADER_BASIC_SIZE (take 20 bs) = []"
    using assms by (simp_all add: urb_consts)
  then obtain h where h: "UsbipHeaderBasic_decode (take 20 bs) = Ok (h, [])"
    using exact_header unfolding exact_def by metis
  then have "take 20 bs = UsbipHeaderBasic_encode h" using hdr.decode_canonical by fastforce
  then have bs: "bs = UsbipHeaderBasic_encode h @ drop 20 bs" by (metis append_take_drop_id)
  have "hdr_direction h = u32_at bs 12" "hdr_command h = u32_at bs 0"
    by (subst bs, simp add: UsbipHeaderBasic_encode_def u32_at_append wire_simps)+
  then show ?thesis using that h by blast
qed

lemma sbind_Err:
  "sbind r f s = Err e \<longleftrightarrow> r s = Err e \<or> (\<exists>x s'. r s = Ok (x, s') \<and> f x s' = Err e)"
  by (auto simp: sbind_def rbind_eq_Err)

lemma read_iso_packets_Err:
  "read_iso_packets packets s = Err e \<longleftrightarrow>
    (if packets = 0xFFFFFFFF then False
     else if packets > 1024 then e = TooManyIsoPackets packets 1024
     else length (avail s) < 16 * unat packets \<and> e = Io (end_error s))"
proof -
  have "\<exists>x. repeat_decode (unat packets) IsoPacketDescriptor_decode (take (unat packets * 16) bs) = Ok (x, [])"
    if "unat packets * 16 \<le> length bs" for bs
    using exact_iso_list [of "unat packets", unfolded exact_def, rule_format, of "take (unat packets * 16) bs"] that
    by (simp add: urb_consts)
  then have "decode_from (repeat_decode (unat packets) IsoPacketDescriptor_decode) (take (unat packets * 16) bs) t \<noteq> Err e"
    if "unat packets * 16 \<le> length bs" for bs t
    using that by (fastforce simp: decode_from_def rbind_eq_Err)
  then show ?thesis
    by (auto simp: read_iso_packets_def is_iso_transfer_def NON_ISO_PACKETS_SENTINEL_def MAX_ISO_PACKETS_def
      serr_def sreturn_def sbind_Err read_n_eq urb_consts mult.commute)
qed

text \<open>What follows the 48 bytes of the header and the fields, for both kinds of submit message.\<close>

lemma read_payload_Err:
  assumes "48 \<le> length bs"
  shows "sbind (read_transfer_buffer present len) (\<lambda>buf. sbind (read_iso_packets packets) (\<lambda>ds. sreturn (f buf ds)))
      \<lparr>avail = drop 48 bs, end_error = eof\<rparr> = Err e \<longleftrightarrow>
    (if length bs < 48 + (if present then unat len else 0) then e = Io eof
     else if packets = 0xFFFFFFFF then False
     else if packets > 1024 then e = TooManyIsoPackets packets 1024
     else length bs < 48 + (if present then unat len else 0) + 16 * unat packets \<and> e = Io eof)"
  using assms
  by (auto simp: sbind_Err read_transfer_buffer_def read_iso_packets_Err read_n_eq sreturn_def word_gt_0)

lemma read_body_Err:
  assumes "20 \<le> length bs"
  shows "read_cmd_submit h \<lparr>avail = drop 20 bs, end_error = eof\<rparr> = Err e \<longleftrightarrow>
      (if length bs < 48 then e = Io eof
       else if u32_at bs 24 > 1048576 then e = TransferTooLarge (u32_at bs 24) 1048576
       else sbind (read_transfer_buffer (hdr_direction h = 0) (u32_at bs 24))
              (\<lambda>buf. sbind (read_iso_packets (u32_at bs 32)) (\<lambda>ds. sreturn ()))
              \<lparr>avail = drop 48 bs, end_error = eof\<rparr> = Err e)" (is ?submit)
    and "read_ret_submit h \<lparr>avail = drop 20 bs, end_error = eof\<rparr> = Err e \<longleftrightarrow>
      (if length bs < 48 then e = Io eof
       else if u32_at bs 24 > 1048576 then e = TransferTooLarge (u32_at bs 24) 1048576
       else sbind (read_transfer_buffer (hdr_direction h = 1) (u32_at bs 24))
              (\<lambda>buf. sbind (read_iso_packets (u32_at bs 32)) (\<lambda>ds. sreturn ()))
              \<lparr>avail = drop 48 bs, end_error = eof\<rparr> = Err e)" (is ?ret)
    and "read_cmd_unlink h \<lparr>avail = drop 20 bs, end_error = eof\<rparr> = Err e \<longleftrightarrow> length bs < 48 \<and> e = Io eof"
    and "read_ret_unlink h \<lparr>avail = drop 20 bs, end_error = eof\<rparr> = Err e \<longleftrightarrow> length bs < 48 \<and> e = Io eof"
proof -
  have at: "48 \<le> length bs \<Longrightarrow> u32_at (take 28 (drop 20 bs)) 4 = u32_at bs 24"
    "48 \<le> length bs \<Longrightarrow> u32_at (take 28 (drop 20 bs)) 12 = u32_at bs 32"
    using u32_at_shift [of 4 28 20 bs] u32_at_shift [of 12 28 20 bs] by simp_all
  show ?submit ?ret
    using assms at
    by (auto simp: read_cmd_submit_def read_ret_submit_def sbind_Err read_n_eq Let_def serr_def sreturn_def urb_consts
      MAX_TRANSFER_BUFFER_LENGTH_def)
  show "read_cmd_unlink h \<lparr>avail = drop 20 bs, end_error = eof\<rparr> = Err e \<longleftrightarrow> length bs < 48 \<and> e = Io eof"
    "read_ret_unlink h \<lparr>avail = drop 20 bs, end_error = eof\<rparr> = Err e \<longleftrightarrow> length bs < 48 \<and> e = Io eof"
    using assms
    by (auto simp: read_cmd_unlink_def read_ret_unlink_def sbind_Err read_n_eq sreturn_def urb_consts)
qed

lemma read_urb_dispatch:
  assumes "20 \<le> length (avail s)"
  obtains h where "hdr_command h = u32_at (avail s) 0" "hdr_direction h = u32_at (avail s) 12"
    "read_urb_message s =
      (case Command_from_raw (hdr_command h) of
         None \<Rightarrow> serr (InvalidCommand (hdr_command h))
       | Some CmdSubmit_Code \<Rightarrow> read_cmd_submit h | Some RetSubmit_Code \<Rightarrow> read_ret_submit h
       | Some CmdUnlink_Code \<Rightarrow> read_cmd_unlink h | Some RetUnlink_Code \<Rightarrow> read_ret_unlink h)
      \<lparr>avail = drop 20 (avail s), end_error = end_error s\<rparr>"
proof -
  obtain h where h: "UsbipHeaderBasic_decode (take 20 (avail s)) = Ok (h, [])"
    "hdr_command h = u32_at (avail s) 0" "hdr_direction h = u32_at (avail s) 12"
    using header_decoded [OF assms] by blast
  then show ?thesis
    using assms that [of h] by (cases s) (simp add: read_urb_message_def reader_eval read_n_eq decode_from_def urb_consts)
qed

section \<open>Properties\<close>

text \<open>Messages for the witnesses: an OUT transfer of three bytes and an unlink request.\<close>

definition sample_header :: "Command \<Rightarrow> u32 \<Rightarrow> UsbipHeaderBasic" where
  "sample_header c dir =
     \<lparr>hdr_command = Command_as_u32 c, hdr_seqnum = 7, hdr_devid = 0x00010002, hdr_direction = dir,
      hdr_ep = 2\<rparr>"

definition sample_submit :: CmdSubmit where
  "sample_submit =
     \<lparr>cs_header = sample_header CmdSubmit_Code 0, cs_transfer_flags = 0,
      cs_transfer_buffer_length = 3, cs_start_frame = 0,
      cs_number_of_packets = NON_ISO_PACKETS_SENTINEL, cs_interval = 0,
      cs_setup = replicate 8 0, cs_transfer_buffer = [1, 2, 3], cs_iso_packet_descriptors = []\<rparr>"

definition sample_unlink :: CmdUnlink where
  "sample_unlink = \<lparr>cu_header = sample_header CmdUnlink_Code 0, cu_unlink_seqnum = 5\<rparr>"

lemma sample_ok: "UrbMessage_ok (CmdSubmit sample_submit)" "UrbMessage_ok (CmdUnlink sample_unlink)"
  by (simp_all add: sample_submit_def sample_unlink_def sample_header_def CmdSubmit_ok_def
    CmdUnlink_ok_def iso_packets_ok_def is_iso_transfer_def MAX_TRANSFER_BUFFER_LENGTH_def)

definition sample_import :: OpMessage where
  "sample_import = ReqImport \<lparr>import_busid = replicate 32 0x31\<rparr>"

lemma sample_import_ok: "OpMessage_ok sample_import" "length (OpMessage_encode sample_import) = 40"
  by (simp_all add: sample_import_def OpReqImport_ok_def OpReqImport_encode_def op_consts)

text \<open>
  C1: Any sequence of well-formed URB messages that one side writes with
  \<open>write_urb_message\<close>, one after the other, is read back by the other side's
  \<open>read_urb_message\<close> as the same sequence, and whatever follows on the connection is left
  untouched.
\<close>

theorem urb_write_read_roundtrip:
  assumes "\<forall>m \<in> set ms. UrbMessage_ok m" and "room w = None" and "sent w = []"
  shows "repeat_read (length ms) read_urb_message
           \<lparr>avail = sent (foldl (\<lambda>w m. fst (write_urb_message w m)) w ms) @ rest, end_error = e\<rparr>
         = Ok (ms, \<lparr>avail = rest, end_error = e\<rparr>)"
proof -
  have "sent (foldl (\<lambda>w m. fst (write_urb_message w m)) w ms)
      = sent w @ concat (map UrbMessage_encode ms)" if "room w = None" for w
    using that by (induction ms arbitrary: w) (simp_all add: write_urb_message_def write_buf_def)
  then show ?thesis
    using urb_stream.read_many [of ms "\<lparr>avail = rest, end_error = e\<rparr>"] assms by (simp add: feed_def)
qed

theorem urb_write_read_roundtrip_witness:
  "repeat_read (length [CmdSubmit sample_submit, CmdUnlink sample_unlink]) read_urb_message
     \<lparr>avail = sent (foldl (\<lambda>w m. fst (write_urb_message w m)) \<lparr>sent = [], room = None\<rparr>
        [CmdSubmit sample_submit, CmdUnlink sample_unlink]) @ [9], end_error = UnexpectedEof\<rparr>
   = Ok ([CmdSubmit sample_submit, CmdUnlink sample_unlink],
         \<lparr>avail = [9], end_error = UnexpectedEof\<rparr>)"
  by (rule urb_write_read_roundtrip) (simp_all add: sample_ok [simplified])

text \<open>
  C2: The same for the discovery phase: what \<open>write_op_message\<close> sends for well-formed
  messages, \<open>read_op_message\<close> reads back as the same messages.
\<close>

theorem op_write_read_roundtrip:
  assumes "\<forall>m \<in> set ms. OpMessage_ok m" and "room w = None" and "sent w = []"
  shows "repeat_read (length ms) read_op_message
           \<lparr>avail = sent (foldl (\<lambda>w m. fst (write_op_message w m)) w ms) @ rest, end_error = e\<rparr>
         = Ok (ms, \<lparr>avail = rest, end_error = e\<rparr>)"
proof -
  have "sent (foldl (\<lambda>w m. fst (write_op_message w m)) w ms)
      = sent w @ concat (map OpMessage_encode ms)" if "room w = None" for w
    using that by (induction ms arbitrary: w) (simp_all add: write_op_message_def write_buf_def)
  then show ?thesis
    using op_stream.read_many [of ms "\<lparr>avail = rest, end_error = e\<rparr>"] assms by (simp add: feed_def)
qed

theorem op_write_read_roundtrip_witness:
  "repeat_read (length [ReqDevlist OpReqDevlist, sample_import]) read_op_message
     \<lparr>avail = sent (foldl (\<lambda>w m. fst (write_op_message w m)) \<lparr>sent = [], room = None\<rparr>
        [ReqDevlist OpReqDevlist, sample_import]) @ [9], end_error = UnexpectedEof\<rparr>
   = Ok ([ReqDevlist OpReqDevlist, sample_import], \<lparr>avail = [9], end_error = UnexpectedEof\<rparr>)"
  by (rule op_write_read_roundtrip) (simp_all add: sample_import_ok)

text \<open>
  C3: The streaming reader of the URB phase accepts exactly what the buffer decoders accept:
  it returns a message if and only if the bytes it consumed are, in full, a message for the
  decoder of that message's type, and it then returns that decoder's result.
\<close>

theorem urb_reader_agrees_with_decoders:
  "read_urb_message s = Ok (m, s') \<longleftrightarrow>
     (\<exists>bs. s = s'\<lparr>avail := bs @ avail s'\<rparr> \<and>
        (case m of CmdSubmit x \<Rightarrow> CmdSubmit_decode bs = Ok (x, [])
         | RetSubmit x \<Rightarrow> RetSubmit_decode bs = Ok (x, [])
         | CmdUnlink x \<Rightarrow> CmdUnlink_decode bs = Ok (x, [])
         | RetUnlink x \<Rightarrow> RetUnlink_decode bs = Ok (x, [])))"
  unfolding read_urb_message_iff feed_def by (cases m) simp_all

text \<open>C4: The same agreement for the discovery phase.\<close>

theorem op_reader_agrees_with_decoders:
  "read_op_message s = Ok (m, s') \<longleftrightarrow>
     (\<exists>bs. s = s'\<lparr>avail := bs @ avail s'\<rparr> \<and>
        (case m of ReqDevlist x \<Rightarrow> OpReqDevlist_decode bs = Ok (x, [])
         | RepDevlist x \<Rightarrow> OpRepDevlist_decode bs = Ok (x, [])
         | ReqImport x \<Rightarrow> OpReqImport_decode bs = Ok (x, [])
         | RepImport x \<Rightarrow> OpRepImport_decode bs = Ok (x, [])))"
  unfolding read_op_message_iff feed_def by (cases m) simp_all

text \<open>
  C5: A connection that ends in the middle of a message, at any byte, makes the reader of
  either phase return the connection's I/O error: no truncated message is accepted and no
  other error is reported.
\<close>

theorem truncated_message_is_io_error:
  "(UrbMessage_ok u \<and> k < length (UrbMessage_encode u) \<longrightarrow>
      read_urb_message \<lparr>avail = take k (UrbMessage_encode u), end_error = e\<rparr> = Err (Io e)) \<and>
   (OpMessage_ok m \<and> k < length (OpMessage_encode m) \<longrightarrow>
      read_op_message \<lparr>avail = take k (OpMessage_encode m), end_error = e\<rparr> = Err (Io e))"
  using urb_stream.read_truncated op_stream.read_truncated by blast

theorem truncated_message_is_io_error_witness:
  "read_urb_message \<lparr>avail = take 50 (UrbMessage_encode (CmdSubmit sample_submit)),
     end_error = UnexpectedEof\<rparr> = Err (Io UnexpectedEof) \<and>
   read_op_message \<lparr>avail = take 39 (OpMessage_encode sample_import), end_error = UnexpectedEof\<rparr>
     = Err (Io UnexpectedEof)"
proof -
  have "length (UrbMessage_encode (CmdSubmit sample_submit)) = 51"
    using cmd_submit.encode_size [of sample_submit] sample_ok(1)
    by (simp add: CmdSubmit_wire_size_def urb_consts sample_submit_def)
  then show ?thesis
    using truncated_message_is_io_error [of "CmdSubmit sample_submit" 50 UnexpectedEof]
      truncated_message_is_io_error [of _ 39 UnexpectedEof sample_import] sample_ok(1)
      sample_import_ok by simp
qed

text \<open>
  C6: No input makes the protocol layer panic: on any stream neither reader reads outside its
  buffers, and neither does any decoder on any byte buffer.
\<close>

theorem protocol_never_panics:
  "read_urb_message s \<noteq> Panic \<and> read_op_message s \<noteq> Panic \<and>
   CmdSubmit_decode bs \<noteq> Panic \<and> RetSubmit_decode bs \<noteq> Panic \<and> CmdUnlink_decode bs \<noteq> Panic \<and>
   RetUnlink_decode bs \<noteq> Panic \<and> OpReqDevlist_decode bs \<noteq> Panic \<and>
   OpRepDevlist_decode bs \<noteq> Panic \<and> OpReqImport_decode bs \<noteq> Panic \<and> OpRepImport_decode bs \<noteq> Panic"
  using urb_stream.read_calm op_stream.read_calm
  by (simp add: calm_def safeD cmd_submit.decode_safe ret_submit.decode_safe cmd_unlink.decode_safe
    ret_unlink.decode_safe req_devlist.decode_safe rep_devlist.decode_safe req_import.decode_safe
    rep_import.decode_safe)

text \<open>
  C7: The errors of the URB reader, each with exactly when it occurs. The connection's error: when
  fewer than 20 bytes arrive, fewer than 48 after a known command, or fewer than the payload (of a
  submit with direction OUT, or a reply with direction IN) and the packet descriptors take.
  An unknown command: when the first word is none of 1 to 4. A transfer that is too large: when the
  length field of a submit or its reply is above 1 MB. Too many packets: when their number is above 1024 and not
  the value that stands for a transfer without packets. In every other case it returns a message,
  since it does not panic; an earlier condition of the list \<open>urb_failure\<close> goes first.
\<close>

theorem urb_reader_errors:
  "read_urb_message s = Err e \<longleftrightarrow> urb_failure (avail s) (end_error s) = Some e"
proof (cases "length (avail s) < 20")
  case True
  then show ?thesis
    by (auto simp: read_urb_message_def sbind_Err read_n_eq urb_failure_def Let_def urb_consts)
next
  case False
  then have n: "20 \<le> length (avail s)" by simp
  obtain h where h: "hdr_command h = u32_at (avail s) 0" "hdr_direction h = u32_at (avail s) 12"
    and run: "read_urb_message s =
      (case Command_from_raw (hdr_command h) of
         None \<Rightarrow> serr (InvalidCommand (hdr_command h))
       | Some CmdSubmit_Code \<Rightarrow> read_cmd_submit h | Some RetSubmit_Code \<Rightarrow> read_ret_submit h
       | Some CmdUnlink_Code \<Rightarrow> read_cmd_unlink h | Some RetUnlink_Code \<Rightarrow> read_ret_unlink h)
      \<lparr>avail = drop 20 (avail s), end_error = end_error s\<rparr>" by (rule read_urb_dispatch [OF n])
  note body = read_body_Err [OF n]
  note fail = urb_failure_def Let_def h [symmetric] not_less read_payload_Err Command_from_raw_def serr_def
  consider "hdr_command h = 1" | "hdr_command h = 2" | "hdr_command h = 3" | "hdr_command h = 4"
    | "hdr_command h \<notin> {1, 2, 3, 4}" by blast
  then show ?thesis
  proof cases
    case 1
    then show ?thesis using n by (auto simp: run body(1) fail)
  next
    case 2
    then show ?thesis using n by (auto simp: run body(3) fail)
  next
    case 3
    then show ?thesis using n by (auto simp: run body(2) fail)
  next
    case 4
    then show ?thesis using n by (auto simp: run body(4) fail)
  next
    case 5
    then show ?thesis using n by (auto simp: run fail)
  qed
qed

text \<open>
  C8: A message the URB reader accepts has consumed at most 48 + 1048576 + 1024 * 16 bytes, and
  its transfer buffer is at most 1 MB: a peer cannot make the reader allocate more.
\<close>

theorem urb_reader_bounded:
  assumes "read_urb_message s = Ok (m, s')"
  shows "length (avail s) \<le> length (avail s') + 48 + 1048576 + 1024 * 16 \<and>
         (case m of CmdSubmit x \<Rightarrow> length (cs_transfer_buffer x) \<le> 1048576
          | RetSubmit x \<Rightarrow> length (rs_transfer_buffer x) \<le> 1048576 | _ \<Rightarrow> True)"
proof -
  obtain bs where bs: "avail s = bs @ avail s'" and d: "UrbMessage_decodes bs m"
    using assms by (auto simp: read_urb_message_iff)
  have iso: "length ds \<le> 1024" if "iso_packets_ok n ds" for n ds
    using that by (auto simp: iso_packets_ok_def MAX_ISO_PACKETS_def word_le_nat_alt split: if_splits)
  have ok: "UrbMessage_ok m" using d by (rule UrbMessage_decodes_ok)
  show ?thesis
  proof (cases m)
    case (CmdSubmit x)
    then show ?thesis
      using d ok bs cmd_submit.decode_size [of bs x "[]"] iso [of "cs_number_of_packets x"]
      by (fastforce simp: CmdSubmit_ok_def CmdSubmit_wire_size_def urb_consts
        MAX_TRANSFER_BUFFER_LENGTH_def word_le_nat_alt split: if_splits)
  next
    case (RetSubmit x)
    then show ?thesis
      using d ok bs ret_submit.decode_size [of bs x "[]"] iso [of "rs_number_of_packets x"]
      by (fastforce simp: RetSubmit_ok_def RetSubmit_wire_size_def urb_consts
        MAX_TRANSFER_BUFFER_LENGTH_def word_le_nat_alt split: if_splits)
  next
    case (CmdUnlink x)
    then show ?thesis using d bs cmd_unlink.decode_size [of bs x "[]"]
      by (simp add: CmdUnlink_wire_size_def urb_consts)
  next
    case (RetUnlink x)
    then show ?thesis using d bs ret_unlink.decode_size [of bs x "[]"]
      by (simp add: RetUnlink_wire_size_def urb_consts)
  qed
qed

theorem urb_reader_bounded_witness:
  "read_urb_message \<lparr>avail = CmdSubmit_encode sample_submit, end_error = UnexpectedEof\<rparr>
     = Ok (CmdSubmit sample_submit, \<lparr>avail = [], end_error = UnexpectedEof\<rparr>) \<and>
   length (CmdSubmit_encode sample_submit) \<le> 48 + 1048576 + 1024 * 16"
proof -
  have r: "read_urb_message \<lparr>avail = CmdSubmit_encode sample_submit, end_error = UnexpectedEof\<rparr>
     = Ok (CmdSubmit sample_submit, \<lparr>avail = [], end_error = UnexpectedEof\<rparr>)"
    using urb_stream.read_encode [OF sample_ok(1), of "\<lparr>avail = [], end_error = UnexpectedEof\<rparr>"]
    by (simp add: feed_def)
  then show ?thesis using urb_reader_bounded [OF r] by simp
qed

end
