(* ===== verification/Api_Rpc.thy ===== *)
theory Api_Rpc
  imports Wire_Codec "HOL-Library.List_Lexorder" "HOL-Library.Char_ord"
begin

text \<open>
  The crate \<open>extender-api\<close>: JSON-RPC requests, responses and errors with their framing
  (\<open>jsonrpc.rs\<close>), the methods of the API (\<open>methods.rs\<close>) and its types (\<open>types.rs\<close>). A
  \<open>serde_json::Value\<close> is a datatype; a map of it is the list of its entries in key order, as in
  the ordered map of the crate. The values that the derived \<open>Serialize\<close> instances give are
  written out from the attributes in the source. How a value becomes text is a matter of
  \<open>serde_json\<close>, outside the repository, and an argument where it is used (\<open>Daemon_Api\<close>).
\<close>

section \<open>Values\<close>

datatype json =
    JNull
  | JBool bool
  | JNumber int
  | JFloat string
  | JString string
  | JArray "json list"
  | JObject "(string \<times> json) list"

fun map_insert :: "string \<Rightarrow> 'a \<Rightarrow> (string \<times> 'a) list \<Rightarrow> (string \<times> 'a) list" where
  "map_insert k v [] = [(k, v)]"
| "map_insert k v ((k', v') # es) =
     (if k = k' then (k, v) # es
      else if k < k' then (k, v) # (k', v') # es
      else (k', v') # map_insert k v es)"

text \<open>The macro \<open>json!\<close> on an object inserts the entries one by one.\<close>

definition json_object :: "(string \<times> json) list \<Rightarrow> json" where
  "json_object es = JObject (fold (\<lambda>(k, v). map_insert k v) es [])"

definition json_get :: "string \<Rightarrow> json \<Rightarrow> json option" where
  "json_get key v = (case v of JObject es \<Rightarrow> map_of es key | _ \<Rightarrow> None)"

definition as_str :: "json \<Rightarrow> string option" where
  "as_str v = (case v of JString s \<Rightarrow> Some s | _ \<Rightarrow> None)"

definition as_u64 :: "json \<Rightarrow> u64 option" where
  "as_u64 v = (case v of JNumber n \<Rightarrow> if 0 \<le> n \<and> n < 2 ^ 64 then Some (word_of_int n) else None | _ \<Rightarrow> None)"

abbreviation json_uint :: "'a::len word \<Rightarrow> json" where
  "json_uint w \<equiv> JNumber (uint w)"

definition json_option :: "string option \<Rightarrow> json" where
  "json_option s = (case s of None \<Rightarrow> JNull | Some t \<Rightarrow> JString t)"

section \<open>Requests and responses\<close>

record JsonRpcRequest =
  rq_jsonrpc :: string
  rq_method :: string
  rq_params :: "json option"
  rq_id :: "json option"

definition JsonRpcRequest_new :: "string \<Rightarrow> json option \<Rightarrow> u64 \<Rightarrow> JsonRpcRequest" where
  "JsonRpcRequest_new meth params i =
     \<lparr>rq_jsonrpc = ''2.0'', rq_method = meth, rq_params = params, rq_id = Some (json_uint i)\<rparr>"

definition JsonRpcRequest_notification :: "string \<Rightarrow> json option \<Rightarrow> JsonRpcRequest" where
  "JsonRpcRequest_notification meth params =
     \<lparr>rq_jsonrpc = ''2.0'', rq_method = meth, rq_params = params, rq_id = None\<rparr>"

record JsonRpcError =
  err_code :: i32
  err_message :: string
  err_data :: "json option"

record JsonRpcResponse =
  rp_jsonrpc :: string
  rp_result :: "json option"
  rp_error :: "JsonRpcError option"
  rp_id :: "json option"

definition JsonRpcResponse_success :: "json option \<Rightarrow> json \<Rightarrow> JsonRpcResponse" where
  "JsonRpcResponse_success i res =
     \<lparr>rp_jsonrpc = ''2.0'', rp_result = Some res, rp_error = None, rp_id = i\<rparr>"

definition JsonRpcResponse_error :: "json option \<Rightarrow> JsonRpcError \<Rightarrow> JsonRpcResponse" where
  "JsonRpcResponse_error i err =
     \<lparr>rp_jsonrpc = ''2.0'', rp_result = None, rp_error = Some err, rp_id = i\<rparr>"

definition parse_error :: "string \<Rightarrow> JsonRpcError" where
  "parse_error detail =
     \<lparr>err_code = - 32700, err_message = ''Parse error'', err_data = Some (JString detail)\<rparr>"

definition invalid_request :: "string \<Rightarrow> JsonRpcError" where
  "invalid_request detail =
     \<lparr>err_code = - 32600, err_message = ''Invalid Request'', err_data = Some (JString detail)\<rparr>"

definition method_not_found :: "string \<Rightarrow> JsonRpcError" where
  "method_not_found meth =
     \<lparr>err_code = - 32601, err_message = ''Method not found'', err_data = Some (JString meth)\<rparr>"

definition invalid_params :: "string \<Rightarrow> JsonRpcError" where
  "invalid_params detail =
     \<lparr>err_code = - 32602, err_message = ''Invalid params'', err_data = Some (JString detail)\<rparr>"

definition internal_error :: "string \<Rightarrow> JsonRpcError" where
  "internal_error detail =
     \<lparr>err_code = - 32603, err_message = ''Internal error'', err_data = Some (JString detail)\<rparr>"

section \<open>Framing\<close>

datatype FramingError = Framing_Io io_error | MessageTooLarge u32 | ConnectionClosed

definition MAX_MESSAGE_SIZE :: u32 where "MAX_MESSAGE_SIZE = 65536"

definition write_message :: "sink \<Rightarrow> bytes \<Rightarrow> sink \<times> (unit, FramingError) result" where
  "write_message writer msg =
     (let len = word_of_nat (length msg) :: u32 in
      if len > MAX_MESSAGE_SIZE then (writer, Err (MessageTooLarge len))
      else case write_all (u32_to_be_bytes len) writer of
        (w1, False) \<Rightarrow> (w1, Err (Framing_Io BrokenPipe))
      | (w1, True) \<Rightarrow>
          (case write_all msg w1 of
             (w2, ok) \<Rightarrow> (w2, if ok then Ok () else Err (Framing_Io BrokenPipe))))"

definition read_message :: "stream \<Rightarrow> (bytes \<times> stream, FramingError) result" where
  "read_message reader =
     (case read_exact 4 reader of
        Err UnexpectedEof \<Rightarrow> Err ConnectionClosed
      | Err e \<Rightarrow> Err (Framing_Io e)
      | Panic \<Rightarrow> Panic
      | Ok (len_buf, reader') \<Rightarrow>
          (let len = u32_at len_buf 0 in
           if len > MAX_MESSAGE_SIZE then Err (MessageTooLarge len)
           else map_err Framing_Io (read_exact (unat len) reader')))"

section \<open>Types and methods\<close>

datatype UsbSpeed = Low | Full | High | Super | SuperPlus | UnknownSpeed

record DeviceInfo =
  di_bus_id :: string
  di_vendor_id :: u16
  di_product_id :: u16
  di_manufacturer :: "string option"
  di_product :: "string option"
  di_device_class :: u8
  di_speed :: UsbSpeed
  di_is_bound :: bool

record ExportedDeviceInfo =
  ei_bus_id :: string
  ei_vendor_id :: u16
  ei_product_id :: u16
  ei_manufacturer :: "string option"
  ei_product :: "string option"
  ei_device_class :: u8
  ei_speed :: UsbSpeed
  ei_num_clients :: u32

record DaemonStatus =
  ds_version :: string
  ds_uptime_secs :: u64
  ds_exported_devices :: u32
  ds_imported_devices :: u32
  ds_active_connections :: u32

fun UsbSpeed_to_value :: "UsbSpeed \<Rightarrow> json" where
  "UsbSpeed_to_value Low = JString ''low''"
| "UsbSpeed_to_value Full = JString ''full''"
| "UsbSpeed_to_value High = JString ''high''"
| "UsbSpeed_to_value Super = JString ''super''"
| "UsbSpeed_to_value SuperPlus = JString ''superplus''"
| "UsbSpeed_to_value UnknownSpeed = JString ''unknown''"

definition DeviceInfo_to_value :: "DeviceInfo \<Rightarrow> json" where
  "DeviceInfo_to_value d = json_object
     [(''bus_id'', JString (di_bus_id d)), (''vendor_id'', json_uint (di_vendor_id d)),
      (''product_id'', json_uint (di_product_id d)), (''manufacturer'', json_option (di_manufacturer d)),
      (''product'', json_option (di_product d)), (''device_class'', json_uint (di_device_class d)),
      (''speed'', UsbSpeed_to_value (di_speed d)), (''is_bound'', JBool (di_is_bound d))]"

definition ExportedDeviceInfo_to_value :: "ExportedDeviceInfo \<Rightarrow> json" where
  "ExportedDeviceInfo_to_value d = json_object
     [(''bus_id'', JString (ei_bus_id d)), (''vendor_id'', json_uint (ei_vendor_id d)),
      (''product_id'', json_uint (ei_product_id d)), (''manufacturer'', json_option (ei_manufacturer d)),
      (''product'', json_option (ei_product d)), (''device_class'', json_uint (ei_device_class d)),
      (''speed'', UsbSpeed_to_value (ei_speed d)), (''num_clients'', json_uint (ei_num_clients d))]"

definition DaemonStatus_to_value :: "DaemonStatus \<Rightarrow> json" where
  "DaemonStatus_to_value s = json_object
     [(''version'', JString (ds_version s)), (''uptime_secs'', json_uint (ds_uptime_secs s)),
      (''exported_devices'', json_uint (ds_exported_devices s)),
      (''imported_devices'', json_uint (ds_imported_devices s)),
      (''active_connections'', json_uint (ds_active_connections s))]"

datatype ApiMethod =
    ListLocalDevices
  | ListExportedDevices
  | ListRemoteDevices string u16
  | BindDevice string
  | UnbindDevice string
  | AttachDevice string u16 string
  | DetachDevice u32
  | GetStatus
  | GetDeviceInfo string
  | Subscribe "string list"

fun method_name :: "ApiMethod \<Rightarrow> string" where
  "method_name ListLocalDevices = ''list_local_devices''"
| "method_name ListExportedDevices = ''list_exported_devices''"
| "method_name (ListRemoteDevices _ _) = ''list_remote_devices''"
| "method_name (BindDevice _) = ''bind_device''"
| "method_name (UnbindDevice _) = ''unbind_device''"
| "method_name (AttachDevice _ _ _) = ''attach_device''"
| "method_name (DetachDevice _) = ''detach_device''"
| "method_name GetStatus = ''get_status''"
| "method_name (GetDeviceInfo _) = ''get_device_info''"
| "method_name (Subscribe _) = ''subscribe''"

section \<open>Reading and building values\<close>

lemma map_of_map_insert [simp]: "map_of (map_insert k v es) = (map_of es)(k \<mapsto> v)"
  by (induction k v es rule: map_insert.induct) (auto simp: fun_eq_iff)

lemma json_get_object:
  "json_get key (json_object es) = map_of (rev es) key"
proof -
  have "map_of (fold (\<lambda>(k, v). map_insert k v) es acc) = map_of acc ++ map_of (rev es)" for acc
    by (induction es arbitrary: acc) (auto simp: fun_eq_iff map_add_def split: option.splits)
  then show ?thesis by (simp add: json_get_def json_object_def)
qed

lemma as_str_JString [simp]: "as_str (JString s) = Some s"
  by (simp add: as_str_def)

lemma as_u64_uint [simp]:
  assumes "LENGTH('a::len) \<le> 64"
  shows "as_u64 (json_uint (w :: 'a word)) = Some (ucast w)"
proof -
  have "uint w < 2 ^ LENGTH('a)" by simp
  also have "(2 :: int) ^ LENGTH('a) \<le> 2 ^ 64" using assms by (intro power_increasing) auto
  finally show ?thesis by (simp only: as_u64_def json.case uint_ge_0 simp_thms if_True ucast_eq)
qed

section \<open>Frames\<close>

text \<open>
  A message with its length. A message of at most 64 KiB arrives as it was sent; a longer one is
  refused before a byte is written, and so is a length prefix of more on the other side. A
  connection that ends between messages is told apart from one that ends within.
\<close>

definition frame :: "bytes \<Rightarrow> bytes" where
  "frame msg = u32_to_be_bytes (word_of_nat (length msg)) @ msg"

definition fits :: "bytes \<Rightarrow> bool" where
  "fits msg \<longleftrightarrow> length msg \<le> 65536"

locale message_channel =
  fixes put :: "sink \<Rightarrow> 'm \<Rightarrow> sink \<times> (unit, 'e) result" and get :: "stream \<Rightarrow> ('m \<times> stream, 'e) result"
    and framed_as :: "'m \<Rightarrow> bytes" and sendable :: "'m \<Rightarrow> bool"
  assumes write_sends: "sendable m \<Longrightarrow> room w = None \<Longrightarrow> put w m = (w\<lparr>sent := sent w @ framed_as m\<rparr>, Ok ())"
    and read_framed: "sendable m \<Longrightarrow> get (feed (framed_as m) s) = Ok (m, s)"
begin

lemma delivers:
  assumes "sendable m"
  shows "\<exists>w. put empty_sink m = (w, Ok ()) \<and> get (received (sent w)) = Ok (m, received [])"
  using write_sends [OF assms, of empty_sink] read_framed [OF assms, of "received []"]
  by (simp add: feed_def)

lemma delivers_in_order:
  assumes "\<forall>m \<in> set ms. sendable m" "room w = None"
  shows "fold (\<lambda>m w. fst (put w m)) ms w = w\<lparr>sent := sent w @ concat (map framed_as ms)\<rparr>"
  using assms by (induction ms arbitrary: w) (simp_all add: write_sends)

end

lemma unat_fits: "fits msg \<Longrightarrow> unat (word_of_nat (length msg) :: u32) = length msg"
  by (simp add: fits_def unsigned_of_nat take_bit_nat_eq_self)

interpretation rpc_frames: message_channel write_message read_message frame fits
proof unfold_locales
  fix m w s assume f: "fits m"
  have le: "\<not> MAX_MESSAGE_SIZE < (word_of_nat (length m) :: u32)"
    using unat_fits [OF f] f by (simp add: word_less_nat_alt MAX_MESSAGE_SIZE_def fits_def)
  show "write_message w m = (w\<lparr>sent := sent w @ frame m\<rparr>, Ok ())" if "room w = None"
    using le that by (simp add: write_message_def write_all_def frame_def Let_def)
  show "read_message (feed (frame m) s) = Ok (m, s)"
    using le unat_fits [OF f]
    by (cases s) (simp add: read_message_def read_exact_def frame_def feed_def u32_at_append map_err_def)
qed

lemma write_message_refuses:
  assumes "\<not> fits msg" "length msg < 2 ^ 32"
  shows "write_message w msg = (w, Err (MessageTooLarge (word_of_nat (length msg))))"
proof -
  have "unat (word_of_nat (length msg) :: u32) = length msg"
    using assms(2) by (simp add: unsigned_of_nat take_bit_nat_eq_self)
  then show ?thesis
    using assms(1) by (simp add: write_message_def word_less_nat_alt MAX_MESSAGE_SIZE_def fits_def Let_def)
qed

lemma read_message_closed:
  "length (avail s) < 4 \<Longrightarrow> end_error s = UnexpectedEof \<Longrightarrow> read_message s = Err ConnectionClosed"
  by (simp add: read_message_def read_exact_def)

end
