(* ===== verification/Daemon_Config.thy ===== *)
theory Daemon_Config
  imports Prelude
begin

text \<open>
  \<open>extender-daemon/src/config.rs\<close> (the configuration, its defaults, its layers) and
  \<open>device_acl.rs\<close> (which devices may be exported). Environment variables are a map, the
  effective user and the file system are arguments, and so is the TOML parser, a crate outside
  the repository. The access list is used by \<open>Daemon_Api\<close>.
\<close>

section \<open>Configuration\<close>

record ServerConfig =
  sc_listen_address :: string
  sc_port :: u16
  sc_max_connections :: u32
  sc_tls_cert :: "string option"
  sc_tls_key :: "string option"
  sc_session_timeout_secs :: u64

record ClientConfig =
  cc_vhci_path :: string
  cc_auto_reconnect :: bool
  cc_reconnect_max_retries :: u32
  cc_reconnect_delay_secs :: u64
  cc_reconnect_max_delay_secs :: u64

record DaemonConfig =
  dc_socket_path :: string
  dc_pid_file :: string
  dc_log_level :: string
  dc_log_format :: string
  dc_drop_user :: "string option"
  dc_drop_group :: "string option"
  dc_mdns_enabled :: bool

record SecurityConfig =
  allowed_devices :: "string list"
  denied_devices :: "string list"

record TlsConfig =
  tc_cert :: "string option"
  tc_key :: "string option"
  tc_ca :: "string option"
  tc_require_tls :: bool

record Config =
  cfg_server :: ServerConfig
  cfg_client :: ClientConfig
  cfg_daemon :: DaemonConfig
  cfg_security :: SecurityConfig
  cfg_tls :: TlsConfig

type_synonym env = "string \<rightharpoonup> string"

definition ServerConfig_default :: ServerConfig where
  "ServerConfig_default =
     \<lparr>sc_listen_address = ''127.0.0.1'', sc_port = 3240, sc_max_connections = 16,
      sc_tls_cert = None, sc_tls_key = None, sc_session_timeout_secs = 30\<rparr>"

definition ClientConfig_default :: ClientConfig where
  "ClientConfig_default =
     \<lparr>cc_vhci_path = ''/sys/devices/platform/vhci_hcd.0'', cc_auto_reconnect = True,
      cc_reconnect_max_retries = 0, cc_reconnect_delay_secs = 1, cc_reconnect_max_delay_secs = 30\<rparr>"

definition default_daemon_paths :: "bool \<Rightarrow> env \<Rightarrow> string \<times> string" where
  "default_daemon_paths is_root env =
     (if is_root then (''/var/run/extender.sock'', ''/var/run/extender.pid'')
      else let runtime_dir = (case env ''XDG_RUNTIME_DIR'' of Some d \<Rightarrow> d | None \<Rightarrow> ''/tmp'') in
        (runtime_dir @ ''/extender.sock'', runtime_dir @ ''/extender.pid''))"

definition DaemonConfig_default :: "bool \<Rightarrow> env \<Rightarrow> DaemonConfig" where
  "DaemonConfig_default is_root env =
     (case default_daemon_paths is_root env of (socket_path, pid_file) \<Rightarrow>
        \<lparr>dc_socket_path = socket_path, dc_pid_file = pid_file, dc_log_level = ''info'',
         dc_log_format = ''text'', dc_drop_user = None, dc_drop_group = None, dc_mdns_enabled = True\<rparr>)"

definition SecurityConfig_default :: SecurityConfig where
  "SecurityConfig_default = \<lparr>allowed_devices = [], denied_devices = []\<rparr>"

definition TlsConfig_default :: TlsConfig where
  "TlsConfig_default = \<lparr>tc_cert = None, tc_key = None, tc_ca = None, tc_require_tls = False\<rparr>"

definition Config_default :: "bool \<Rightarrow> env \<Rightarrow> Config" where
  "Config_default is_root env =
     \<lparr>cfg_server = ServerConfig_default, cfg_client = ClientConfig_default,
      cfg_daemon = DaemonConfig_default is_root env, cfg_security = SecurityConfig_default,
      cfg_tls = TlsConfig_default\<rparr>"

definition SYSTEM_CONFIG_PATH :: string where
  "SYSTEM_CONFIG_PATH = ''/etc/extender/config.toml''"

definition load_file ::
  "(string \<Rightarrow> (string, io_error) result) \<Rightarrow> (string \<Rightarrow> (Config, string) result) \<Rightarrow> string \<Rightarrow> Config option" where
  "load_file read_to_string toml path =
     (case read_to_string path of
        Ok content \<Rightarrow> (case toml content of Ok cfg \<Rightarrow> Some cfg | _ \<Rightarrow> None)
      | _ \<Rightarrow> None)"

definition merge_from :: "Config \<Rightarrow> Config \<Rightarrow> Config" where
  "merge_from self other =
     self\<lparr>cfg_server := cfg_server other, cfg_client := cfg_client other,
          cfg_daemon := cfg_daemon other, cfg_security := cfg_security other,
          cfg_tls := cfg_tls other\<rparr>"

definition to_ascii_lowercase :: "char \<Rightarrow> char" where
  "to_ascii_lowercase c =
     (let n = (of_char c :: nat) in if 65 \<le> n \<and> n \<le> 90 then char_of (n + 32) else c)"

definition eq_ignore_ascii_case :: "string \<Rightarrow> string \<Rightarrow> bool" where
  "eq_ignore_ascii_case s t = (map to_ascii_lowercase s = map to_ascii_lowercase t)"

definition env_flag :: "string \<Rightarrow> bool" where
  "env_flag val = (val = ''1'' \<or> eq_ignore_ascii_case val ''true'')"

text \<open>
  One override per variable, in the order of the code: an unset variable keeps the field, and so
  does a number that does not parse.
\<close>

definition override :: "env \<Rightarrow> string \<Rightarrow> (string \<Rightarrow> Config \<Rightarrow> Config) \<Rightarrow> Config \<Rightarrow> Config" where
  "override env name f cfg = (case env name of Some val \<Rightarrow> f val cfg | None \<Rightarrow> cfg)"

definition apply_env_overrides :: "env \<Rightarrow> Config \<Rightarrow> Config" where
  "apply_env_overrides env cfg =
     (let c = override env ''EXTENDER_HOST'' (\<lambda>val. cfg_server_update (sc_listen_address_update (\<lambda>_. val))) cfg;
          c = override env ''EXTENDER_PORT'' (\<lambda>val. case from_str_radix 16 10 val of
                Some port \<Rightarrow> cfg_server_update (sc_port_update (\<lambda>_. word_of_nat port))
              | None \<Rightarrow> (\<lambda>c. c)) c;
          c = override env ''EXTENDER_SOCKET'' (\<lambda>val. cfg_daemon_update (dc_socket_path_update (\<lambda>_. val))) c;
          c = override env ''EXTENDER_LOG_LEVEL'' (\<lambda>val. cfg_daemon_update (dc_log_level_update (\<lambda>_. val))) c;
          c = override env ''EXTENDER_MDNS'' (\<lambda>val. cfg_daemon_update (dc_mdns_enabled_update (\<lambda>_. env_flag val))) c;
          c = override env ''EXTENDER_TLS_CERT'' (\<lambda>val. cfg_server_update (sc_tls_cert_update (\<lambda>_. Some val))) c;
          c = override env ''EXTENDER_TLS_KEY'' (\<lambda>val. cfg_server_update (sc_tls_key_update (\<lambda>_. Some val))) c;
          c = override env ''EXTENDER_TLS_CA'' (\<lambda>val. cfg_tls_update (tc_ca_update (\<lambda>_. Some val))) c;
          c = override env ''EXTENDER_SESSION_TIMEOUT'' (\<lambda>val. case from_str_radix 64 10 val of
                Some secs \<Rightarrow> cfg_server_update (sc_session_timeout_secs_update (\<lambda>_. word_of_nat secs))
              | None \<Rightarrow> (\<lambda>c. c)) c
      in override env ''EXTENDER_AUTO_RECONNECT'' (\<lambda>val. cfg_client_update (cc_auto_reconnect_update (\<lambda>_. env_flag val))) c)"

definition load ::
  "bool \<Rightarrow> env \<Rightarrow> (string \<Rightarrow> (string, io_error) result) \<Rightarrow> (string \<Rightarrow> (Config, string) result)
     \<Rightarrow> string option \<Rightarrow> Config" where
  "load is_root env read_to_string toml user_config_path =
     (let config = Config_default is_root env;
          config = (case load_file read_to_string toml SYSTEM_CONFIG_PATH of
                      Some system \<Rightarrow> system | None \<Rightarrow> config);
          config = (case user_config_path of
                      None \<Rightarrow> config
                    | Some user_path \<Rightarrow>
                        (case load_file read_to_string toml user_path of
                           Some user \<Rightarrow> merge_from config user | None \<Rightarrow> config))
      in apply_env_overrides env config)"

section \<open>Device access list\<close>

record DevicePattern =
  dp_vendor_id :: "u16 option"
  dp_product_id :: "u16 option"

definition parse_component :: "string \<Rightarrow> u16 option option" where
  "parse_component s =
     (let s = trim s in
      if s = ''*'' then Some None
      else map_option (\<lambda>n. Some (word_of_nat n)) (from_str_radix 16 16 s))"

definition DevicePattern_parse :: "string \<Rightarrow> DevicePattern option" where
  "DevicePattern_parse pattern =
     (case split_on (CHR '':'') pattern of
        [v, p] \<Rightarrow>
          (case parse_component v of
             None \<Rightarrow> None
           | Some vendor \<Rightarrow>
               (case parse_component p of
                  None \<Rightarrow> None
                | Some product \<Rightarrow> Some \<lparr>dp_vendor_id = vendor, dp_product_id = product\<rparr>))
      | _ \<Rightarrow> None)"

definition DevicePattern_matches :: "DevicePattern \<Rightarrow> u16 \<Rightarrow> u16 \<Rightarrow> bool" where
  "DevicePattern_matches pattern vid pid =
     ((case dp_vendor_id pattern of None \<Rightarrow> True | Some v \<Rightarrow> v = vid) \<and>
      (case dp_product_id pattern of None \<Rightarrow> True | Some p \<Rightarrow> p = pid))"

text \<open>The two loops of \<open>is_device_allowed\<close>: does a well-formed pattern of the list match?\<close>

fun any_matches :: "string list \<Rightarrow> u16 \<Rightarrow> u16 \<Rightarrow> bool" where
  "any_matches [] vid pid = False"
| "any_matches (s # ss) vid pid =
     (case DevicePattern_parse s of
        Some pattern \<Rightarrow> if DevicePattern_matches pattern vid pid then True else any_matches ss vid pid
      | None \<Rightarrow> any_matches ss vid pid)"

definition is_device_allowed :: "u16 \<Rightarrow> u16 \<Rightarrow> SecurityConfig \<Rightarrow> bool" where
  "is_device_allowed vid pid config =
     (if any_matches (denied_devices config) vid pid then False
      else if allowed_devices config = [] then True
      else any_matches (allowed_devices config) vid pid)"

text \<open>The format \<open>{:04x}\<close> of a 16-bit integer.\<close>

definition hex_char :: "nat \<Rightarrow> char" where
  "hex_char n = ''0123456789abcdef'' ! n"

definition hex4 :: "u16 \<Rightarrow> string" where
  "hex4 w = (let n = unat w in map hex_char [n div 4096 mod 16, n div 256 mod 16, n div 16 mod 16, n mod 16])"

section \<open>Layers of the configuration\<close>

lemma merge_from_other: "merge_from self other = other"
  by (simp add: merge_from_def)

text \<open>
  The last layer that can be read wins as a whole: a user file replaces the system file even in
  the sections it does not have. The environment comes on top.
\<close>

lemma load_layers:
  "load is_root env read toml user =
     apply_env_overrides env
       (case Option.bind user (load_file read toml) of
          Some cfg \<Rightarrow> cfg
        | None \<Rightarrow> (case load_file read toml SYSTEM_CONFIG_PATH of
            Some cfg \<Rightarrow> cfg | None \<Rightarrow> Config_default is_root env))"
  by (simp add: load_def merge_from_other Let_def split: option.splits)

lemma override_keeps:
  "(\<And>val c. cfg_security (f val c) = cfg_security c) \<Longrightarrow> cfg_security (override env name f cfg) = cfg_security cfg"
  "(\<And>val c. sc_port (cfg_server (f val c)) = sc_port (cfg_server c)) \<Longrightarrow>
     sc_port (cfg_server (override env name f cfg)) = sc_port (cfg_server cfg)"
  by (simp_all add: override_def split: option.splits)

lemma overrides_keep_security: "cfg_security (apply_env_overrides env cfg) = cfg_security cfg"
  by (simp add: apply_env_overrides_def Let_def override_keeps split: option.split)

lemma override_port:
  "sc_port (cfg_server (apply_env_overrides env cfg)) =
     (case Option.bind (env ''EXTENDER_PORT'') (from_str_radix 16 10) of
        Some n \<Rightarrow> word_of_nat n | None \<Rightarrow> sc_port (cfg_server cfg))"
proof -
  have "sc_port (cfg_server (override env name f c)) =
      (case env name of Some val \<Rightarrow> sc_port (cfg_server (f val c)) | None \<Rightarrow> sc_port (cfg_server c))"
    if "name = ''EXTENDER_PORT''" for name f c
    by (simp add: override_def split: option.splits)
  then show ?thesis
    by (simp add: apply_env_overrides_def Let_def override_keeps split: option.split)
qed

section \<open>What the access list decides\<close>

lemma any_matches_iff:
  "any_matches ps vid pid \<longleftrightarrow>
     (\<exists>s \<in> set ps. \<exists>p. DevicePattern_parse s = Some p \<and> DevicePattern_matches p vid pid)"
  by (induction ps) (auto split: option.splits)

lemma is_device_allowed_iff:
  "is_device_allowed vid pid config \<longleftrightarrow>
     \<not> any_matches (denied_devices config) vid pid \<and>
     (allowed_devices config = [] \<or> any_matches (allowed_devices config) vid pid)"
  by (simp add: is_device_allowed_def)

text \<open>
  A pattern in the documented form, two times four hexadecimal digits with a star for either,
  means what it says.
\<close>

lemma hex_char_cases:
  assumes "n < 16"
  shows "hex_digit (hex_char n) = Some n" "graphic (hex_char n)" "hex_char n \<noteq> CHR '':''"
    "hex_char n \<noteq> CHR ''+''" "hex_char n \<noteq> CHR ''*''"
proof -
  have "list_all (\<lambda>n. hex_digit (hex_char n) = Some n \<and> graphic (hex_char n) \<and>
      hex_char n \<notin> set '':+*'') [0..<16]" by code_simp
  then show "hex_digit (hex_char n) = Some n" "graphic (hex_char n)" "hex_char n \<noteq> CHR '':''"
    "hex_char n \<noteq> CHR ''+''" "hex_char n \<noteq> CHR ''*''"
    using assms by (simp_all add: list_all_iff)
qed

lemma four_digits:
  assumes "n < 65536"
  shows "((n div 4096 mod 16 * 16 + n div 256 mod 16) * 16 + n div 16 mod 16) * 16 + n mod 16 = (n :: nat)"
proof -
  have "n div 4096 mod 16 = n div 256 div 16" "n div 256 = n div 16 div 16"
    using assms by (simp_all add: div_mult2_eq [symmetric])
  then show ?thesis by (metis div_mult_mod_eq)
qed

lemma parse_hex4: "from_str_radix 16 16 (hex4 w) = Some (unat w)"
proof -
  have "unat w < 65536" using unsigned_less [of w] by simp
  then show ?thesis
    using four_digits [of "unat w"] by (simp add: from_str_radix_def hex4_def Let_def hex_char_cases)
qed

definition pattern_part :: "u16 option \<Rightarrow> string" where
  "pattern_part v = (case v of None \<Rightarrow> ''*'' | Some w \<Rightarrow> hex4 w)"

lemma pattern_part_chars: "c \<in> set (pattern_part v) \<Longrightarrow> graphic c \<and> c \<noteq> CHR '':''"
proof -
  have "graphic (CHR ''*'')" by (simp add: graphic_def)
  then show "c \<in> set (pattern_part v) \<Longrightarrow> graphic c \<and> c \<noteq> CHR '':''"
    by (auto simp: pattern_part_def hex4_def Let_def hex_char_cases split: option.splits)
qed

lemma parse_component_part: "parse_component (pattern_part v) = Some v"
proof -
  have "trim (pattern_part v) = pattern_part v" by (rule trim_graphic) (blast dest: pattern_part_chars)
  moreover have "hex4 w \<noteq> ''*''" for w by (simp add: hex4_def Let_def)
  ultimately show ?thesis
    by (cases v) (simp_all add: parse_component_def pattern_part_def parse_hex4)
qed

lemma parse_documented_pattern:
  "DevicePattern_parse (pattern_part v @ CHR '':'' # pattern_part p) = Some \<lparr>dp_vendor_id = v, dp_product_id = p\<rparr>"
proof -
  have "CHR '':'' \<notin> set (pattern_part u)" for u by (blast dest: pattern_part_chars)
  then show ?thesis by (simp add: DevicePattern_parse_def split_on_append split_on_single parse_component_part)
qed

type_synonym acl_rule = "u16 option \<times> u16 option"

definition rule_text :: "acl_rule \<Rightarrow> string" where
  "rule_text r = pattern_part (fst r) @ CHR '':'' # pattern_part (snd r)"

definition rule_covers :: "acl_rule \<Rightarrow> u16 \<Rightarrow> u16 \<Rightarrow> bool" where
  "rule_covers r vid pid \<longleftrightarrow> (fst r = None \<or> fst r = Some vid) \<and> (snd r = None \<or> snd r = Some pid)"

definition rules_config :: "acl_rule list \<Rightarrow> acl_rule list \<Rightarrow> SecurityConfig" where
  "rules_config allow deny = \<lparr>allowed_devices = map rule_text allow, denied_devices = map rule_text deny\<rparr>"

lemma any_matches_rules:
  "any_matches (map rule_text rules) vid pid \<longleftrightarrow> (\<exists>r \<in> set rules. rule_covers r vid pid)"
proof -
  have "(case v of None \<Rightarrow> True | Some w \<Rightarrow> w = x) \<longleftrightarrow> v = None \<or> v = Some x" for v :: "u16 option" and x
    by (cases v) auto
  then show ?thesis
    by (simp add: any_matches_iff rule_text_def rule_covers_def parse_documented_pattern DevicePattern_matches_def)
qed

lemma is_device_allowed_rules:
  "is_device_allowed vid pid (rules_config allow deny) \<longleftrightarrow>
     (\<forall>r \<in> set deny. \<not> rule_covers r vid pid) \<and> (allow = [] \<or> (\<exists>r \<in> set allow. rule_covers r vid pid))"
  by (auto simp: is_device_allowed_iff rules_config_def any_matches_rules)

text \<open>A pattern that does not parse is skipped, also in the list of denied devices.\<close>

lemma malformed_denial_ignored:
  "is_device_allowed vid pid \<lparr>allowed_devices = [], denied_devices = [''0bda'']\<rparr>"
  by (simp add: is_device_allowed_def DevicePattern_parse_def)

end
