(* ===== verification/Server_Device.thy ===== *)
theory Server_Device
  imports Wire_Codec
begin

text \<open>
  \<open>extender-server/src/device.rs\<close> and \<open>error.rs\<close>: local USB devices, their conversion to the
  wire descriptor, enumeration, and the filter with its glob matcher. The crate \<open>rusb\<close> is
  outside the repository: what its calls return for one device is a record the enumeration
  takes as an argument, and its error type has the variants the sources name and one for all
  others.
\<close>

section \<open>Errors\<close>

datatype rusb_error =
    Rusb_Pipe | Rusb_NoDevice | Rusb_Timeout | Rusb_Busy | Rusb_Overflow | Rusb_NotFound
  | Rusb_Access | Rusb_Io | Rusb_InvalidParam | Rusb_NotSupported | Rusb_BadDescriptor
  | Rusb_Interrupted | Rusb_NoMem | Rusb_Other

datatype ServerError =
    UsbContextInit rusb_error
  | Enumeration rusb_error
  | DeviceNotFound string
  | DeviceInUse string
  | OpenDevice string rusb_error
  | AutoDetach string rusb_error
  | ClaimInterface string u8 rusb_error
  | ReleaseInterface string u8 rusb_error
  | Transfer rusb_error
  | Timeout
  | Descriptor rusb_error
  | ConfigDescriptor rusb_error
  | Protocol ProtocolError
  | DeviceAlreadyBound string
  | DeviceNotBound string
  | ListenerBind io_error
  | ServerIo io_error
  | Tls string

fun rusb_error_to_errno :: "rusb_error \<Rightarrow> i32" where
  "rusb_error_to_errno Rusb_Pipe = - 32"
| "rusb_error_to_errno Rusb_NoDevice = - 19"
| "rusb_error_to_errno Rusb_Timeout = - 110"
| "rusb_error_to_errno Rusb_Busy = - 16"
| "rusb_error_to_errno Rusb_Overflow = - 75"
| "rusb_error_to_errno Rusb_NotFound = - 2"
| "rusb_error_to_errno Rusb_Access = - 13"
| "rusb_error_to_errno Rusb_Io = - 5"
| "rusb_error_to_errno Rusb_InvalidParam = - 22"
| "rusb_error_to_errno Rusb_NotSupported = - 95"
| "rusb_error_to_errno Rusb_BadDescriptor = - 5"
| "rusb_error_to_errno Rusb_Interrupted = - 4"
| "rusb_error_to_errno Rusb_NoMem = - 12"
| "rusb_error_to_errno Rusb_Other = - 5"

section \<open>Devices\<close>

record LocalUsbInterface =
  li_interface_number :: u8
  li_interface_class :: u8
  li_interface_subclass :: u8
  li_interface_protocol :: u8

record LocalUsbDevice =
  ld_bus_number :: u8
  ld_device_address :: u8
  ld_vendor_id :: u16
  ld_product_id :: u16
  ld_manufacturer :: "string option"
  ld_product :: "string option"
  ld_device_class :: u8
  ld_device_subclass :: u8
  ld_device_protocol :: u8
  ld_bcd_device :: u16
  ld_bus_id :: string
  ld_speed :: u32
  ld_num_configurations :: u8
  ld_interfaces :: "LocalUsbInterface list"
  ld_port_numbers :: "u8 list"

definition to_protocol_device :: "LocalUsbDevice \<Rightarrow> (UsbDevice, ServerError) result" where
  "to_protocol_device d =
     rbind (map_err Protocol (busid_from_str (ld_bus_id d))) (\<lambda>b.
       let ifs = map (\<lambda>i. \<lparr>interface_class = li_interface_class i,
                           interface_subclass = li_interface_subclass i,
                           interface_protocol = li_interface_protocol i, padding = 0\<rparr>)
                   (ld_interfaces d)
       in Ok \<lparr>path = path_from_str (''/sys/devices/usb'' @ dec_string (unat (ld_bus_number d)) @
                       ''/'' @ ld_bus_id d),
              busid = b,
              busnum = ucast (ld_bus_number d), devnum = ucast (ld_device_address d),
              speed = ld_speed d, id_vendor = ld_vendor_id d, id_product = ld_product_id d,
              bcd_device = ld_bcd_device d, device_class = ld_device_class d,
              device_subclass = ld_device_subclass d, device_protocol = ld_device_protocol d,
              configuration_value = 0, num_configurations = ld_num_configurations d,
              num_interfaces = word_of_nat (length ifs), interfaces = ifs\<rparr>)"

definition format_bus_id :: "u8 \<Rightarrow> u8 list \<Rightarrow> string" where
  "format_bus_id bus_number port_numbers =
     (let bus = dec_string (unat bus_number); ports = map (dec_string \<circ> unat) port_numbers in
      case ports of
        [] \<Rightarrow> bus @ ''-0''
      | [first] \<Rightarrow> bus @ ''-'' @ first
      | first # rest \<Rightarrow> bus @ ''-'' @ first @ ''.'' @ join_with ''.'' rest)"

datatype rusb_speed = Speed_Low | Speed_Full | Speed_High | Speed_Super | Speed_Other

fun map_speed :: "rusb_speed \<Rightarrow> u32" where
  "map_speed Speed_Low = 1"
| "map_speed Speed_Full = 2"
| "map_speed Speed_High = 3"
| "map_speed Speed_Super = 5"
| "map_speed _ = 0"

section \<open>Enumeration\<close>

type_synonym 'a rusb = "rusb_error + 'a"

text \<open>The device descriptor as the getters of \<open>rusb::DeviceDescriptor\<close> return it.\<close>

record rusb_descriptor =
  desc_vendor_id :: u16
  desc_product_id :: u16
  desc_class_code :: u8
  desc_sub_class_code :: u8
  desc_protocol_code :: u8
  desc_version :: "u8 \<times> u8 \<times> u8" \<comment> \<open>major, minor, sub-minor\<close>
  desc_num_configurations :: u8

text \<open>
  One device of \<open>rusb\<close>: a configuration is the list of its interfaces, an interface the list
  of its alternate-setting descriptors; \<open>rd_open\<close> gives, for a device that can be opened, the
  languages and the two strings by language.
\<close>

record rusb_device =
  rd_descriptor :: "rusb_descriptor rusb"
  rd_bus_number :: u8
  rd_address :: u8
  rd_port_numbers :: "u8 list rusb"
  rd_speed :: rusb_speed
  rd_open :: "(u16 list rusb \<times> (u16 \<Rightarrow> string rusb) \<times> (u16 \<Rightarrow> string rusb)) rusb"
  rd_active_config :: "LocalUsbInterface list list rusb"
  rd_config_0 :: "LocalUsbInterface list list rusb"

definition ok_opt :: "'a rusb \<Rightarrow> 'a option" where
  "ok_opt r = (case r of Inl _ \<Rightarrow> None | Inr a \<Rightarrow> Some a)"

definition first_descriptors :: "LocalUsbInterface list list \<Rightarrow> LocalUsbInterface list" where
  "first_descriptors config = concat (map (take 1) config)"

definition device_strings :: "rusb_device \<Rightarrow> string option \<times> string option" where
  "device_strings d =
     (case rd_open d of
        Inl _ \<Rightarrow> (None, None)
      | Inr (langs, mfr, prd) \<Rightarrow>
          let lang = (case langs of Inr (l # _) \<Rightarrow> Some l | _ \<Rightarrow> None)
          in (case lang of None \<Rightarrow> None | Some l \<Rightarrow> ok_opt (mfr l),
              case lang of None \<Rightarrow> None | Some l \<Rightarrow> ok_opt (prd l)))"

definition device_interfaces :: "rusb_device \<Rightarrow> LocalUsbInterface list" where
  "device_interfaces d =
     (case rd_active_config d of
        Inr config \<Rightarrow> first_descriptors config
      | Inl _ \<Rightarrow> (case rd_config_0 d of Inr config \<Rightarrow> first_descriptors config | Inl _ \<Rightarrow> []))"

definition bcd_version :: "u8 \<times> u8 \<times> u8 \<Rightarrow> u16" where
  "bcd_version v =
     (case v of (major, minor, sub_minor) \<Rightarrow>
        push_bit 8 (ucast major) OR push_bit 4 (ucast minor) OR ucast sub_minor)"

definition local_device :: "rusb_device \<Rightarrow> LocalUsbDevice option" where
  "local_device d =
     (case rd_descriptor d of
        Inl _ \<Rightarrow> None
      | Inr desc \<Rightarrow>
          let ports = (case rd_port_numbers d of Inr ps \<Rightarrow> ps | Inl _ \<Rightarrow> []);
              strings = device_strings d
          in Some \<lparr>ld_bus_number = rd_bus_number d, ld_device_address = rd_address d,
                   ld_vendor_id = desc_vendor_id desc, ld_product_id = desc_product_id desc,
                   ld_manufacturer = fst strings, ld_product = snd strings,
                   ld_device_class = desc_class_code desc,
                   ld_device_subclass = desc_sub_class_code desc,
                   ld_device_protocol = desc_protocol_code desc,
                   ld_bcd_device = bcd_version (desc_version desc),
                   ld_bus_id = format_bus_id (rd_bus_number d) ports,
                   ld_speed = map_speed (rd_speed d),
                   ld_num_configurations = desc_num_configurations desc,
                   ld_interfaces = device_interfaces d, ld_port_numbers = ports\<rparr>)"

definition enumerate_devices ::
  "unit rusb \<Rightarrow> rusb_device list rusb \<Rightarrow> (LocalUsbDevice list, ServerError) result" where
  "enumerate_devices context_new devices =
     (case context_new of
        Inl e \<Rightarrow> Err (UsbContextInit e)
      | Inr _ \<Rightarrow>
          (case devices of
             Inl e \<Rightarrow> Err (Enumeration e)
           | Inr ds \<Rightarrow> Ok (List.map_filter local_device ds)))"

section \<open>Filter\<close>

record DeviceFilter =
  f_device_class :: "u8 option"
  f_vid_pid :: "(u16 \<times> u16) option"
  f_bus_id_pattern :: "string option"

text \<open>
  The matcher's \<open>while\<close> loop over the indices \<open>pi\<close> and \<open>ti\<close> and the last star seen; that it
  returns is part of its correctness. The final loop skips the stars at the end.
\<close>

partial_function (option) glob_loop ::
  "string list \<Rightarrow> string list \<Rightarrow> nat \<Rightarrow> nat \<Rightarrow> nat option \<Rightarrow> nat \<Rightarrow> bool option" where
  "glob_loop pattern txt pi ti star_pi star_ti =
     (if ti < length txt
      then if pi < length pattern \<and> (pattern ! pi = ''?'' \<or> pattern ! pi = txt ! ti)
           then glob_loop pattern txt (pi + 1) (ti + 1) star_pi star_ti
           else if pi < length pattern \<and> pattern ! pi = ''*''
           then glob_loop pattern txt (pi + 1) ti (Some pi) ti
           else case star_pi of
                  Some spi \<Rightarrow> glob_loop pattern txt (spi + 1) (star_ti + 1) star_pi (star_ti + 1)
                | None \<Rightarrow> Some False
      else Some (dropWhile (\<lambda>c. c = ''*'') (drop pi pattern) = []))"

declare glob_loop.simps [code]

definition glob_match_inner :: "string list \<Rightarrow> string list \<Rightarrow> bool option" where
  "glob_match_inner pattern txt = glob_loop pattern txt 0 0 None 0"

definition glob_match :: "string \<Rightarrow> string \<Rightarrow> bool option" where
  "glob_match pattern txt = glob_match_inner (str_chars pattern) (str_chars txt)"

text \<open>\<open>filter_devices\<close> keeps a device that no criterion rejects; the glob result is \<open>Some\<close>.\<close>

definition filter_keeps :: "DeviceFilter \<Rightarrow> LocalUsbDevice \<Rightarrow> bool" where
  "filter_keeps flt dev \<longleftrightarrow>
     (case f_device_class flt of
        None \<Rightarrow> True
      | Some c \<Rightarrow> ld_device_class dev = c \<or>
                   list_ex (\<lambda>i. li_interface_class i = c) (ld_interfaces dev)) \<and>
     (case f_vid_pid flt of
        None \<Rightarrow> True
      | Some (vid, pid) \<Rightarrow> ld_vendor_id dev = vid \<and> ld_product_id dev = pid) \<and>
     (case f_bus_id_pattern flt of
        None \<Rightarrow> True
      | Some pattern \<Rightarrow> glob_match pattern (ld_bus_id dev) = Some True)"

definition filter_devices :: "LocalUsbDevice list \<Rightarrow> DeviceFilter \<Rightarrow> LocalUsbDevice list" where
  "filter_devices devices flt = filter (filter_keeps flt) devices"

section \<open>The matcher is the glob language\<close>

text \<open>
  What a pattern means: a star matches any run of characters, a question mark any one
  character, any other character itself.
\<close>

fun glob :: "string list \<Rightarrow> string list \<Rightarrow> bool" where
  "glob [] u = (u = [])"
| "glob (c # p) u =
     (if c = ''*'' then list_ex (\<lambda>k. glob p (drop k u)) [0..<Suc (length u)]
      else case u of [] \<Rightarrow> False | x # xs \<Rightarrow> (c = ''?'' \<or> c = x) \<and> glob p xs)"

lemma glob_star: "glob (''*'' # p) u \<longleftrightarrow> (\<exists>k. glob p (drop k u))"
proof -
  have "drop k u = drop (min k (length u)) u" for k by (simp add: min_def)
  then have "(\<exists>k. glob p (drop k u)) \<longleftrightarrow> (\<exists>k \<le> length u. glob p (drop k u))"
    by (metis min.cobounded2)
  then show ?thesis by (auto simp: list_ex_iff less_Suc_eq_le simp del: upt_Suc)
qed

definition char_match :: "string \<Rightarrow> string \<Rightarrow> bool" where
  "char_match c x \<longleftrightarrow> c = ''?'' \<or> c = x"

text \<open>A star-free segment matches exactly as many characters as it has.\<close>

lemma glob_segment:
  "''*'' \<notin> set seg \<Longrightarrow>
     glob (seg @ p) u \<longleftrightarrow>
       length seg \<le> length u \<and> list_all2 char_match seg (take (length seg) u) \<and>
       glob p (drop (length seg) u)"
proof (induction seg arbitrary: u)
  case (Cons c seg)
  then show ?case by (cases u) (auto simp: char_match_def)
qed simp

lemma glob_empty: "glob p [] \<longleftrightarrow> dropWhile (\<lambda>c. c = ''*'') p = []"
  by (induction p) auto

text \<open>
  The state of the loop after a star at \<open>spi\<close>: the segment between the star and \<open>pi\<close> has no
  star and matches the text from \<open>sti\<close> to \<open>ti\<close>.
\<close>

definition glob_inv :: "string list \<Rightarrow> string list \<Rightarrow> nat \<Rightarrow> nat \<Rightarrow> nat \<Rightarrow> nat \<Rightarrow> string list \<Rightarrow> bool" where
  "glob_inv p t pi ti spi sti seg \<longleftrightarrow>
     drop (spi + 1) p = seg @ drop pi p \<and> ''*'' \<notin> set seg \<and> ti = sti + length seg \<and>
     ti \<le> length t \<and> list_all2 char_match seg (take (length seg) (drop sti t))"

lemma glob_inv_match:
  "glob_inv p t pi ti spi sti seg \<Longrightarrow>
     glob (drop (spi + 1) p) (drop sti t) \<longleftrightarrow> glob (drop pi p) (drop ti t)"
  by (auto simp: glob_inv_def glob_segment add.commute)

lemma glob_inv_later:
  assumes "glob_inv p t pi ti spi sti seg" "sti \<le> k" "glob (drop (spi + 1) p) (drop k t)"
  shows "glob (drop pi p) (drop (k + length seg) t)"
  using assms by (auto simp: glob_inv_def glob_segment add.commute)

lemma not_star_nth: "''*'' \<notin> set t \<Longrightarrow> i < length t \<Longrightarrow> t ! i \<noteq> ''*''"
  by (metis nth_mem)

definition glob_measure :: "string list \<Rightarrow> string list \<Rightarrow> nat \<Rightarrow> nat \<Rightarrow> nat" where
  "glob_measure p t sti pi = (length t - sti) * Suc (length p) + (length p - pi)"

lemma glob_measure_less:
  "sti \<le> ti \<Longrightarrow> pi < length p \<Longrightarrow> glob_measure p t ti (Suc pi) < glob_measure p t sti pi"
  "sti < length t \<Longrightarrow> glob_measure p t (Suc sti) q < glob_measure p t sti pi"
proof -
  assume "sti \<le> ti" "pi < length p"
  then have "(length t - ti) * Suc (length p) \<le> (length t - sti) * Suc (length p)"
    by (intro mult_le_mono1) simp
  moreover have "length p - Suc pi < length p - pi" using \<open>pi < length p\<close> by simp
  ultimately show "glob_measure p t ti (Suc pi) < glob_measure p t sti pi"
    unfolding glob_measure_def by linarith
next
  assume "sti < length t"
  then have "length t - sti = Suc (length t - Suc sti)" by simp
  then show "glob_measure p t (Suc sti) q < glob_measure p t sti pi"
    unfolding glob_measure_def by simp
qed

lemma glob_loop_star:
  assumes "''*'' \<notin> set t" "glob_inv p t pi ti spi sti seg"
  shows "glob_loop p t pi ti (Some spi) sti = Some (\<exists>k \<ge> sti. glob (drop (spi + 1) p) (drop k t))"
  using assms(2)
proof (induction "glob_measure p t sti pi" arbitrary: pi ti spi sti seg rule: less_induct)
  case less
  note inv = less.prems and IH = less.hyps
  have parts: "drop (Suc spi) p = seg @ drop pi p" "''*'' \<notin> set seg" "ti = sti + length seg"
    "ti \<le> length t" "list_all2 char_match seg (take (length seg) (drop sti t))"
    using inv by (simp_all add: glob_inv_def)
  show ?case
  proof (cases "ti < length t")
    case False
    then have ti: "ti = length t" using parts by simp
    have "glob (drop pi p) []" if "sti \<le> k" "glob (drop (spi + 1) p) (drop k t)" for k
      using glob_inv_later [OF inv that] ti parts(3) that(1) by simp
    moreover have "glob (drop pi p) [] \<Longrightarrow> glob (drop (spi + 1) p) (drop sti t)"
      using glob_inv_match [OF inv] ti by simp
    ultimately have "(\<exists>k \<ge> sti. glob (drop (spi + 1) p) (drop k t)) \<longleftrightarrow> glob (drop pi p) []" by blast
    then show ?thesis using False by (simp add: glob_loop.simps [of p t pi] glob_empty)
  next
    case True
    consider (A) "pi < length p" "char_match (p ! pi) (t ! ti)"
      | (B) "pi < length p" "p ! pi = ''*''" "\<not> char_match (p ! pi) (t ! ti)"
      | (C) "pi < length p \<Longrightarrow> p ! pi \<noteq> ''*'' \<and> \<not> char_match (p ! pi) (t ! ti)"
      by blast
    then show ?thesis
    proof cases
      case A
      then have ns: "p ! pi \<noteq> ''*''" using not_star_nth [OF assms(1) True] by (auto simp: char_match_def)
      have "take (Suc (length seg)) (drop sti t) = take (length seg) (drop sti t) @ [t ! ti]"
        using True parts(3) by (simp add: take_Suc_conv_app_nth)
      then have "glob_inv p t (Suc pi) (Suc ti) spi sti (seg @ [p ! pi])"
        using parts A ns True
        by (auto simp: glob_inv_def Cons_nth_drop_Suc list_all2_append)
      from IH [OF glob_measure_less(1) [OF order_refl A(1)] this] show ?thesis
        using A True by (simp add: glob_loop.simps [of p t pi] char_match_def)
    next
      case B
      have dp: "drop pi p = ''*'' # drop (Suc pi) p" using B by (metis Cons_nth_drop_Suc)
      have "glob_inv p t (Suc pi) ti pi ti []" using parts(4) by (simp add: glob_inv_def)
      from IH [OF glob_measure_less(1) [OF _ B(1)] this]
      have "glob_loop p t (Suc pi) ti (Some pi) ti = Some (\<exists>k \<ge> ti. glob (drop (Suc pi) p) (drop k t))"
        using parts(3) by simp
      moreover have "(\<exists>k \<ge> ti. glob (drop (Suc pi) p) (drop k t)) \<longleftrightarrow>
          (\<exists>k \<ge> sti. glob (drop (spi + 1) p) (drop k t))" (is "?L = ?R")
      proof
        assume ?L
        then obtain k where "ti \<le> k" "glob (drop (Suc pi) p) (drop (k - ti) (drop ti t))" by auto
        then have "glob (drop pi p) (drop ti t)" unfolding dp glob_star by blast
        then show ?R using glob_inv_match [OF inv] by blast
      next
        assume ?R
        then obtain k where k: "sti \<le> k" "glob (drop (spi + 1) p) (drop k t)" by blast
        from glob_inv_later [OF inv k] obtain j where
          "glob (drop (Suc pi) p) (drop j (drop (k + length seg) t))"
          unfolding dp glob_star by blast
        then show ?L using k(1) parts(3) by (intro exI [of _ "j + (k + length seg)"]) simp
      qed
      ultimately show ?thesis
        using B True by (simp add: glob_loop.simps [of p t pi] char_match_def)
    next
      case C
      have no: "\<not> glob (drop pi p) (drop ti t)"
      proof (cases "pi < length p")
        case True
        then have "drop pi p = p ! pi # drop (Suc pi) p" "drop ti t = t ! ti # drop (Suc ti) t"
          using \<open>ti < length t\<close> by (simp_all add: Cons_nth_drop_Suc)
        then show ?thesis using C True by (simp add: char_match_def)
      qed (use True in simp)
      have sti: "sti < length t" using True parts(3) by simp
      have "glob_inv p t (Suc spi) (Suc sti) spi (Suc sti) []" using sti by (simp add: glob_inv_def)
      from IH [OF glob_measure_less(2) [OF sti] this]
      have "glob_loop p t (Suc spi) (Suc sti) (Some spi) (Suc sti)
          = Some (\<exists>k \<ge> Suc sti. glob (drop (spi + 1) p) (drop k t))" by simp
      moreover have "(\<exists>k \<ge> sti. glob (drop (spi + 1) p) (drop k t)) \<longleftrightarrow>
          (\<exists>k \<ge> Suc sti. glob (drop (spi + 1) p) (drop k t))"
        using no glob_inv_match [OF inv] by (metis Suc_leD Suc_leI le_neq_implies_less)
      ultimately show ?thesis
        using C True by (auto simp: glob_loop.simps [of p t pi] char_match_def)
    qed
  qed
qed

lemma glob_loop_plain:
  assumes "''*'' \<notin> set t" "ti \<le> length t"
  shows "glob_loop p t pi ti None 0 = Some (glob (drop pi p) (drop ti t))"
  using assms(2)
proof (induction "length p - pi" arbitrary: pi ti)
  case 0
  then have "\<not> pi < length p" by simp
  then show ?case by (auto simp: glob_loop.simps [of p t pi])
next
  case (Suc n)
  then have pi: "pi < length p" and dp: "drop pi p = p ! pi # drop (Suc pi) p"
    by (auto simp: Cons_nth_drop_Suc)
  show ?case
  proof (cases "ti < length t")
    case False
    then have "drop ti t = []" by simp
    then show ?thesis using False by (simp add: glob_loop.simps [of p t pi] glob_empty)
  next
    case True
    then have dt: "drop ti t = t ! ti # drop (Suc ti) t" by (simp add: Cons_nth_drop_Suc)
    consider (A) "char_match (p ! pi) (t ! ti)" | (B) "p ! pi = ''*''" "\<not> char_match (p ! pi) (t ! ti)"
      | (C) "p ! pi \<noteq> ''*''" "\<not> char_match (p ! pi) (t ! ti)" by blast
    then show ?thesis
    proof cases
      case A
      then have "p ! pi \<noteq> ''*''" using not_star_nth [OF assms(1) True] by (auto simp: char_match_def)
      then show ?thesis using A True pi dp dt Suc.hyps(1) [of "Suc pi" "Suc ti"] Suc.hyps(2)
        by (simp add: glob_loop.simps [of p t pi] char_match_def)
    next
      case B
      have "glob_inv p t (Suc pi) ti pi ti []" using Suc.prems by (simp add: glob_inv_def)
      from glob_loop_star [OF assms(1) this]
      have "glob_loop p t (Suc pi) ti (Some pi) ti = Some (\<exists>k \<ge> ti. glob (drop (Suc pi) p) (drop k t))"
        by simp
      moreover have "(\<exists>k \<ge> ti. glob (drop (Suc pi) p) (drop k t)) \<longleftrightarrow> glob (drop pi p) (drop ti t)"
        unfolding dp B(1) glob_star by (auto intro: exI [of _ "_ + ti"] simp: le_iff_add)
          (metis add.commute le_add1)
      ultimately show ?thesis using B True pi
        by (simp add: glob_loop.simps [of p t pi] char_match_def)
    next
      case C
      then show ?thesis using True pi dp dt
        by (simp add: glob_loop.simps [of p t pi] char_match_def)
    qed
  qed
qed

section \<open>Wire descriptors of local devices\<close>

lemma length_path_from_str [simp]: "length (path_from_str s) = DEVICE_PATH_SIZE"
  by (simp add: path_from_str_def Let_def DEVICE_PATH_SIZE_def)

lemma to_protocol_device_Ok:
  "to_protocol_device d = Ok u \<Longrightarrow>
     UsbDevice_ok u \<and> busid u = as_bytes (ld_bus_id d) @ replicate (BUSID_SIZE - length (ld_bus_id d)) 0 \<and>
     length (interfaces u) = length (ld_interfaces d) \<and>
     num_interfaces u = word_of_nat (length (ld_interfaces d)) \<and>
     length (ld_bus_id d) < BUSID_SIZE \<and> list_all is_ascii (ld_bus_id d)"
  by (auto simp: to_protocol_device_def rbind_eq_Ok busid_from_str_Ok Let_def UsbDevice_ok_def)

lemma to_protocol_device_not_Panic: "to_protocol_device d \<noteq> Panic"
  by (auto simp: to_protocol_device_def rbind_eq_Panic busid_from_str_def Let_def)

text \<open>At most 255 interfaces, the number a device descriptor's byte can count.\<close>

lemma to_protocol_device_full:
  assumes "to_protocol_device d = Ok u" "length (ld_interfaces d) \<le> 255"
  shows "UsbDevice_full u"
proof -
  have "unat (word_of_nat (length (ld_interfaces d)) :: u8) = length (ld_interfaces d)"
    using assms(2) by (simp add: unsigned_of_nat take_bit_nat_eq_self)
  then show ?thesis using to_protocol_device_Ok [OF assms(1)] by (simp add: UsbDevice_full_def)
qed

section \<open>Properties\<close>

text \<open>The loop returns whatever the pattern and the text.\<close>

lemma glob_loop_returns:
  "sti \<le> ti \<Longrightarrow> ti \<le> length t \<Longrightarrow> \<exists>b. glob_loop p t pi ti star sti = Some b"
proof (induction "glob_measure p t sti pi" arbitrary: pi ti star sti rule: less_induct)
  case less
  consider (e) "\<not> ti < length t"
    | (A) "ti < length t" "pi < length p" "p ! pi = ''?'' \<or> p ! pi = t ! ti"
    | (B) "ti < length t" "pi < length p" "p ! pi = ''*''" "\<not> (p ! pi = ''?'' \<or> p ! pi = t ! ti)"
    | (C) "ti < length t" "\<not> (pi < length p \<and> (p ! pi = ''?'' \<or> p ! pi = t ! ti))"
      "\<not> (pi < length p \<and> p ! pi = ''*'')" by blast
  then show ?case
  proof cases
    case A
    then show ?thesis
      using less.hyps [OF glob_measure_less(1) [OF order_refl A(2)], of "Suc ti" star] less.prems
      by (simp add: glob_loop.simps [of p t pi])
  next
    case B
    then show ?thesis
      using less.hyps [OF glob_measure_less(1) [OF less.prems(1) B(2)], of ti "Some pi"] less.prems
      by (simp add: glob_loop.simps [of p t pi])
  next
    case C
    show ?thesis
    proof (cases star)
      case (Some spi)
      have sti: "sti < length t" using less.prems C(1) by simp
      have "\<exists>b. glob_loop p t (Suc spi) (Suc sti) (Some spi) (Suc sti) = Some b"
        by (rule less.hyps [OF glob_measure_less(2) [OF sti]]) (use sti in auto)
      then show ?thesis using C Some by (auto simp: glob_loop.simps [of p t pi])
    qed (use C in \<open>auto simp: glob_loop.simps [of p t pi]\<close>)
  qed (simp add: glob_loop.simps [of p t pi])
qed

text \<open>
  C9: \<open>glob_match\<close>, a loop with one backtracking point, returns for every pattern and text,
  and for a text without a literal star (every bus ID) it decides the glob language: a star
  for any run of characters, a question mark for any one character.
\<close>

theorem glob_match_correct:
  "(\<exists>b. glob_match pattern txt = Some b) \<and>
   (''*'' \<notin> set (str_chars txt) \<longrightarrow>
      glob_match pattern txt = Some (glob (str_chars pattern) (str_chars txt)))"
  using glob_loop_returns [of 0 0 "str_chars txt" "str_chars pattern" 0 None]
    glob_loop_plain [of "str_chars txt" 0 "str_chars pattern" 0]
  by (simp add: glob_match_def glob_match_inner_def)

theorem glob_match_correct_witness:
  "''*'' \<notin> set (str_chars ''1-4.2'') \<and>
   glob_match ''1-?.*'' ''1-4.2'' = Some (glob (str_chars ''1-?.*'') (str_chars ''1-4.2''))"
proof -
  have "''*'' \<notin> set (str_chars ''1-4.2'')" by code_simp
  with glob_match_correct [of "''1-?.*''" "''1-4.2''"] show ?thesis by blast
qed

text \<open>
  A text that does contain a star is treated differently: the loop compares characters before
  it looks for a wildcard, so the star of the pattern is taken as a literal there, and the
  pattern of a single star rejects it.
\<close>

lemma glob_match_literal_star:
  "glob_match ''*'' ''*a'' = Some False \<and> glob (str_chars ''*'') (str_chars ''*a'')"
  by code_simp

end
