(* ===== verification/Server_Transfer.thy ===== *)
theory Server_Transfer
  imports Server_Device
begin

text \<open>
  \<open>extender-server/src/handle.rs\<close>, \<open>transfer.rs\<close> and \<open>handle_submit\<close> of \<open>session.rs\<close>: opening
  a device and claiming its interfaces, executing control, bulk and interrupt transfers, and
  building the RET_SUBMIT for a CMD_SUBMIT. The methods of \<open>rusb::DeviceHandle\<close> are the fields
  of the record \<open>usb_ops\<close>, an argument of the definitions; \<open>usb_lawful\<close> states the documented
  behaviour they rely on: a transfer moves at most as many bytes as its buffer has.
\<close>

section \<open>Handles\<close>

type_synonym duration_ms = nat

text \<open>
  A read takes the length of the buffer it fills and returns the number of bytes read and the
  buffer afterwards.
\<close>

record usb_ops =
  write_control :: "u8 \<Rightarrow> u8 \<Rightarrow> u16 \<Rightarrow> u16 \<Rightarrow> bytes \<Rightarrow> duration_ms \<Rightarrow> usize rusb"
  read_control :: "u8 \<Rightarrow> u8 \<Rightarrow> u16 \<Rightarrow> u16 \<Rightarrow> usize \<Rightarrow> duration_ms \<Rightarrow> (usize \<times> bytes) rusb"
  write_bulk :: "u8 \<Rightarrow> bytes \<Rightarrow> duration_ms \<Rightarrow> usize rusb"
  read_bulk :: "u8 \<Rightarrow> usize \<Rightarrow> duration_ms \<Rightarrow> (usize \<times> bytes) rusb"
  write_interrupt :: "u8 \<Rightarrow> bytes \<Rightarrow> duration_ms \<Rightarrow> usize rusb"
  read_interrupt :: "u8 \<Rightarrow> usize \<Rightarrow> duration_ms \<Rightarrow> (usize \<times> bytes) rusb"
  claim_interface :: "u8 \<Rightarrow> unit rusb"

definition usb_lawful :: "usb_ops \<Rightarrow> bool" where
  "usb_lawful h \<longleftrightarrow>
     (\<forall>a b v i d t n. write_control h a b v i d t = Inr n \<longrightarrow> n \<le> length d) \<and>
     (\<forall>a b v i m t n buf. read_control h a b v i m t = Inr (n, buf) \<longrightarrow> n \<le> m \<and> length buf = m) \<and>
     (\<forall>e d t n. write_bulk h e d t = Inr n \<longrightarrow> n \<le> length d) \<and>
     (\<forall>e m t n buf. read_bulk h e m t = Inr (n, buf) \<longrightarrow> n \<le> m \<and> length buf = m) \<and>
     (\<forall>e d t n. write_interrupt h e d t = Inr n \<longrightarrow> n \<le> length d) \<and>
     (\<forall>e m t n buf. read_interrupt h e m t = Inr (n, buf) \<longrightarrow> n \<le> m \<and> length buf = m)"

record ManagedDevice =
  md_handle :: usb_ops
  md_claimed_interfaces :: "u8 list"
  md_bus_id :: string

text \<open>A device on the bus as \<open>ManagedDevice::open\<close> sees it: bus number, address, and \<open>open\<close>.\<close>

record bus_device =
  bd_bus_number :: u8
  bd_address :: u8
  bd_open :: "usb_ops rusb"

fun claim_all :: "usb_ops \<Rightarrow> string \<Rightarrow> u8 list \<Rightarrow> u8 list \<Rightarrow> (u8 list, ServerError) result" where
  "claim_all handle bus_id claimed [] = Ok claimed"
| "claim_all handle bus_id claimed (i # is) =
     (case claim_interface handle i of
        Inl Rusb_Busy \<Rightarrow> Err (DeviceInUse bus_id)
      | Inl other \<Rightarrow> Err (ClaimInterface bus_id i other)
      | Inr _ \<Rightarrow> claim_all handle bus_id (claimed @ [i]) is)"

definition ManagedDevice_open ::
  "unit rusb \<Rightarrow> bus_device list rusb \<Rightarrow> LocalUsbDevice list \<Rightarrow> string
     \<Rightarrow> (ManagedDevice, ServerError) result" where
  "ManagedDevice_open context_new usb_devices devices bus_id =
     rbind (ok_or (find (\<lambda>d. ld_bus_id d = bus_id) devices) (DeviceNotFound bus_id)) (\<lambda>loc.
     case context_new of
       Inl e \<Rightarrow> Err (UsbContextInit e)
     | Inr _ \<Rightarrow>
         (case usb_devices of
            Inl e \<Rightarrow> Err (Enumeration e)
          | Inr ds \<Rightarrow>
              rbind (ok_or (find (\<lambda>d. bd_bus_number d = ld_bus_number loc \<and>
                                       bd_address d = ld_device_address loc) ds)
                       (DeviceNotFound bus_id)) (\<lambda>dev.
              case bd_open dev of
                Inl Rusb_Access \<Rightarrow> Err (DeviceInUse bus_id)
              | Inl Rusb_Busy \<Rightarrow> Err (DeviceInUse bus_id)
              | Inl other \<Rightarrow> Err (OpenDevice bus_id other)
              | Inr handle \<Rightarrow>
                  rbind (claim_all handle bus_id [] (map li_interface_number (ld_interfaces loc)))
                    (\<lambda>claimed. Ok \<lparr>md_handle = handle, md_claimed_interfaces = claimed,
                                   md_bus_id = bus_id\<rparr>))))"

section \<open>Transfers\<close>

record TransferResult =
  tr_status :: i32
  tr_actual_length :: u32
  tr_data :: bytes

datatype ControlDirection = Out | In

definition control_direction :: "u8 \<Rightarrow> ControlDirection" where
  "control_direction bm_request_type = (if bm_request_type AND 0x80 \<noteq> 0 then In else Out)"

definition write_result :: "usize rusb \<Rightarrow> TransferResult" where
  "write_result r =
     (case r of
        Inr len \<Rightarrow> \<lparr>tr_status = 0, tr_actual_length = word_of_nat len, tr_data = []\<rparr>
      | Inl e \<Rightarrow> \<lparr>tr_status = rusb_error_to_errno e, tr_actual_length = 0, tr_data = []\<rparr>)"

definition read_result :: "(usize \<times> bytes) rusb \<Rightarrow> TransferResult" where
  "read_result r =
     (case r of
        Inr (len, buf) \<Rightarrow>
          \<lparr>tr_status = 0, tr_actual_length = word_of_nat len, tr_data = take len buf\<rparr>
      | Inl e \<Rightarrow> \<lparr>tr_status = rusb_error_to_errno e, tr_actual_length = 0, tr_data = []\<rparr>)"

definition execute_control_transfer ::
  "usb_ops \<Rightarrow> bytes \<Rightarrow> bytes \<Rightarrow> duration_ms \<Rightarrow> TransferResult" where
  "execute_control_transfer handle setup data timeout =
     (let bm_request_type = byte_at setup 0; b_request = byte_at setup 1;
          w_value = u16_from_le_bytes (byte_at setup 2) (byte_at setup 3);
          w_index = u16_from_le_bytes (byte_at setup 4) (byte_at setup 5);
          w_length = u16_from_le_bytes (byte_at setup 6) (byte_at setup 7) in
      case control_direction bm_request_type of
        Out \<Rightarrow>
          write_result (write_control handle bm_request_type b_request w_value w_index data timeout)
      | In \<Rightarrow>
          read_result (read_control handle bm_request_type b_request w_value w_index
                         (unat w_length) timeout))"

definition execute_bulk_transfer ::
  "usb_ops \<Rightarrow> u8 \<Rightarrow> bytes \<Rightarrow> usize \<Rightarrow> duration_ms \<Rightarrow> TransferResult" where
  "execute_bulk_transfer handle endpoint data buffer_length timeout =
     (if endpoint AND 0x80 \<noteq> 0
      then read_result (read_bulk handle endpoint buffer_length timeout)
      else write_result (write_bulk handle endpoint data timeout))"

definition execute_interrupt_transfer ::
  "usb_ops \<Rightarrow> u8 \<Rightarrow> bytes \<Rightarrow> usize \<Rightarrow> duration_ms \<Rightarrow> TransferResult" where
  "execute_interrupt_transfer handle endpoint data buffer_length timeout =
     (if endpoint AND 0x80 \<noteq> 0
      then read_result (read_interrupt handle endpoint buffer_length timeout)
      else write_result (write_interrupt handle endpoint data timeout))"

section \<open>CMD\_SUBMIT\<close>

definition TRANSFER_TIMEOUT :: duration_ms where
  "TRANSFER_TIMEOUT = 5000"

text \<open>\<open>joined\<close> is false when the blocking task panicked, which \<open>unwrap_or_else\<close> maps to -EIO.\<close>

definition blocking_result :: "bool \<Rightarrow> TransferResult \<Rightarrow> TransferResult" where
  "blocking_result joined r =
     (if joined then r else \<lparr>tr_status = - 5, tr_actual_length = 0, tr_data = []\<rparr>)"

definition submit_transfer :: "usb_ops \<Rightarrow> CmdSubmit \<Rightarrow> TransferResult" where
  "submit_transfer handle cmd =
     (let ep = hdr_ep (cs_header cmd); direction = hdr_direction (cs_header cmd) in
      if ep = 0
      then execute_control_transfer handle (cs_setup cmd) (cs_transfer_buffer cmd) TRANSFER_TIMEOUT
      else execute_bulk_transfer handle
             (if direction = 1 then ucast ep OR 0x80 else ucast ep)
             (cs_transfer_buffer cmd) (unat (cs_transfer_buffer_length cmd)) TRANSFER_TIMEOUT)"

definition handle_submit :: "usb_ops \<Rightarrow> bool \<Rightarrow> CmdSubmit \<Rightarrow> UrbMessage" where
  "handle_submit handle joined cmd =
     (let result = blocking_result joined (submit_transfer handle cmd);
          direction = hdr_direction (cs_header cmd) in
      RetSubmit
        \<lparr>rs_header = \<lparr>hdr_command = Command_as_u32 RetSubmit_Code,
                       hdr_seqnum = hdr_seqnum (cs_header cmd),
                       hdr_devid = hdr_devid (cs_header cmd),
                       hdr_direction = direction, hdr_ep = hdr_ep (cs_header cmd)\<rparr>,
         rs_status = tr_status result, rs_actual_length = tr_actual_length result,
         rs_start_frame = 0, rs_number_of_packets = 0xFFFFFFFF, rs_error_count = 0,
         rs_transfer_buffer = (if direction = 1 \<and> tr_data result \<noteq> [] then tr_data result else []),
         rs_iso_packet_descriptors = []\<rparr>)"

section \<open>Transfers stay within their buffers\<close>

text \<open>
  A result that moved at most \<open>m\<close> bytes; when it carries data, the data is as long as it says.
\<close>

definition result_within :: "nat \<Rightarrow> TransferResult \<Rightarrow> bool" where
  "result_within m r \<longleftrightarrow>
     unat (tr_actual_length r) \<le> m \<and>
     (tr_data r = [] \<or> length (tr_data r) = unat (tr_actual_length r))"

lemma unat_of_nat_le: "n \<le> m \<Longrightarrow> m < 2 ^ 32 \<Longrightarrow> unat (word_of_nat n :: u32) = n"
  by (simp add: unsigned_of_nat take_bit_nat_eq_self)

lemma write_result_within:
  "(\<And>n. r = Inr n \<Longrightarrow> n \<le> m) \<Longrightarrow> m < 2 ^ 32 \<Longrightarrow> result_within m (write_result r)"
  by (cases r) (auto simp: result_within_def write_result_def unat_of_nat_le)

lemma read_result_within:
  "(\<And>n buf. r = Inr (n, buf) \<Longrightarrow> n \<le> m \<and> length buf = m) \<Longrightarrow> m < 2 ^ 32 \<Longrightarrow>
     result_within m (read_result r)"
  by (cases r) (auto simp: result_within_def read_result_def unat_of_nat_le)

text \<open>What the data of a transfer result is for an IN endpoint: exactly the bytes it counts.\<close>

lemma read_result_data:
  "(\<And>n buf. r = Inr (n, buf) \<Longrightarrow> n \<le> m \<and> length buf = m) \<Longrightarrow> m < 2 ^ 32 \<Longrightarrow>
     length (tr_data (read_result r)) = unat (tr_actual_length (read_result r))"
  by (cases r) (auto simp: read_result_def unat_of_nat_le)

lemma ucast_or_0x80: "(x OR 0x80 :: u8) AND 0x80 \<noteq> 0"
proof -
  have "(x OR 0x80) AND 0x80 = (0x80 :: u8)" by (rule bit_word_eqI) (auto simp: bit_simps)
  then show ?thesis by simp
qed

lemma claim_all_Ok: "claim_all h b cl is = Ok r \<longleftrightarrow> (\<forall>i \<in> set is. claim_interface h i = Inr ()) \<and> r = cl @ is"
proof (induction "is" arbitrary: cl)
  case (Cons i "is")
  show ?case
  proof (cases "claim_interface h i")
    case (Inl e)
    then show ?thesis by (cases e) auto
  qed (use Cons in auto)
qed auto

lemma submit_transfer_ret_ok:
  assumes "usb_lawful h" "CmdSubmit_ok cmd"
  defines "r \<equiv> submit_transfer h cmd"
  shows "unat (tr_actual_length r) \<le> 1048576 \<and>
    (hdr_direction (cs_header cmd) = 1 \<longrightarrow> length (tr_data r) = unat (tr_actual_length r))"
proof -
  let ?dir = "hdr_direction (cs_header cmd)" and ?ep = "hdr_ep (cs_header cmd)"
  have len: "unat (cs_transfer_buffer_length cmd) \<le> 1048576" "length (cs_transfer_buffer cmd) \<le> 1048576"
    and inbuf: "?dir = 1 \<Longrightarrow> cs_transfer_buffer cmd = []"
    using assms(2) by (auto simp: CmdSubmit_ok_def MAX_TRANSFER_BUFFER_LENGTH_def word_le_nat_alt
      split: if_splits)
  have "unat (w :: u16) < 65536" for w using unsigned_less [of w] by simp
  then have w16: "unat (w :: u16) \<le> 1048576" "unat (w :: u16) < 2 ^ 32" for w
    by (simp_all add: less_imp_le order_less_trans [of "unat w" 65536] less_le_trans [of "unat w" 65536])
  have wr: "unat (tr_actual_length (write_result x)) \<le> length (cs_transfer_buffer cmd) \<and>
      tr_data (write_result x) = []" if "\<And>n. x = Inr n \<Longrightarrow> n \<le> length (cs_transfer_buffer cmd)" for x
    using write_result_within [OF that] len(2)
    by (auto simp: result_within_def write_result_def split: sum.splits)
  show ?thesis
  proof (cases "?ep = 0")
    case True
    let ?wl = "unat (u16_from_le_bytes (byte_at (cs_setup cmd) 6) (byte_at (cs_setup cmd) 7))"
    show ?thesis
    proof (cases "control_direction (byte_at (cs_setup cmd) 0)")
      case Out
      then obtain x where r: "r = write_result x" and "\<And>n. x = Inr n \<Longrightarrow> n \<le> length (cs_transfer_buffer cmd)"
        using True assms(1)
        by (auto simp: r_def submit_transfer_def execute_control_transfer_def Let_def usb_lawful_def)
      then show ?thesis using wr [of x] len(2) inbuf by (auto simp: word_of_nat_eq_0_iff)
    next
      case In
      then obtain x where r: "r = read_result x"
        and x: "\<And>n buf. x = Inr (n, buf) \<Longrightarrow> n \<le> ?wl \<and> length buf = ?wl"
        using True assms(1)
        by (auto simp: r_def submit_transfer_def execute_control_transfer_def Let_def usb_lawful_def)
      have "unat (tr_actual_length (read_result x)) \<le> ?wl"
        using read_result_within [of x, OF x w16(2)] by (auto simp: result_within_def)
      then show ?thesis
        using r read_result_data [of x, OF x w16(2)] order_trans [OF _ w16(1)] by auto
    qed
  next
    case ep: False
    let ?e = "(if ?dir = 1 then ucast ?ep OR 0x80 else ucast ?ep) :: u8"
    let ?n = "unat (cs_transfer_buffer_length cmd)"
    show ?thesis
    proof (cases "?e AND 0x80 = 0")
      case True
      then have "?dir \<noteq> 1" using ucast_or_0x80 by auto
      from True ep assms(1) obtain x where "r = write_result x"
        "\<And>n. x = Inr n \<Longrightarrow> n \<le> length (cs_transfer_buffer cmd)"
        by (auto simp: r_def submit_transfer_def execute_bulk_transfer_def Let_def usb_lawful_def)
      then show ?thesis using wr [of x] len(2) \<open>?dir \<noteq> 1\<close> by auto
    next
      case False
      with ep assms(1) obtain x where r: "r = read_result x"
        and x: "\<And>n buf. x = Inr (n, buf) \<Longrightarrow> n \<le> ?n \<and> length buf = ?n"
        by (auto simp: r_def submit_transfer_def execute_bulk_transfer_def Let_def usb_lawful_def)
      have "unat (tr_actual_length (read_result x)) \<le> ?n"
        using read_result_within [of x, OF x] len(1) by (auto simp: result_within_def)
      then show ?thesis
        using r read_result_data [of x, OF x] order_trans [OF _ len(1)] len(1) by auto
    qed
  qed
qed

lemma handle_submit_RetSubmit:
  "\<exists>r. handle_submit h j cmd = RetSubmit r \<and>
     hdr_seqnum (rs_header r) = hdr_seqnum (cs_header cmd) \<and>
     hdr_devid (rs_header r) = hdr_devid (cs_header cmd) \<and>
     hdr_direction (rs_header r) = hdr_direction (cs_header cmd) \<and>
     hdr_ep (rs_header r) = hdr_ep (cs_header cmd)"
  by (simp add: handle_submit_def Let_def)

lemma handle_submit_ok:
  assumes "usb_lawful h" "CmdSubmit_ok cmd"
  shows "UrbMessage_ok (handle_submit h j cmd)"
  using submit_transfer_ret_ok [OF assms]
  by (auto simp: handle_submit_def Let_def RetSubmit_ok_def blocking_result_def iso_packets_ok_def
    is_iso_transfer_def NON_ISO_PACKETS_SENTINEL_def MAX_TRANSFER_BUFFER_LENGTH_def word_le_nat_alt)

section \<open>Properties\<close>

text \<open>
  C10: For every CMD_SUBMIT the protocol layer accepts, on any endpoint and with any setup
  packet, the reply \<open>handle_submit\<close> builds is well-formed: its length field agrees with its
  payload and stays below the 1 MB limit, so the client's reader stays in step with the
  stream. The reply carries the sequence number, device id, direction and endpoint of the
  command. (The USB backend is any one that moves at most as many bytes as its buffer has.)
\<close>

theorem submit_reply_well_formed:
  assumes "usb_lawful handle" and "CmdSubmit_ok cmd"
  shows "\<exists>r. handle_submit handle joined cmd = RetSubmit r \<and> RetSubmit_ok r \<and>
           hdr_seqnum (rs_header r) = hdr_seqnum (cs_header cmd) \<and>
           hdr_devid (rs_header r) = hdr_devid (cs_header cmd) \<and>
           hdr_direction (rs_header r) = hdr_direction (cs_header cmd) \<and>
           hdr_ep (rs_header r) = hdr_ep (cs_header cmd)"
  using handle_submit_ok [OF assms, of joined] handle_submit_RetSubmit [of handle joined cmd] by auto

text \<open>A backend that stores nothing and returns zeros, for the witnesses.\<close>

definition zero_usb :: usb_ops where
  "zero_usb =
     \<lparr>write_control = \<lambda>_ _ _ _ d _. Inr (length d),
      read_control = \<lambda>_ _ _ _ n _. Inr (n, replicate n 0),
      write_bulk = \<lambda>_ d _. Inr (length d), read_bulk = \<lambda>_ n _. Inr (n, replicate n 0),
      write_interrupt = \<lambda>_ d _. Inr (length d), read_interrupt = \<lambda>_ n _. Inr (n, replicate n 0),
      claim_interface = \<lambda>_. Inr ()\<rparr>"

lemma zero_usb_lawful: "usb_lawful zero_usb"
  by (simp add: usb_lawful_def zero_usb_def)

theorem submit_reply_well_formed_witness:
  "\<exists>r. handle_submit zero_usb True sample_submit = RetSubmit r \<and> RetSubmit_ok r \<and>
       hdr_seqnum (rs_header r) = 7 \<and> tr_actual_length (submit_transfer zero_usb sample_submit) = 3"
proof -
  have "tr_actual_length (submit_transfer zero_usb sample_submit) = 3" by code_simp
  then show ?thesis
    using submit_reply_well_formed [OF zero_usb_lawful, of sample_submit True] sample_ok(1)
    by (auto simp: sample_submit_def sample_header_def)
qed

text \<open>
  What libusb answers to the transfer that a command describes, with the bytes that it received:
  on endpoint 0 the control request of the setup packet, in the direction of its first byte,
  elsewhere a bulk transfer in the direction of the endpoint address.
\<close>

definition backend_answer :: "usb_ops \<Rightarrow> CmdSubmit \<Rightarrow> (usize \<times> bytes) rusb" where
  "backend_answer handle cmd =
     (let setup = cs_setup cmd; data = cs_transfer_buffer cmd;
          endpoint = (ucast (hdr_ep (cs_header cmd)) :: u8);
          value = u16_le_at setup 2; index = u16_le_at setup 4; len = unat (u16_le_at setup 6);
          wrote = map_sum id (\<lambda>n. (n, [])) in
      if hdr_ep (cs_header cmd) = 0
      then if bit (byte_at setup 0) 7
           then read_control handle (byte_at setup 0) (byte_at setup 1) value index len 5000
           else wrote (write_control handle (byte_at setup 0) (byte_at setup 1) value index data 5000)
      else if hdr_direction (cs_header cmd) = 1
      then read_bulk handle (endpoint OR 0x80) (unat (cs_transfer_buffer_length cmd)) 5000
      else if bit endpoint 7 then read_bulk handle endpoint (unat (cs_transfer_buffer_length cmd)) 5000
      else wrote (write_bulk handle endpoint data 5000))"

lemma and_0x80: "(x :: u8) AND 0x80 \<noteq> 0 \<longleftrightarrow> bit x 7"
  using and_exp_eq_0_iff_not_bit [of x 7] by simp

lemma write_result_eq: "write_result r = read_result (map_sum id (\<lambda>n. (n, [])) r)"
  by (cases r) (simp_all add: write_result_def read_result_def)

lemma submit_transfer_answer: "submit_transfer handle cmd = read_result (backend_answer handle cmd)"
  by (simp add: submit_transfer_def backend_answer_def execute_control_transfer_def execute_bulk_transfer_def
    control_direction_def and_0x80 write_result_eq u16_le_at_def TRANSFER_TIMEOUT_def Let_def bit_or_iff bit_simps)

text \<open>
  C11: What the device answers is what the client is told. The reply to a submitted URB has status 0
  exactly when the backend reports a transfer, and then counts the bytes that it reports and carries
  the bytes received when the URB is an IN transfer (and none otherwise). When the backend reports an
  error the status is the Linux error number for it, which is negative, and the reply counts and carries
  nothing; a transfer task that panicked is told as an I/O error. The backend is asked for the transfer
  that the command describes: \<open>backend_answer\<close>.
\<close>

theorem submit_status:
  "\<exists>r. handle_submit handle joined cmd = RetSubmit r \<and>
     (case if joined then backend_answer handle cmd else Inl Rusb_Io of
        Inl e \<Rightarrow> rs_status r = rusb_error_to_errno e \<and> sint (rs_status r) < 0 \<and>
                rs_actual_length r = 0 \<and> rs_transfer_buffer r = []
      | Inr (n, data) \<Rightarrow> rs_status r = 0 \<and> rs_actual_length r = word_of_nat n \<and>
                rs_transfer_buffer r = (if hdr_direction (cs_header cmd) = 1 then take n data else []))"
proof -
  have "sint (rusb_error_to_errno e) < 0" for e by (cases e) simp_all
  then show ?thesis
    by (auto simp: handle_submit_def blocking_result_def submit_transfer_answer read_result_def Let_def
      split: sum.split)
qed
end
