(* ===== verification/Server_Export.thy ===== *)
theory Server_Export
  imports Server_Transfer
begin

text \<open>
  \<open>extender-server/src/export.rs\<close>: the registry of exported devices. The map behind the lock
  is a partial map from bus IDs; every operation that takes the write lock is one atomic
  definition that returns its result and the new registry. The current time is an argument
  (milliseconds). The clean-up tasks \<open>release\<close> spawns are the field \<open>reg_timers\<close>: the bus ID and session
  each will expire, and when it wakes up, once it runs. A spawned task starts to sleep when it is
  first polled, which may be any time after the deadline was computed. Time is a natural number;
  that \<open>Instant\<close> cannot represent deadlines some 292 billion years ahead, for which the addition in
  \<open>release\<close> panics, is left out.
\<close>

section \<open>State\<close>

type_synonym SessionId = u64
type_synonym instant = nat

definition DEFAULT_SESSION_TIMEOUT_SECS :: nat where
  "DEFAULT_SESSION_TIMEOUT_SECS = 30"

datatype SessionState =
    Active SessionId
  | Disconnected SessionId string instant

record ExportedDevice =
  ex_device :: LocalUsbDevice
  ex_handle :: ManagedDevice
  ex_active_session :: "SessionId option"
  ex_session_state :: "SessionState option"

record ExportRegistry =
  reg_devices :: "string \<rightharpoonup> ExportedDevice"
  reg_next_session_id :: u64
  reg_session_timeout :: duration_ms
  reg_timers :: "(instant option \<times> string \<times> SessionId) list"

definition with_session_timeout :: "nat \<Rightarrow> ExportRegistry" where
  "with_session_timeout timeout_secs =
     \<lparr>reg_devices = Map.empty, reg_next_session_id = 1,
      reg_session_timeout = 1000 * timeout_secs, reg_timers = []\<rparr>"

definition new_registry :: ExportRegistry where
  "new_registry = with_session_timeout DEFAULT_SESSION_TIMEOUT_SECS"

section \<open>Operations\<close>

definition bind_device_with ::
  "ExportRegistry \<Rightarrow> string \<Rightarrow> LocalUsbDevice \<Rightarrow> ManagedDevice
     \<Rightarrow> (unit, ServerError) result \<times> ExportRegistry" where
  "bind_device_with reg bus_id device handle =
     (if bus_id \<in> dom (reg_devices reg) then (Err (DeviceAlreadyBound bus_id), reg)
      else (Ok (), reg\<lparr>reg_devices := (reg_devices reg)(bus_id \<mapsto>
              \<lparr>ex_device = device, ex_handle = handle, ex_active_session = None,
               ex_session_state = None\<rparr>)\<rparr>))"

text \<open>
  \<open>bind_device\<close> reads the map once, opens the device without the lock, then inserts under the
  write lock with a second check. \<open>open_for_bind\<close> is the part before the write lock.
\<close>

definition open_for_bind ::
  "ExportRegistry \<Rightarrow> (LocalUsbDevice list, ServerError) result
     \<Rightarrow> (LocalUsbDevice list \<Rightarrow> string \<Rightarrow> (ManagedDevice, ServerError) result) \<Rightarrow> string
     \<Rightarrow> (LocalUsbDevice \<times> ManagedDevice, ServerError) result" where
  "open_for_bind reg enumerated open_dev bus_id =
     (if bus_id \<in> dom (reg_devices reg) then Err (DeviceAlreadyBound bus_id)
      else rbind enumerated (\<lambda>local_devices.
           rbind (ok_or (find (\<lambda>d. ld_bus_id d = bus_id) local_devices) (DeviceNotFound bus_id))
             (\<lambda>loc. rbind (open_dev local_devices bus_id) (\<lambda>handle. Ok (loc, handle)))))"

definition bind_device ::
  "ExportRegistry \<Rightarrow> (LocalUsbDevice list, ServerError) result
     \<Rightarrow> (LocalUsbDevice list \<Rightarrow> string \<Rightarrow> (ManagedDevice, ServerError) result) \<Rightarrow> string
     \<Rightarrow> (unit, ServerError) result \<times> ExportRegistry" where
  "bind_device reg enumerated open_dev bus_id =
     (case open_for_bind reg enumerated open_dev bus_id of
        Ok (loc, handle) \<Rightarrow> bind_device_with reg bus_id loc handle
      | Err e \<Rightarrow> (Err e, reg)
      | Panic \<Rightarrow> (Panic, reg))"

definition unbind_device ::
  "ExportRegistry \<Rightarrow> string \<Rightarrow> (SessionId option, ServerError) result \<times> ExportRegistry" where
  "unbind_device reg bus_id =
     (case reg_devices reg bus_id of
        None \<Rightarrow> (Err (DeviceNotBound bus_id), reg)
      | Some exported \<Rightarrow>
          (Ok (ex_active_session exported),
           reg\<lparr>reg_devices := (reg_devices reg)(bus_id := None)\<rparr>))"

text \<open>\<open>order\<close> is the order in which the hash map yields its keys.\<close>

definition list_devices :: "string list \<Rightarrow> ExportRegistry \<Rightarrow> (UsbDevice list, ServerError) result" where
  "list_devices order reg =
     rmap (\<lambda>exported. to_protocol_device (ex_device exported))
       (map (\<lambda>k. the (reg_devices reg k)) order)"

definition set_session :: "SessionId \<Rightarrow> ExportedDevice \<Rightarrow> ExportedDevice" where
  "set_session session_id exported =
     exported\<lparr>ex_active_session := Some session_id, ex_session_state := Some (Active session_id)\<rparr>"

definition clear_session :: "ExportedDevice \<Rightarrow> ExportedDevice" where
  "clear_session exported = exported\<lparr>ex_active_session := None, ex_session_state := None\<rparr>"

text \<open>
  Marking the device as held by a fresh session, then converting its descriptor; an error of
  the conversion is returned with the device already marked, as in the code.
\<close>

definition acquire_entry ::
  "ExportRegistry \<Rightarrow> string \<Rightarrow> ExportedDevice \<Rightarrow> bool
     \<Rightarrow> (ManagedDevice \<times> UsbDevice \<times> SessionId \<times> bool, ServerError) result \<times> ExportRegistry" where
  "acquire_entry reg bus_id exported is_reconnect =
     (let session_id = reg_next_session_id reg;
          reg' = reg\<lparr>reg_devices := (reg_devices reg)(bus_id \<mapsto> set_session session_id exported),
                     reg_next_session_id := session_id + 1\<rparr>
      in (rbind (to_protocol_device (ex_device exported)) (\<lambda>proto_device.
            Ok (ex_handle exported, proto_device, session_id, is_reconnect)), reg'))"

definition try_acquire_ext ::
  "instant \<Rightarrow> ExportRegistry \<Rightarrow> string
     \<Rightarrow> (ManagedDevice \<times> UsbDevice \<times> SessionId \<times> bool, ServerError) result \<times> ExportRegistry" where
  "try_acquire_ext now reg bus_id =
     (case reg_devices reg bus_id of
        None \<Rightarrow> (Err (DeviceNotBound bus_id), reg)
      | Some exported \<Rightarrow>
          (case ex_session_state exported of
             Some (Disconnected _ disconnected_bus_id deadline) \<Rightarrow>
               if disconnected_bus_id = bus_id \<and> now < deadline
               then acquire_entry reg bus_id exported True
               else acquire_entry reg bus_id (clear_session exported) False
           | _ \<Rightarrow>
               if ex_active_session exported \<noteq> None then (Err (DeviceInUse bus_id), reg)
               else acquire_entry reg bus_id exported False))"

definition try_acquire ::
  "instant \<Rightarrow> ExportRegistry \<Rightarrow> string
     \<Rightarrow> (ManagedDevice \<times> UsbDevice \<times> SessionId, ServerError) result \<times> ExportRegistry" where
  "try_acquire now reg bus_id =
     (case try_acquire_ext now reg bus_id of
        (r, reg') \<Rightarrow>
          (rbind r (\<lambda>(handle, proto_device, session_id, _). Ok (handle, proto_device, session_id)),
           reg'))"

definition release :: "instant \<Rightarrow> ExportRegistry \<Rightarrow> string \<Rightarrow> SessionId \<Rightarrow> ExportRegistry" where
  "release now reg bus_id session_id =
     (case reg_devices reg bus_id of
        None \<Rightarrow> reg
      | Some exported \<Rightarrow>
          if ex_active_session exported = Some session_id
          then if reg_session_timeout reg = 0
               then reg\<lparr>reg_devices := (reg_devices reg)(bus_id \<mapsto> clear_session exported)\<rparr>
               else let deadline = now + reg_session_timeout reg in
                    reg\<lparr>reg_devices := (reg_devices reg)(bus_id \<mapsto>
                           exported\<lparr>ex_session_state :=
                             Some (Disconnected session_id bus_id deadline)\<rparr>),
                        reg_timers := (None, bus_id, session_id) # reg_timers reg\<rparr>
          else reg)"

definition release_immediate :: "ExportRegistry \<Rightarrow> string \<Rightarrow> SessionId \<Rightarrow> ExportRegistry" where
  "release_immediate reg bus_id session_id =
     (case reg_devices reg bus_id of
        None \<Rightarrow> reg
      | Some exported \<Rightarrow>
          if ex_active_session exported = Some session_id
          then reg\<lparr>reg_devices := (reg_devices reg)(bus_id \<mapsto> clear_session exported)\<rparr>
          else reg)"

definition expire_disconnected_session :: "ExportRegistry \<Rightarrow> string \<Rightarrow> SessionId \<Rightarrow> ExportRegistry" where
  "expire_disconnected_session reg bus_id session_id =
     (case reg_devices reg bus_id of
        None \<Rightarrow> reg
      | Some exported \<Rightarrow>
          (case ex_session_state exported of
             Some (Disconnected sid _ _) \<Rightarrow>
               if sid = session_id
               then reg\<lparr>reg_devices := (reg_devices reg)(bus_id \<mapsto> clear_session exported)\<rparr>
               else reg
           | _ \<Rightarrow> reg))"

definition has_disconnected_session :: "instant \<Rightarrow> ExportRegistry \<Rightarrow> string \<Rightarrow> bool" where
  "has_disconnected_session now reg bus_id =
     (case reg_devices reg bus_id of
        Some exported \<Rightarrow>
          (case ex_session_state exported of
             Some (Disconnected _ dbus deadline) \<Rightarrow> dbus = bus_id \<and> now < deadline
           | _ \<Rightarrow> False)
      | None \<Rightarrow> False)"

section \<open>The registry as a step relation\<close>

text \<open>
  The operations in any order and from any task, with time passing. A clean-up task begins to sleep
  for the timeout when it is first polled (\<open>Poll\<close>) and expires its session at some time after it
  is due (\<open>Expire\<close>). A step carries what was called.
\<close>

datatype reg_event =
    Tick
  | Bind string LocalUsbDevice ManagedDevice
  | Unbind string
  | Acquire string
  | Release string SessionId
  | ReleaseImmediate string SessionId
  | Poll string SessionId
  | Expire string SessionId

inductive reg_step :: "instant \<times> ExportRegistry \<Rightarrow> reg_event \<Rightarrow> instant \<times> ExportRegistry \<Rightarrow> bool" where
  tick: "now \<le> now' \<Longrightarrow> reg_step (now, reg) Tick (now', reg)"
| bind: "reg_step (now, reg) (Bind b d h) (now, snd (bind_device_with reg b d h))"
| unbind: "reg_step (now, reg) (Unbind b) (now, snd (unbind_device reg b))"
| acquire: "reg_step (now, reg) (Acquire b) (now, snd (try_acquire_ext now reg b))"
| release: "reg_step (now, reg) (Release b s) (now, release now reg b s)"
| release_immediate: "reg_step (now, reg) (ReleaseImmediate b s) (now, release_immediate reg b s)"
| poll: "(None, b, s) \<in> set (reg_timers reg) \<Longrightarrow>
     reg_step (now, reg) (Poll b s)
       (now, reg\<lparr>reg_timers := (Some (now + reg_session_timeout reg), b, s) #
                   remove1 (None, b, s) (reg_timers reg)\<rparr>)"
| expire: "(Some due, b, s) \<in> set (reg_timers reg) \<Longrightarrow> due \<le> now \<Longrightarrow>
     reg_step (now, reg) (Expire b s)
       (now, (expire_disconnected_session reg b s)
               \<lparr>reg_timers := remove1 (Some due, b, s) (reg_timers reg)\<rparr>)"

inductive_cases reg_step_cases [elim!]: "reg_step st e st'"

text \<open>
  What holds of the registry between operations: a device's two session fields agree, a
  disconnected session has a clean-up task that is still to run, and session ids
  are in use at most once and below the counter (which has not wrapped).
\<close>

definition entry_ok :: "(instant option \<times> string \<times> SessionId) list \<Rightarrow> string \<Rightarrow> ExportedDevice \<Rightarrow> bool" where
  "entry_ok timers b e \<longleftrightarrow>
     (case ex_session_state e of
        None \<Rightarrow> ex_active_session e = None
      | Some (Active s) \<Rightarrow> ex_active_session e = Some s
      | Some (Disconnected s b' deadline) \<Rightarrow>
          ex_active_session e = Some s \<and> b' = b \<and>
          (\<exists>wake. (wake, b, s) \<in> set timers))"

definition registry_ok :: "ExportRegistry \<Rightarrow> bool" where
  "registry_ok reg \<longleftrightarrow>
     (\<forall>b e. reg_devices reg b = Some e \<longrightarrow> entry_ok (reg_timers reg) b e) \<and>
     (\<forall>b e s. reg_devices reg b = Some e \<longrightarrow> ex_active_session e = Some s \<longrightarrow>
        s < reg_next_session_id reg) \<and>
     (\<forall>b b' e e' s. reg_devices reg b = Some e \<longrightarrow> reg_devices reg b' = Some e' \<longrightarrow>
        ex_active_session e = Some s \<longrightarrow> ex_active_session e' = Some s \<longrightarrow> b = b')"

section \<open>What a device's session is\<close>

datatype hold = Free | Held SessionId | Grace SessionId instant

definition hold_of :: "ExportedDevice \<Rightarrow> hold" where
  "hold_of e =
     (case ex_session_state e of
        None \<Rightarrow> Free
      | Some (Active s) \<Rightarrow> Held s
      | Some (Disconnected s _ deadline) \<Rightarrow> Grace s deadline)"

definition hold :: "ExportRegistry \<Rightarrow> string \<Rightarrow> hold option" where
  "hold reg b = map_option hold_of (reg_devices reg b)"

text \<open>The specification of the operations on one device.\<close>

fun acquire_spec :: "instant \<Rightarrow> SessionId \<Rightarrow> hold \<Rightarrow> (hold \<times> bool) option" where
  "acquire_spec now n Free = Some (Held n, False)"
| "acquire_spec now n (Held s) = None"
| "acquire_spec now n (Grace s deadline) = Some (Held n, now < deadline)"

fun release_spec :: "duration_ms \<Rightarrow> instant \<Rightarrow> SessionId \<Rightarrow> hold \<Rightarrow> hold" where
  "release_spec timeout now sid Free = Free"
| "release_spec timeout now sid (Held s) =
     (if s = sid then if timeout = 0 then Free else Grace s (now + timeout) else Held s)"
| "release_spec timeout now sid (Grace s d) =
     (if s = sid then if timeout = 0 then Free else Grace s (now + timeout) else Grace s d)"

fun release_immediate_spec :: "SessionId \<Rightarrow> hold \<Rightarrow> hold" where
  "release_immediate_spec sid (Held s) = (if s = sid then Free else Held s)"
| "release_immediate_spec sid (Grace s d) = (if s = sid then Free else Grace s d)"
| "release_immediate_spec sid Free = Free"

fun expire_spec :: "SessionId \<Rightarrow> hold \<Rightarrow> hold" where
  "expire_spec sid (Grace s d) = (if s = sid then Free else Grace s d)"
| "expire_spec sid h = h"

lemma hold_of_simps [simp]:
  "hold_of (set_session s e) = Held s" "hold_of (clear_session e) = Free"
  "hold_of (e\<lparr>ex_session_state := Some (Disconnected s b d)\<rparr>) = Grace s d"
  by (simp_all add: hold_of_def set_session_def clear_session_def)

lemma entry_ok_hold:
  assumes "entry_ok timers b e"
  shows "ex_active_session e = (case hold_of e of Free \<Rightarrow> None | Held s \<Rightarrow> Some s | Grace s _ \<Rightarrow> Some s)"
    and "ex_session_state e = (case hold_of e of Free \<Rightarrow> None | Held s \<Rightarrow> Some (Active s)
           | Grace s d \<Rightarrow> Some (Disconnected s b d))"
  using assms by (auto simp: entry_ok_def hold_of_def split: option.splits SessionState.splits)

lemma registry_okD: "registry_ok reg \<Longrightarrow> reg_devices reg b = Some e \<Longrightarrow> entry_ok (reg_timers reg) b e"
  by (simp add: registry_ok_def)

lemma hold_acquire:
  assumes "registry_ok reg"
  shows "hold (snd (try_acquire_ext now reg b)) =
    (hold reg)(b := map_option (\<lambda>h. case acquire_spec now (reg_next_session_id reg) h of
                                      None \<Rightarrow> h | Some (h', _) \<Rightarrow> h') (hold reg b))"
proof (cases "reg_devices reg b")
  case None
  then show ?thesis by (auto simp: try_acquire_ext_def hold_def fun_eq_iff)
next
  case (Some e)
  show ?thesis
    using entry_ok_hold [OF registry_okD [OF assms Some]] Some
    by (cases "hold_of e")
       (auto simp: try_acquire_ext_def acquire_entry_def hold_def Let_def fun_eq_iff)
qed

lemma hold_release:
  assumes "registry_ok reg"
  shows "hold (release now reg b s) =
    (hold reg)(b := map_option (release_spec (reg_session_timeout reg) now s) (hold reg b))"
proof (cases "reg_devices reg b")
  case None
  then show ?thesis by (auto simp: release_def hold_def fun_eq_iff)
next
  case (Some e)
  show ?thesis
    using entry_ok_hold [OF registry_okD [OF assms Some]] Some
    by (cases "hold_of e") (auto simp: release_def hold_def Let_def fun_eq_iff)
qed

lemma hold_release_immediate:
  assumes "registry_ok reg"
  shows "hold (release_immediate reg b s) =
    (hold reg)(b := map_option (release_immediate_spec s) (hold reg b))"
proof (cases "reg_devices reg b")
  case None
  then show ?thesis by (auto simp: release_immediate_def hold_def fun_eq_iff)
next
  case (Some e)
  show ?thesis
    using entry_ok_hold [OF registry_okD [OF assms Some]] Some
    by (cases "hold_of e") (auto simp: release_immediate_def hold_def fun_eq_iff)
qed

lemma expire_spec_ends [simp]: "expire_spec s h \<noteq> Grace s d"
  by (cases h) auto

lemma hold_expire:
  "hold (expire_disconnected_session reg b s) = (hold reg)(b := map_option (expire_spec s) (hold reg b))"
proof (cases "reg_devices reg b")
  case None
  then show ?thesis by (auto simp: expire_disconnected_session_def hold_def fun_eq_iff)
next
  case (Some e)
  show ?thesis
    by (auto simp: expire_disconnected_session_def hold_def hold_of_def clear_session_def Some
      fun_eq_iff split: option.split SessionState.split)
qed

lemma hold_bind:
  "hold (snd (bind_device_with reg b d h)) =
     (hold reg)(b := (case hold reg b of None \<Rightarrow> Some Free | Some x \<Rightarrow> Some x))"
  by (auto simp: bind_device_with_def hold_def hold_of_def fun_eq_iff split: option.split)

lemma hold_unbind: "hold (snd (unbind_device reg b)) = (hold reg)(b := None)"
  by (auto simp: unbind_device_def hold_def fun_eq_iff split: option.split)

lemma hold_timers [simp]: "hold (reg\<lparr>reg_timers := ts\<rparr>) = hold reg"
  by (simp add: hold_def fun_eq_iff)

section \<open>The invariant\<close>

lemma registry_ok_new: "registry_ok (with_session_timeout secs)"
  by (simp add: registry_ok_def with_session_timeout_def)

text \<open>Replacing one entry by one that holds no session, the same session, or a fresh one.\<close>

lemma registry_ok_upd:
  assumes "registry_ok reg" "entry_ok ts b e'" "set (reg_timers reg) \<subseteq> set ts"
    and "reg_next_session_id reg \<le> n"
    and "\<And>s. ex_active_session e' = Some s \<Longrightarrow>
      s < n \<and> (s = reg_next_session_id reg \<or>
        (\<exists>e. reg_devices reg b = Some e \<and> ex_active_session e = Some s))"
  shows "registry_ok (reg\<lparr>reg_devices := (reg_devices reg)(b \<mapsto> e'), reg_next_session_id := n,
    reg_timers := ts\<rparr>)"
proof -
  have mono: "entry_ok (reg_timers reg) c e \<Longrightarrow> entry_ok ts c e" for c e
    using assms(3) by (fastforce simp: entry_ok_def split: option.splits SessionState.splits)
  have below: "s < reg_next_session_id reg"
    if "reg_devices reg c = Some e" "ex_active_session e = Some s" for c e s
    using assms(1) that by (auto simp: registry_ok_def)
  have uniq: "c = c'" if "reg_devices reg c = Some e" "reg_devices reg c' = Some e'"
    "ex_active_session e = Some s" "ex_active_session e' = Some s" for c c' e e' s
    using assms(1) that unfolding registry_ok_def by blast
  have fresh: "ex_active_session e \<noteq> Some (reg_next_session_id reg)"
    if "reg_devices reg c = Some e" for c e
    using below [OF that] by force
  have lt: "s < n" if "reg_devices reg c = Some e" "ex_active_session e = Some s" for c e s
    using below [OF that] assms(4) by (rule order_less_le_trans)
  have new: "c = b" if "reg_devices reg c = Some e" "ex_active_session e = Some s"
    "ex_active_session e' = Some s" for c e s
    using assms(5) [OF that(3)] fresh [OF that(1)] that(2) uniq [OF that(1) _ that(2)] by auto
  have A: "entry_ok ts c e" if "((reg_devices reg)(b \<mapsto> e')) c = Some e" for c e
    using that assms(1,2) mono by (auto simp: registry_ok_def split: if_splits)
  have B: "s < n" if "((reg_devices reg)(b \<mapsto> e')) c = Some e" "ex_active_session e = Some s" for c e s
    using that lt assms(5) by (auto split: if_splits)
  have C: "c = c'" if "((reg_devices reg)(b \<mapsto> e')) c = Some e" "ex_active_session e = Some s"
    "((reg_devices reg)(b \<mapsto> e')) c' = Some f" "ex_active_session f = Some s" for c c' e f s
    using that uniq new by (auto split: if_splits)
  let ?r = "reg\<lparr>reg_devices := (reg_devices reg)(b \<mapsto> e'), reg_next_session_id := n,
    reg_timers := ts\<rparr>"
  have sel: "reg_devices ?r = (reg_devices reg)(b \<mapsto> e')" "reg_next_session_id ?r = n"
    "reg_timers ?r = ts" by simp_all
  show ?thesis
    unfolding registry_ok_def sel
  proof (intro conjI allI impI)
    show "c = c'" if "((reg_devices reg)(b \<mapsto> e')) c = Some e" "((reg_devices reg)(b \<mapsto> e')) c' = Some f"
      "ex_active_session e = Some s" "ex_active_session f = Some s" for c c' e f s
      by (rule C [OF that(1,3,2,4)])
  qed (rule A B, assumption+)+
qed

lemma registry_ok_entry:
  assumes "registry_ok reg" "entry_ok (reg_timers reg) b e'"
    and "\<And>s. ex_active_session e' = Some s \<Longrightarrow>
      \<exists>e. reg_devices reg b = Some e \<and> ex_active_session e = Some s"
  shows "registry_ok (reg\<lparr>reg_devices := (reg_devices reg)(b \<mapsto> e')\<rparr>)"
proof -
  have "s < reg_next_session_id reg" if "ex_active_session e' = Some s" for s
    using assms(1) assms(3) [OF that] by (auto simp: registry_ok_def)
  then show ?thesis
    using registry_ok_upd [OF assms(1,2) order_refl order_refl] assms(3) by fastforce
qed

lemma entry_ok_simps [simp]:
  "entry_ok ts b (clear_session e)" "entry_ok ts b (set_session s e)"
  "ex_active_session (clear_session e) = None" "ex_active_session (set_session s e) = Some s"
  by (simp_all add: entry_ok_def clear_session_def set_session_def)

lemma registry_ok_bind: "registry_ok reg \<Longrightarrow> registry_ok (snd (bind_device_with reg b d h))"
  by (auto simp: bind_device_with_def entry_ok_def intro!: registry_ok_entry)

lemma registry_ok_unbind: "registry_ok reg \<Longrightarrow> registry_ok (snd (unbind_device reg b))"
  by (auto simp: unbind_device_def registry_ok_def split: option.splits)

lemma registry_ok_acquire_entry:
  assumes "registry_ok reg" "reg_next_session_id reg \<noteq> - 1"
  shows "registry_ok (snd (acquire_entry reg b e r))"
proof -
  have "reg_next_session_id reg < reg_next_session_id reg + 1"
    using assms(2) unatSuc [of "reg_next_session_id reg"]
    by (simp add: word_less_nat_alt eq_neg_iff_add_eq_0 add.commute)
  then show ?thesis
    using registry_ok_upd [OF assms(1), where b = b and ts = "reg_timers reg"
      and e' = "set_session (reg_next_session_id reg) e" and n = "reg_next_session_id reg + 1"]
    by (simp add: acquire_entry_def Let_def less_imp_le)
qed

lemma registry_ok_acquire:
  "registry_ok reg \<Longrightarrow> reg_next_session_id reg \<noteq> - 1 \<Longrightarrow> registry_ok (snd (try_acquire_ext now reg b))"
  by (auto simp: try_acquire_ext_def registry_ok_acquire_entry split: option.split SessionState.split)

lemma registry_ok_release:
  assumes "registry_ok reg"
  shows "registry_ok (release now reg b s)"
proof (cases "reg_devices reg b")
  case (Some e)
  let ?d = "now + reg_session_timeout reg"
  let ?e = "e\<lparr>ex_session_state := Some (Disconnected s b ?d)\<rparr>"
  have "registry_ok (reg\<lparr>reg_devices := (reg_devices reg)(b \<mapsto> ?e),
      reg_next_session_id := reg_next_session_id reg, reg_timers := (None, b, s) # reg_timers reg\<rparr>)"
    if "ex_active_session e = Some s"
    using assms Some that
    by (intro registry_ok_upd) (auto simp: entry_ok_def registry_ok_def)
  moreover have "registry_ok (reg\<lparr>reg_devices := (reg_devices reg)(b \<mapsto> clear_session e)\<rparr>)"
    using assms by (intro registry_ok_entry) auto
  ultimately show ?thesis using assms Some by (simp add: release_def Let_def)
qed (simp add: release_def assms)

lemma registry_ok_release_immediate: "registry_ok reg \<Longrightarrow> registry_ok (release_immediate reg b s)"
  by (auto simp: release_immediate_def split: option.split intro!: registry_ok_entry)

text \<open>Entries depend on the clean-up tasks only for the device and session of a grace period.\<close>

lemma registry_ok_timers:
  assumes "registry_ok reg"
    and "\<And>c s d w. hold reg c = Some (Grace s d) \<Longrightarrow> (w, c, s) \<in> set (reg_timers reg) \<Longrightarrow>
      \<exists>w'. (w', c, s) \<in> set ts"
  shows "registry_ok (reg\<lparr>reg_timers := ts\<rparr>)"
proof -
  have "entry_ok ts c e" if "reg_devices reg c = Some e" for c e
    using registry_okD [OF assms(1) that] assms(2) [of c] that
    by (fastforce simp: entry_ok_def hold_def hold_of_def split: option.splits SessionState.splits)
  with assms(1) show ?thesis unfolding registry_ok_def by simp
qed

lemma registry_ok_poll:
  assumes "registry_ok reg"
  shows "registry_ok (reg\<lparr>reg_timers := (Some t, b, s) # remove1 (None, b, s) (reg_timers reg)\<rparr>)"
proof (rule registry_ok_timers [OF assms])
  fix c s' d w
  assume "(w, c, s') \<in> set (reg_timers reg)"
  then show "\<exists>w'. (w', c, s') \<in> set ((Some t, b, s) # remove1 (None, b, s) (reg_timers reg))"
    by (metis in_set_remove1 list.set_intros(1,2) prod.inject)
qed

lemma registry_ok_expire:
  assumes "registry_ok reg"
  shows "registry_ok ((expire_disconnected_session reg b s)
    \<lparr>reg_timers := remove1 (w, b, s) (reg_timers reg)\<rparr>)"
proof (rule registry_ok_timers)
  show "registry_ok (expire_disconnected_session reg b s)"
    using assms
    by (auto simp: expire_disconnected_session_def split: option.split SessionState.split
      intro!: registry_ok_entry)
  fix c s' d w'
  assume "hold (expire_disconnected_session reg b s) c = Some (Grace s' d)"
    and "(w', c, s') \<in> set (reg_timers (expire_disconnected_session reg b s))"
  moreover have "reg_timers (expire_disconnected_session reg b s) = reg_timers reg"
    by (simp add: expire_disconnected_session_def split: option.split SessionState.split)
  ultimately have "(w', c, s') \<noteq> (w, b, s)" "(w', c, s') \<in> set (reg_timers reg)"
    by (auto simp: hold_expire)
  then show "\<exists>w'. (w', c, s') \<in> set (remove1 (w, b, s) (reg_timers reg))"
    by (metis in_set_remove1)
qed

text \<open>The counter moves only when a device is acquired.\<close>

lemma next_session_id_step:
  assumes "reg_step (now, reg) ev (now', reg')"
  shows "reg_next_session_id reg' = reg_next_session_id reg \<or>
    reg_next_session_id reg' = reg_next_session_id reg + 1"
  using assms
  by cases (auto simp: bind_device_with_def unbind_device_def try_acquire_ext_def acquire_entry_def
    Let_def release_def release_immediate_def expire_disconnected_session_def
    split: option.splits SessionState.splits)

lemma registry_ok_step:
  assumes "reg_step (now, reg) ev (now', reg')" "registry_ok reg" "reg_next_session_id reg \<noteq> - 1"
  shows "registry_ok reg'"
  using assms
  by (auto simp: registry_ok_bind registry_ok_unbind registry_ok_acquire registry_ok_release
    registry_ok_release_immediate registry_ok_poll registry_ok_expire)

lemma registry_ok_counted_step:
  assumes "reg_step (now, reg) ev (now', reg')" "registry_ok reg"
    and "unat (reg_next_session_id reg) \<le> Suc n" "n < 2 ^ 64 - 2"
  shows "registry_ok reg' \<and> unat (reg_next_session_id reg') \<le> Suc (Suc n)"
proof -
  have "unat (reg_next_session_id reg) < 2 ^ 64 - 1" using assms(3,4) by simp
  then have m: "reg_next_session_id reg \<noteq> - 1" by (auto simp: unsigned_minus_1_eq_mask mask_eq_exp_minus_1)
  then have "1 + reg_next_session_id reg \<noteq> 0" by (metis eq_neg_iff_add_eq_0 add.commute)
  then have "unat (reg_next_session_id reg + 1) = Suc (unat (reg_next_session_id reg))"
    using unatSuc [of "reg_next_session_id reg"] by (simp add: add.commute)
  then have "unat (reg_next_session_id reg') \<le> Suc (unat (reg_next_session_id reg))"
    using next_session_id_step [OF assms(1)] by (elim disjE) simp_all
  then show ?thesis using registry_ok_step [OF assms(1,2) m] assms(3) by simp
qed

inductive reg_run :: "instant \<times> ExportRegistry \<Rightarrow> reg_event list \<Rightarrow> instant \<times> ExportRegistry \<Rightarrow> bool" where
  run_nil: "reg_run st [] st"
| run_snoc: "reg_run st evs (now, reg) \<Longrightarrow> reg_step (now, reg) ev st' \<Longrightarrow> reg_run st (evs @ [ev]) st'"

lemma reg_run_ok:
  assumes "reg_run st evs st'" "st = (t0, with_session_timeout secs)" "length evs < 2 ^ 64 - 2"
  shows "registry_ok (snd st') \<and> unat (reg_next_session_id (snd st')) \<le> Suc (length evs)"
  using assms
proof (induction rule: reg_run.induct)
  case (run_nil st)
  then show ?case by (simp add: registry_ok_new) (simp add: with_session_timeout_def)
next
  case (run_snoc st evs now reg ev st')
  then have IH: "registry_ok reg" "unat (reg_next_session_id reg) \<le> Suc (length evs)" by simp_all
  obtain now' reg' where st': "st' = (now', reg')" by (cases st')
  then show ?case
    using registry_ok_counted_step [of now reg ev now' reg' "length evs"] run_snoc.hyps(2) run_snoc.prems(2) IH
    by simp
qed

section \<open>The registry as a lock on devices\<close>

text \<open>
  What a connection relies on: a device it has acquired cannot be acquired again, and only a
  release with its own session id gives it up.
\<close>

locale device_lock =
  fixes inv :: "'r \<Rightarrow> bool"
    and held_by :: "'r \<Rightarrow> string \<Rightarrow> SessionId option"
    and acquire :: "instant \<Rightarrow> 'r \<Rightarrow> string \<Rightarrow> ('a, ServerError) result \<times> 'r"
    and session_of :: "'a \<Rightarrow> SessionId"
    and rel :: "instant \<Rightarrow> 'r \<Rightarrow> string \<Rightarrow> SessionId \<Rightarrow> 'r"
  assumes acquire_Ok: "inv r \<Longrightarrow> acquire t r b = (Ok a, r') \<Longrightarrow>
      held_by r b = None \<and> held_by r' = (held_by r)(b \<mapsto> session_of a)"
    and acquire_held: "inv r \<Longrightarrow> held_by r b = Some s \<Longrightarrow> acquire t r b = (Err (DeviceInUse b), r)"
    and release_own: "inv r \<Longrightarrow> held_by r b = Some s \<Longrightarrow> held_by (rel t r b s) = (held_by r)(b := None)"
    and release_other: "inv r \<Longrightarrow> held_by r b = Some s \<Longrightarrow> s' \<noteq> s \<Longrightarrow> rel t r b s' = r"
begin

lemma exclusive:
  assumes "inv r" "acquire t r b = (Ok a, r')" "inv r'"
  shows "acquire t' r' b = (Err (DeviceInUse b), r')"
  using acquire_Ok [OF assms(1,2)] acquire_held [OF assms(3)] by simp

lemma stale_release:
  assumes "inv r" "acquire t r b = (Ok a, r')" "inv r'" "s \<noteq> session_of a"
  shows "rel t' r' b s = r'"
  using acquire_Ok [OF assms(1,2)] release_other [OF assms(3) _ assms(4)] by simp

lemma acquire_release:
  assumes "inv r" "acquire t r b = (Ok a, r')" "inv r'"
  shows "held_by (rel t' r' b (session_of a)) = held_by r"
proof -
  have a: "held_by r b = None" "held_by r' = (held_by r)(b \<mapsto> session_of a)"
    using acquire_Ok [OF assms(1,2)] by simp_all
  then have "held_by r' b = Some (session_of a)" by simp
  from release_own [OF assms(3) this] a show ?thesis by (simp add: fun_eq_iff)
qed

end

definition held_by :: "ExportRegistry \<Rightarrow> string \<Rightarrow> SessionId option" where
  "held_by reg b = (case hold reg b of Some (Held s) \<Rightarrow> Some s | _ \<Rightarrow> None)"

definition acquired_session :: "ManagedDevice \<times> UsbDevice \<times> SessionId \<times> bool \<Rightarrow> SessionId" where
  "acquired_session a = fst (snd (snd a))"

lemma try_acquire_ext_Ok:
  assumes "try_acquire_ext now reg b = (Ok a, reg')"
  shows "acquired_session a = reg_next_session_id reg"
  using assms
  by (auto simp: try_acquire_ext_def acquire_entry_def Let_def rbind_eq_Ok acquired_session_def
    split: option.splits SessionState.splits if_splits)

lemma try_acquire_ext_held:
  assumes "registry_ok reg" "hold reg b = Some (Held s)"
  shows "try_acquire_ext now reg b = (Err (DeviceInUse b), reg)"
proof -
  obtain e where e: "reg_devices reg b = Some e" "hold_of e = Held s"
    using assms(2) by (auto simp: hold_def)
  then show ?thesis using entry_ok_hold [OF registry_okD [OF assms(1) e(1)]]
    by (simp add: try_acquire_ext_def)
qed

interpretation registry_lock: device_lock registry_ok held_by try_acquire_ext acquired_session release
proof unfold_locales
  show "try_acquire_ext t r b = (Err (DeviceInUse b), r)"
    if "registry_ok r" "held_by r b = Some s" for r b s t
    using that by (intro try_acquire_ext_held) (auto simp: held_by_def split: option.splits hold.splits)
  show "held_by r b = None \<and> held_by r' = (held_by r)(b \<mapsto> acquired_session a)"
    if "registry_ok r" "try_acquire_ext t r b = (Ok a, r')" for r t b a r'
  proof -
    have h: "hold r' = (hold r)(b := map_option (\<lambda>h. case acquire_spec t (reg_next_session_id r) h of
                                      None \<Rightarrow> h | Some (h', _) \<Rightarrow> h') (hold r b))"
      using hold_acquire [OF that(1), of t b] that(2) by simp
    have "hold r b \<noteq> None"
      using that(2) by (auto simp: try_acquire_ext_def hold_def split: option.splits)
    moreover have "hold r b \<noteq> Some (Held s)" for s
      using try_acquire_ext_held [OF that(1)] that(2) by fastforce
    ultimately consider "hold r b = Some Free" | s d where "hold r b = Some (Grace s d)"
      by (metis hold.exhaust not_Some_eq)
    then show ?thesis using h try_acquire_ext_Ok [OF that(2)]
      by cases (auto simp: held_by_def fun_eq_iff)
  qed
  show "held_by (release t r b s) = (held_by r)(b := None)"
    if "registry_ok r" "held_by r b = Some s" for r b s t
    using that by (auto simp: hold_release held_by_def fun_eq_iff split: option.splits hold.splits)
  show "release t r b s' = r" if "registry_ok r" "held_by r b = Some s" "s' \<noteq> s" for r b s s' t
    using that entry_ok_hold(1) [OF registry_okD [OF that(1)]]
    by (auto simp: release_def held_by_def hold_def split: option.splits hold.splits)
qed

section \<open>Properties\<close>

text \<open>A device and a registry that exports it, for the witnesses.\<close>

definition sample_device :: "string \<Rightarrow> LocalUsbDevice" where
  "sample_device b =
     \<lparr>ld_bus_number = 1, ld_device_address = 2, ld_vendor_id = 0x0bda, ld_product_id = 0x8153,
      ld_manufacturer = None, ld_product = None, ld_device_class = 0, ld_device_subclass = 0,
      ld_device_protocol = 0, ld_bcd_device = 0x0100, ld_bus_id = b, ld_speed = 3,
      ld_num_configurations = 1, ld_interfaces = [], ld_port_numbers = [1]\<rparr>"

definition sample_managed :: "string \<Rightarrow> ManagedDevice" where
  "sample_managed b = \<lparr>md_handle = zero_usb, md_claimed_interfaces = [], md_bus_id = b\<rparr>"

definition sample_registry :: "string \<Rightarrow> ExportRegistry" where
  "sample_registry b =
     snd (bind_device_with new_registry b (sample_device b) (sample_managed b))"

lemma sample_registry_ok: "registry_ok (sample_registry b)"
  unfolding sample_registry_def new_registry_def by (intro registry_ok_bind registry_ok_new)

lemma hold_sample: "hold (sample_registry b) b = Some Free"
  by (simp add: sample_registry_def hold_bind new_registry_def with_session_timeout_def hold_def)

text \<open>
  C12: In every state the registry reaches, by any sequence of operations from any tasks
  (fewer than \<open>2 ^ 64 - 2\<close> of them, so that the session counter has not wrapped), the two
  session fields of each device agree, no session id is in use twice or above the counter,
  and a device waiting in its grace period has a clean-up task that is still to run.
\<close>

theorem registry_invariant:
  assumes "reg_run (t0, with_session_timeout secs) evs (now, reg)" and "length evs < 2 ^ 64 - 2"
  shows "registry_ok reg"
  using reg_run_ok [OF assms(1) refl assms(2)] by simp

theorem registry_invariant_witness:
  "registry_ok (snd (try_acquire_ext 5 (sample_registry ''1-1'') ''1-1''))"
proof -
  have b: "reg_run (5, new_registry) ([] @ [Bind ''1-1'' (sample_device ''1-1'') (sample_managed ''1-1'')])
      (5, sample_registry ''1-1'')"
    unfolding sample_registry_def by (rule run_snoc [OF run_nil reg_step.bind])
  have "reg_run (5, with_session_timeout DEFAULT_SESSION_TIMEOUT_SECS)
      (([] @ [Bind ''1-1'' (sample_device ''1-1'') (sample_managed ''1-1'')]) @ [Acquire ''1-1''])
      (5, snd (try_acquire_ext 5 (sample_registry ''1-1'') ''1-1''))"
    using run_snoc [OF b reg_step.acquire] by (simp add: new_registry_def)
  then show ?thesis by (rule registry_invariant) simp
qed

text \<open>
  C13: The registry implements the session life cycle of each device: seen through \<open>hold\<close>
  (free, held by a session, or in a grace period), every operation acts on the device it
  names as the specification says and leaves all other devices alone.
\<close>

theorem registry_refines_lifecycle:
  assumes "registry_ok reg"
  shows "hold (snd (bind_device_with reg b d h)) =
           (hold reg)(b := Some (case hold reg b of None \<Rightarrow> Free | Some x \<Rightarrow> x)) \<and>
         hold (snd (unbind_device reg b)) = (hold reg)(b := None) \<and>
         hold (snd (try_acquire_ext now reg b)) =
           (hold reg)(b := map_option (\<lambda>x. case acquire_spec now (reg_next_session_id reg) x of
                                             None \<Rightarrow> x | Some (y, _) \<Rightarrow> y) (hold reg b)) \<and>
         hold (release now reg b s) =
           (hold reg)(b := map_option (release_spec (reg_session_timeout reg) now s) (hold reg b)) \<and>
         hold (release_immediate reg b s) =
           (hold reg)(b := map_option (release_immediate_spec s) (hold reg b)) \<and>
         hold (expire_disconnected_session reg b s) =
           (hold reg)(b := map_option (expire_spec s) (hold reg b))"
  using assms
  by (simp add: hold_bind hold_unbind hold_acquire hold_release hold_release_immediate hold_expire
    split: option.split)

theorem registry_refines_lifecycle_witness:
  "hold (snd (try_acquire_ext 5 (sample_registry ''1-1'') ''1-1'')) ''1-1'' = Some (Held 1)"
proof -
  have n: "reg_next_session_id (sample_registry ''1-1'') = 1"
    by (simp add: sample_registry_def bind_device_with_def new_registry_def with_session_timeout_def)
  show ?thesis
    using registry_refines_lifecycle [OF sample_registry_ok, where b = "''1-1''" and now = 5]
    by (simp add: hold_sample n)
qed

text \<open>
  C14: Ownership is exclusive and stable: while a session holds a device, every attempt to
  acquire it fails with \<open>DeviceInUse\<close>, and no operation of anyone (other acquisitions, timers
  of earlier sessions, releases with another session id, operations on other devices) takes
  the device from it; only its own release or unbinding the device does.
\<close>

theorem ownership_exclusive_and_stable:
  assumes "registry_ok reg" and "hold reg b = Some (Held s)"
  shows "try_acquire_ext t reg b = (Err (DeviceInUse b), reg) \<and>
         (\<forall>now ev now' reg'. reg_step (now, reg) ev (now', reg') \<longrightarrow>
            ev \<notin> {Release b s, ReleaseImmediate b s, Unbind b} \<longrightarrow> hold reg' b = Some (Held s))"
proof (intro conjI allI impI)
  show "try_acquire_ext t reg b = (Err (DeviceInUse b), reg)"
    by (rule try_acquire_ext_held [OF assms])
  show "hold reg' b = Some (Held s)" if "reg_step (now, reg) ev (now', reg')"
    "ev \<notin> {Release b s, ReleaseImmediate b s, Unbind b}" for now ev now' reg'
    using that assms
    by cases (auto simp: hold_bind hold_unbind hold_acquire hold_release hold_release_immediate
      hold_expire)
qed

theorem ownership_exclusive_and_stable_witness:
  "try_acquire_ext 6 (snd (try_acquire_ext 5 (sample_registry ''1-1'') ''1-1'')) ''1-1'' =
     (Err (DeviceInUse ''1-1''), snd (try_acquire_ext 5 (sample_registry ''1-1'') ''1-1''))"
proof (rule ownership_exclusive_and_stable [THEN conjunct1])
  let ?n = "reg_next_session_id (sample_registry ''1-1'')"
  have n: "?n = 1"
    by (simp add: sample_registry_def bind_device_with_def new_registry_def with_session_timeout_def)
  show "registry_ok (snd (try_acquire_ext 5 (sample_registry ''1-1'') ''1-1''))"
    by (rule registry_ok_acquire [OF sample_registry_ok]) (simp add: n)
  show "hold (snd (try_acquire_ext 5 (sample_registry ''1-1'') ''1-1'')) ''1-1'' = Some (Held 1)"
    by (simp add: hold_acquire [OF sample_registry_ok] hold_sample n)
qed

lemma expire_keeps:
  assumes "\<And>d. hold reg b \<noteq> Some (Grace s d)"
  shows "hold (expire_disconnected_session reg b s) = hold reg"
proof -
  have "map_option (expire_spec s) (hold reg b) = hold reg b"
    using assms by (cases "hold reg b"; cases "the (hold reg b)") auto
  then show ?thesis by (simp add: hold_expire)
qed

text \<open>The clean-up task of a grace period, and how it goes on when nothing else happens.\<close>

lemma grace_pending:
  assumes "registry_ok reg" "hold reg b = Some (Grace s d)"
  shows "\<exists>wake. (wake, b, s) \<in> set (reg_timers reg)"
proof -
  obtain e where e: "reg_devices reg b = Some e" "hold_of e = Grace s d"
    using assms(2) by (auto simp: hold_def)
  then show ?thesis
    using registry_okD [OF assms(1) e(1)] entry_ok_hold(2) [OF registry_okD [OF assms(1) e(1)]]
    by (auto simp: entry_ok_def)
qed

lemma cleanup_run:
  assumes "(wake, b, s) \<in> set (reg_timers reg)" "hold reg b = Some (Grace s d)"
  shows "\<exists>evs reg'.
    reg_run (now, reg) evs (case wake of None \<Rightarrow> now + reg_session_timeout reg | Some due \<Rightarrow> max now due, reg') \<and>
    set evs \<subseteq> {Poll b s, Tick, Expire b s} \<and> hold reg' = (hold reg)(b \<mapsto> Free)"
proof -
  let ?freed = "\<lambda>due reg. (expire_disconnected_session reg b s)
    \<lparr>reg_timers := remove1 (Some due, b, s) (reg_timers reg)\<rparr>"
  have fires: "reg_run st (evs @ [Tick] @ [Expire b s]) (max t due, ?freed due r)"
    if "reg_run st evs (t, r)" "(Some due, b, s) \<in> set (reg_timers r)" for st evs t r due
    using run_snoc [OF run_snoc [OF that(1) reg_step.tick [of t "max t due"]] reg_step.expire [OF that(2)]] by simp
  show ?thesis
  proof (cases wake)
    case None
    let ?due = "now + reg_session_timeout reg"
    let ?r = "reg\<lparr>reg_timers := (Some ?due, b, s) # remove1 (None, b, s) (reg_timers reg)\<rparr>"
    have "reg_run (now, reg) ([] @ [Poll b s]) (now, ?r)"
      using run_snoc [OF run_nil reg_step.poll] assms(1) None by simp
    from fires [OF this, of ?due] show ?thesis
      using None assms(2)
      by (intro exI [of _ "[Poll b s, Tick, Expire b s]"] exI [of _ "?freed ?due ?r"])
         (simp add: hold_expire max_def)
  next
    case (Some due)
    from fires [OF run_nil, of due reg now] show ?thesis
      using Some assms
      by (intro exI [of _ "[Tick, Expire b s]"] exI [of _ "?freed due reg"]) (simp add: hold_expire)
  qed
qed

text \<open>
  C15: A grace period ends, and only its own session's. While a device waits in the grace period of
  a session, the clean-up task of that session is still to run. Wherever the task is, from any time on
  the device is free again once the task has gone on: it needs no more than the timeout from its
  first poll (or the time until it is due, when it sleeps), and frees no other device. If a client takes
  the device before that, the device is held by a new session, and the clean-up task of the old session
  then changes nothing, neither while the new session holds the device nor in a later grace period of
  the new session. (The session counter has not reached its last value.)
\<close>

theorem grace_period_ends:
  assumes "registry_ok reg" and "hold reg b = Some (Grace s deadline)"
    and "reg_next_session_id reg \<noteq> - 1"
  shows "(\<exists>wake. (wake, b, s) \<in> set (reg_timers reg) \<and>
      (\<forall>now. \<exists>evs reg'.
         reg_run (now, reg) evs (case wake of None \<Rightarrow> now + reg_session_timeout reg | Some due \<Rightarrow> max now due, reg') \<and>
         set evs \<subseteq> {Poll b s, Tick, Expire b s} \<and> hold reg' = (hold reg)(b \<mapsto> Free))) \<and>
    (\<forall>t t'. \<exists>n. n \<noteq> s \<and>
      hold (snd (try_acquire_ext t reg b)) = (hold reg)(b \<mapsto> Held n) \<and>
      hold (expire_disconnected_session (snd (try_acquire_ext t reg b)) b s) =
        hold (snd (try_acquire_ext t reg b)) \<and>
      hold (expire_disconnected_session (release t' (snd (try_acquire_ext t reg b)) b n) b s) =
        hold (release t' (snd (try_acquire_ext t reg b)) b n))"
proof (intro conjI allI)
  obtain wake where "(wake, b, s) \<in> set (reg_timers reg)" using grace_pending [OF assms(1,2)] by blast
  with cleanup_run [OF _ assms(2)] show "\<exists>wake. (wake, b, s) \<in> set (reg_timers reg) \<and>
      (\<forall>now. \<exists>evs reg'.
         reg_run (now, reg) evs (case wake of None \<Rightarrow> now + reg_session_timeout reg | Some due \<Rightarrow> max now due, reg') \<and>
         set evs \<subseteq> {Poll b s, Tick, Expire b s} \<and> hold reg' = (hold reg)(b \<mapsto> Free))" by blast
  fix t t'
  let ?reg = "snd (try_acquire_ext t reg b)" and ?n = "reg_next_session_id reg"
  have h: "hold ?reg = (hold reg)(b \<mapsto> Held ?n)" by (simp add: hold_acquire [OF assms(1)] assms(2))
  have "s < ?n" using assms(1,2) by (auto simp: registry_ok_def hold_def entry_ok_hold [OF registry_okD [OF assms(1)]])
  then have "?n \<noteq> s" by blast
  then show "\<exists>n. n \<noteq> s \<and> hold ?reg = (hold reg)(b \<mapsto> Held n) \<and>
      hold (expire_disconnected_session ?reg b s) = hold ?reg \<and>
      hold (expire_disconnected_session (release t' ?reg b n) b s) = hold (release t' ?reg b n)"
    using h hold_release [OF registry_ok_acquire [OF assms(1,3)], of t' t b b ?n]
    by (intro exI [of _ ?n] conjI expire_keeps) simp_all
qed

theorem grace_period_ends_witness:
  "\<exists>evs reg'. reg_run (12, release 10 (snd (try_acquire_ext 5 (sample_registry ''1-1'') ''1-1'')) ''1-1'' 1) evs
     (30012, reg') \<and> hold reg' ''1-1'' = Some Free"
proof -
  let ?r = "snd (try_acquire_ext 5 (sample_registry ''1-1'') ''1-1'')"
  let ?reg = "release 10 ?r ''1-1'' 1"
  have n: "reg_next_session_id (sample_registry ''1-1'') = 1"
    by (simp add: sample_registry_def bind_device_with_def new_registry_def with_session_timeout_def)
  have fields: "reg_session_timeout ?reg = 30000" "reg_next_session_id ?reg = 2" "reg_timers ?reg = [(None, ''1-1'', 1)]"
    by (simp_all add: release_def try_acquire_ext_def acquire_entry_def sample_registry_def bind_device_with_def
      new_registry_def with_session_timeout_def DEFAULT_SESSION_TIMEOUT_SECS_def set_session_def Let_def)
  have ok: "registry_ok ?r" by (rule registry_ok_acquire [OF sample_registry_ok]) (simp add: n)
  have t: "reg_session_timeout ?r = 30000"
    by (simp add: try_acquire_ext_def acquire_entry_def sample_registry_def bind_device_with_def
      new_registry_def with_session_timeout_def DEFAULT_SESSION_TIMEOUT_SECS_def Let_def)
  have "hold ?r ''1-1'' = Some (Held 1)"
    by (simp add: hold_acquire [OF sample_registry_ok] hold_sample n)
  then have h: "hold ?reg ''1-1'' = Some (Grace 1 30010)" by (simp add: hold_release [OF ok] t)
  have "reg_next_session_id ?reg \<noteq> - 1" by (simp add: fields(2))
  from grace_period_ends [OF registry_ok_release [OF ok] h this, THEN conjunct1]
  have "\<forall>now. \<exists>evs reg'. reg_run (now, ?reg) evs (now + 30000, reg') \<and> hold reg' = (hold ?reg)(''1-1'' \<mapsto> Free)"
    unfolding fields(1,3) by simp blast
  then obtain evs reg' where "reg_run (12, ?reg) evs (12 + 30000, reg')" "hold reg' = (hold ?reg)(''1-1'' \<mapsto> Free)"
    by blast
  then show ?thesis by (intro exI [of _ evs] exI [of _ reg']) simp
qed

text \<open>
  The outcome of an import attempt, for every state of a bound device whose descriptor
  can be sent: refused while a session holds it, granted with a fresh session id otherwise,
  and reported as a reconnection exactly when the grace period is running. Nothing in the
  request identifies the client, so within the grace period any client is granted the device.
\<close>

lemma acquire_outcome:
  assumes "registry_ok reg" and "reg_devices reg b = Some e"
    and "to_protocol_device (ex_device e) = Ok u"
  shows "fst (try_acquire_ext now reg b) =
    (case hold_of e of
       Held s \<Rightarrow> Err (DeviceInUse b)
     | Free \<Rightarrow> Ok (ex_handle e, u, reg_next_session_id reg, False)
     | Grace s deadline \<Rightarrow> Ok (ex_handle e, u, reg_next_session_id reg, now < deadline))"
proof -
  have "ex_device (clear_session e) = ex_device e" "ex_handle (clear_session e) = ex_handle e"
    by (simp_all add: clear_session_def)
  then show ?thesis
    using entry_ok_hold [OF registry_okD [OF assms(1,2)]] assms(2,3)
    by (cases "hold_of e") (auto simp: try_acquire_ext_def acquire_entry_def Let_def)
qed

lemma sample_entry:
  "reg_devices (sample_registry b) b =
     Some \<lparr>ex_device = sample_device b, ex_handle = sample_managed b, ex_active_session = None,
           ex_session_state = None\<rparr>"
  "reg_next_session_id (sample_registry b) = 1"
  by (simp_all add: sample_registry_def bind_device_with_def new_registry_def with_session_timeout_def)

text \<open>
  C16: When the descriptor of a free device cannot be sent (its bus ID is not ASCII or has 32
  bytes or more), the import fails but the device stays marked as held by a session that no
  one has: every later import is refused as in use.
\<close>

theorem acquire_error_leaks_session:
  assumes "registry_ok reg" and "reg_devices reg b = Some e" and "hold_of e = Free"
    and "to_protocol_device (ex_device e) = Err x" and "reg_next_session_id reg \<noteq> - 1"
  shows "fst (try_acquire_ext now reg b) = Err x \<and>
         hold (snd (try_acquire_ext now reg b)) b = Some (Held (reg_next_session_id reg)) \<and>
         fst (try_acquire_ext later (snd (try_acquire_ext now reg b)) b) = Err (DeviceInUse b)"
proof -
  have h: "hold (snd (try_acquire_ext now reg b)) b = Some (Held (reg_next_session_id reg))"
    using assms(2,3) by (simp add: hold_acquire [OF assms(1)] hold_def)
  then show ?thesis
    using try_acquire_ext_held [OF registry_ok_acquire [OF assms(1,5)] h]
      entry_ok_hold [OF registry_okD [OF assms(1,2)]] assms(2,3,4)
    by (simp add: try_acquire_ext_def acquire_entry_def Let_def)
qed

theorem acquire_error_leaks_session_witness:
  "fst (try_acquire_ext 6 (snd (try_acquire_ext 5 (sample_registry (replicate 32 CHR ''1''))
     (replicate 32 CHR ''1''))) (replicate 32 CHR ''1'')) = Err (DeviceInUse (replicate 32 CHR ''1''))"
proof -
  let ?b = "replicate 32 CHR ''1''"
  obtain x where x: "to_protocol_device (sample_device ?b) = Err x"
    by (auto simp: to_protocol_device_def busid_from_str_def sample_device_def BUSID_SIZE_def)
  show ?thesis
    using acquire_error_leaks_session [OF sample_registry_ok sample_entry(1), of ?b x 5 6] x
      sample_entry(2) [of ?b] by (simp add: hold_of_def)
qed

end
