(* ===== verification/Client_Conn.thy ===== *)
theory Client_Conn
  imports Wire_Codec
begin

text \<open>
  What the class drivers of \<open>extender-client/src\<close> share: the client errors (\<open>error.rs\<close>), the
  connection with the import exchange that opens it, sequence numbers, sending a
  \<open>CMD_SUBMIT\<close> and reading a \<open>RET_SUBMIT\<close>. The drivers repeat these parts literally; they are
  defined here once, over any record that extends \<open>usb_conn\<close> (the fields \<open>reader\<close>, \<open>writer\<close>,
  \<open>devid\<close>, \<open>next_seqnum\<close> of every driver's struct), and each driver's theory instantiates them.

  An operation of a driver is a function from the device to a result and the device after it.
  After an error nothing is said about the device. The texts of the driver errors are the
  constructors of \<open>detail\<close>, with the values the texts contain. What \<open>TcpStream::connect\<close> under
  its time limit gives is an argument.
\<close>

section \<open>Errors\<close>

type_synonym SocketAddr = string

datatype detail =
    UrbFailed i32 | ExpectedRetSubmit UrbMessage
  | InvalidSignature u32 | CswTooShort usize usize | CswTagMismatch u32 u32
  | ScsiFailed | ScsiPhaseError | UnknownCswStatus u8
  | BufferTooSmall usize usize | DataTooSmall usize usize
  | NtbTooShortForNth | InvalidNthSignature u32 | NtbTooShortForNdp | InvalidNdpSignature u32
  | NdpTooShort | NoDatagrams | DatagramPastEnd usize usize usize
  | InvalidMacFormat string | InvalidMacByte string
  | NoCaptureEndpoint | NoPlaybackEndpoint | NoAudioEndpoint | ZeroMaxPacketSize

datatype ClientError =
    Client_Io io_error
  | Client_Protocol ProtocolError
  | ConnectTimeout SocketAddr nat
  | DevlistError u32
  | ImportRejected string u32
  | ImportMissingDevice
  | Client_InvalidBusId string
  | NoFreePort u32
  | PortNotAttached u32
  | VhciNotAvailable string
  | PlatformNotSupported
  | Client_Tls string
  | VhciParseError string
  | MassStorage detail
  | Hid detail
  | Serial detail
  | Network detail
  | Audio detail
  | IOKit i32 string

section \<open>Operations\<close>

type_synonym ('d, 'a) op = "'d \<Rightarrow> ('a \<times> 'd, ClientError) result"

definition creturn :: "'a \<Rightarrow> ('d, 'a) op" where
  "creturn a d = Ok (a, d)"

definition cerr :: "ClientError \<Rightarrow> ('d, 'a) op" where
  "cerr e d = Err e"

definition cbind :: "('d, 'a) op \<Rightarrow> ('a \<Rightarrow> ('d, 'b) op) \<Rightarrow> ('d, 'b) op" where
  "cbind m f d = rbind (m d) (\<lambda>(a, d'). f a d')"

definition cget :: "('d \<Rightarrow> ('d, 'a) op) \<Rightarrow> ('d, 'a) op" where
  "cget f d = f d d"

definition cmodify :: "('d \<Rightarrow> 'd) \<Rightarrow> ('d, unit) op" where
  "cmodify f d = Ok ((), f d)"

lemmas client_eval = creturn_def cerr_def cbind_def cget_def cmodify_def

lemma le_at_append:
  "length xs = i \<Longrightarrow> u16_le_at (xs @ u16_to_le_bytes v @ ys) i = v"
  "length xs = i \<Longrightarrow> u32_le_at (xs @ u32_to_le_bytes w @ ys) i = w"
  by (auto simp: u16_le_at_def u32_le_at_def byte_at_def u16_to_le_eq u32_to_le_eq nth_append
    u16_from_to_le u32_from_to_le)

section \<open>The connection\<close>

record usb_conn =
  c_reader :: stream
  c_writer :: sink
  c_devid :: u32
  c_next_seqnum :: u32

datatype tcp = Connected stream sink | ConnectTimedOut | ConnectFailed io_error

definition CONNECT_TIMEOUT_SECS :: nat where
  "CONNECT_TIMEOUT_SECS = 5"

definition tcp_connect :: "SocketAddr \<Rightarrow> tcp \<Rightarrow> (stream \<times> sink, ClientError) result" where
  "tcp_connect addr outcome =
     (case outcome of
        Connected reader writer \<Rightarrow> Ok (reader, writer)
      | ConnectTimedOut \<Rightarrow> Err (ConnectTimeout addr CONNECT_TIMEOUT_SECS)
      | ConnectFailed e \<Rightarrow> Err (Client_Io e))"

definition import_exchange ::
  "string \<Rightarrow> stream \<Rightarrow> sink \<Rightarrow> (UsbDevice \<times> stream \<times> sink, ClientError) result" where
  "import_exchange bus_id reader writer =
     rbind (map_err (\<lambda>_. Client_InvalidBusId bus_id) (busid_from_str bus_id)) (\<lambda>busid_bytes.
     case write_op_message writer (ReqImport \<lparr>import_busid = busid_bytes\<rparr>) of (writer', r) \<Rightarrow>
     rbind (map_err Client_Protocol r) (\<lambda>_.
     rbind (map_err Client_Protocol (read_op_message reader)) (\<lambda>(reply, reader').
     case reply of
       RepImport rep \<Rightarrow>
         if import_status rep \<noteq> 0 then Err (ImportRejected bus_id (import_status rep))
         else rbind (ok_or (import_device rep) ImportMissingDevice) (\<lambda>device.
              Ok (device, reader', writer'))
     | _ \<Rightarrow> Err (Client_Protocol (InvalidOpCode 0)))))"

definition device_id :: "UsbDevice \<Rightarrow> u32" where
  "device_id device = push_bit 16 (busnum device) OR devnum device"

section \<open>Transfers\<close>

definition succ_seqnum :: "u32 \<Rightarrow> u32" where
  "succ_seqnum n = (if n + 1 = 0 then 1 else n + 1)"

definition next_seqnum :: "('x usb_conn_scheme, u32) op" where
  "next_seqnum d = Ok (c_next_seqnum d, d\<lparr>c_next_seqnum := succ_seqnum (c_next_seqnum d)\<rparr>)"

definition urb_cmd :: "u32 \<Rightarrow> u32 \<Rightarrow> u32 \<Rightarrow> u32 \<Rightarrow> u32 \<Rightarrow> bytes \<Rightarrow> bytes \<Rightarrow> CmdSubmit" where
  "urb_cmd seqnum devid direction ep len setup buf =
     \<lparr>cs_header = \<lparr>hdr_command = Command_as_u32 CmdSubmit_Code, hdr_seqnum = seqnum,
                    hdr_devid = devid, hdr_direction = direction, hdr_ep = ep\<rparr>,
      cs_transfer_flags = 0, cs_transfer_buffer_length = len, cs_start_frame = 0,
      cs_number_of_packets = 0xFFFFFFFF, cs_interval = 0, cs_setup = setup,
      cs_transfer_buffer = buf, cs_iso_packet_descriptors = []\<rparr>"

definition send_cmd :: "CmdSubmit \<Rightarrow> ('x usb_conn_scheme, unit) op" where
  "send_cmd cmd d =
     (case write_all (CmdSubmit_encode cmd) (c_writer d) of
        (w, True) \<Rightarrow> Ok ((), d\<lparr>c_writer := w\<rparr>)
      | (w, False) \<Rightarrow> Err (Client_Io BrokenPipe))"

text \<open>
  A request to the given endpoint: an OUT transfer carries its payload, an IN transfer only
  the length wanted. \<open>zero_setup\<close> is the setup field of transfers other than control.
\<close>

definition zero_setup :: bytes where
  "zero_setup = replicate 8 0"

definition send_out :: "u8 \<Rightarrow> bytes \<Rightarrow> bytes \<Rightarrow> ('x usb_conn_scheme, unit) op" where
  "send_out endpoint setup payload =
     cbind next_seqnum (\<lambda>seqnum. cget (\<lambda>d.
     send_cmd (urb_cmd seqnum (c_devid d) 0 (ucast (endpoint AND 0x0F)) (word_of_nat (length payload))
       setup payload)))"

definition send_in :: "u8 \<Rightarrow> bytes \<Rightarrow> u32 \<Rightarrow> ('x usb_conn_scheme, unit) op" where
  "send_in endpoint setup len =
     cbind next_seqnum (\<lambda>seqnum. cget (\<lambda>d.
     send_cmd (urb_cmd seqnum (c_devid d) 1 (ucast (endpoint AND 0x0F)) len setup [])))"

definition read_reply :: "(detail \<Rightarrow> ClientError) \<Rightarrow> ('x usb_conn_scheme, bytes) op" where
  "read_reply failed d =
     rbind (map_err Client_Protocol (read_urb_message (c_reader d))) (\<lambda>(msg, reader).
     case msg of
       RetSubmit ret \<Rightarrow>
         if rs_status ret \<noteq> 0 then Err (failed (UrbFailed (rs_status ret)))
         else Ok (rs_transfer_buffer ret, d\<lparr>c_reader := reader\<rparr>)
     | other \<Rightarrow> Err (failed (ExpectedRetSubmit other)))"

definition transfer_in ::
  "(detail \<Rightarrow> ClientError) \<Rightarrow> u8 \<Rightarrow> bytes \<Rightarrow> u32 \<Rightarrow> ('x usb_conn_scheme, bytes) op" where
  "transfer_in failed endpoint setup len =
     cbind (send_in endpoint setup len) (\<lambda>_. read_reply failed)"

definition transfer_out ::
  "(detail \<Rightarrow> ClientError) \<Rightarrow> u8 \<Rightarrow> bytes \<Rightarrow> bytes \<Rightarrow> ('x usb_conn_scheme, unit) op" where
  "transfer_out failed endpoint setup payload =
     cbind (send_out endpoint setup payload) (\<lambda>_.
     cbind (read_reply failed) (\<lambda>_. creturn ()))"

section \<open>The traffic of an operation\<close>

text \<open>
  What an operation that succeeded has done to its connection, as the requests sent and the
  replies read in order. Requests carry the connection's device id and successive sequence
  numbers and are well-formed; replies have status 0.
\<close>

datatype traffic = Request CmdSubmit | Reply RetSubmit

definition conn_of :: "'x usb_conn_scheme \<Rightarrow> usb_conn" where
  "conn_of d = \<lparr>c_reader = c_reader d, c_writer = c_writer d, c_devid = c_devid d,
                c_next_seqnum = c_next_seqnum d\<rparr>"

inductive follows :: "usb_conn \<Rightarrow> traffic list \<Rightarrow> usb_conn \<Rightarrow> bool" where
  nothing: "follows c [] c"
| request: "follows (c\<lparr>c_writer := w, c_next_seqnum := succ_seqnum (c_next_seqnum c)\<rparr>) evs c'
     \<Longrightarrow> CmdSubmit_ok cmd \<Longrightarrow> hdr_seqnum (cs_header cmd) = c_next_seqnum c
     \<Longrightarrow> hdr_devid (cs_header cmd) = c_devid c
     \<Longrightarrow> write_all (CmdSubmit_encode cmd) (c_writer c) = (w, True)
     \<Longrightarrow> follows c (Request cmd # evs) c'"
| reply: "follows (c\<lparr>c_reader := r\<rparr>) evs c'
     \<Longrightarrow> read_urb_message (c_reader c) = Ok (RetSubmit ret, r) \<Longrightarrow> rs_status ret = 0
     \<Longrightarrow> follows c (Reply ret # evs) c'"

inductive_simps follows_simps [simp]:
  "follows c [] c'" "follows c (Request cmd # evs) c'" "follows c (Reply ret # evs) c'"

text \<open>The discipline: a request only when none is outstanding, a reply only to one that is.\<close>

fun awaiting :: "bool \<Rightarrow> traffic list \<Rightarrow> bool option" where
  "awaiting p [] = Some p"
| "awaiting False (Request _ # evs) = awaiting True evs"
| "awaiting True (Reply _ # evs) = awaiting False evs"
| "awaiting _ _ = None"

definition moves :: "bool \<Rightarrow> bool \<Rightarrow> ('x usb_conn_scheme, 'a) op \<Rightarrow> bool" where
  "moves p q m \<longleftrightarrow>
     (\<forall>d a d'. m d = Ok (a, d') \<longrightarrow>
        (\<exists>evs. follows (conn_of d) evs (conn_of d') \<and> awaiting p evs = Some q))"

abbreviation lockstep :: "('x usb_conn_scheme, 'a) op \<Rightarrow> bool" where
  "lockstep \<equiv> moves False False"

named_theorems moves_intros \<open>the traffic of composed operations\<close>

lemma conn_of_simps [simp]:
  "c_reader (conn_of d) = c_reader d" "c_writer (conn_of d) = c_writer d"
  "c_devid (conn_of d) = c_devid d" "c_next_seqnum (conn_of d) = c_next_seqnum d"
  by (simp_all add: conn_of_def)

lemma follows_append: "follows c evs c' \<Longrightarrow> follows c' evs' c'' \<Longrightarrow> follows c (evs @ evs') c''"
  by (induction rule: follows.induct) auto

lemma awaiting_append:
  "awaiting p (evs @ evs') = (case awaiting p evs of None \<Rightarrow> None | Some q \<Rightarrow> awaiting q evs')"
  by (induction p evs rule: awaiting.induct) auto

lemma movesI:
  assumes "\<And>d a d'. m d = Ok (a, d') \<Longrightarrow>
    \<exists>evs. follows (conn_of d) evs (conn_of d') \<and> awaiting p evs = Some q"
  shows "moves p q m"
  using assms unfolding moves_def by blast

lemma movesE:
  assumes "moves p q m" "m d = Ok (a, d')"
  obtains evs where "follows (conn_of d) evs (conn_of d')" "awaiting p evs = Some q"
  using assms unfolding moves_def by blast

lemma moves_creturn [moves_intros]: "moves p p (creturn a)"
  by (rule movesI) (auto simp: client_eval intro: exI [of _ "[]"])

lemma moves_cerr [moves_intros]: "moves p q (cerr e)"
  by (rule movesI) (simp add: client_eval)

lemma moves_panic [moves_intros]: "moves p q (\<lambda>_. Panic)"
  by (rule movesI) simp

lemma moves_cmodify [moves_intros]: "(\<And>d. conn_of (f d) = conn_of d) \<Longrightarrow> moves p p (cmodify f)"
  by (rule movesI) (auto simp: client_eval intro: exI [of _ "[]"])

lemma moves_cget [moves_intros]: "(\<And>d. moves p q (f d)) \<Longrightarrow> moves p q (cget f)"
  unfolding moves_def cget_def by blast

lemma moves_cbind [moves_intros]:
  assumes m: "moves p q m" and f: "\<And>a. moves q r (f a)"
  shows "moves p r (cbind m f)"
proof (rule movesI)
  fix d b d'
  assume "cbind m f d = Ok (b, d')"
  then obtain a d1 where m1: "m d = Ok (a, d1)" and f1: "f a d1 = Ok (b, d')"
    by (auto simp: cbind_def rbind_eq_Ok)
  obtain evs where evs: "follows (conn_of d) evs (conn_of d1)" "awaiting p evs = Some q"
    using m m1 by (rule movesE)
  obtain evs' where evs': "follows (conn_of d1) evs' (conn_of d')" "awaiting q evs' = Some r"
    using f f1 by (rule movesE)
  show "\<exists>evs. follows (conn_of d) evs (conn_of d') \<and> awaiting p evs = Some r"
    using follows_append [OF evs(1) evs'(1)] evs(2) evs'(2) by (auto simp: awaiting_append)
qed

lemma moves_if [moves_intros]:
  "(b \<Longrightarrow> moves p q m) \<Longrightarrow> (\<not> b \<Longrightarrow> moves p q m') \<Longrightarrow> moves p q (if b then m else m')"
  by simp

lemma moves_option:
  "moves p q m \<Longrightarrow> (\<And>x. moves p q (f x)) \<Longrightarrow> moves p q (case y of None \<Rightarrow> m | Some x \<Rightarrow> f x)"
  by (cases y) simp_all


section \<open>The transfers keep the discipline\<close>

abbreviation max_transfer :: nat where
  "max_transfer \<equiv> unat MAX_TRANSFER_BUFFER_LENGTH"

lemma urb_cmd_header [simp]:
  "hdr_seqnum (cs_header (urb_cmd n d dir ep len setup buf)) = n"
  "hdr_devid (cs_header (urb_cmd n d dir ep len setup buf)) = d"
  by (simp_all add: urb_cmd_def)

lemma unat_payload: "length buf \<le> max_transfer \<Longrightarrow> unat (word_of_nat (length buf) :: u32) = length buf"
  by (simp add: unsigned_of_nat take_bit_nat_eq_self MAX_TRANSFER_BUFFER_LENGTH_def)

lemma urb_cmd_ok:
  assumes "length setup = 8"
  shows "length buf \<le> max_transfer \<Longrightarrow>
           CmdSubmit_ok (urb_cmd n d 0 ep (word_of_nat (length buf)) setup buf)"
    and "len \<le> MAX_TRANSFER_BUFFER_LENGTH \<Longrightarrow> CmdSubmit_ok (urb_cmd n d 1 ep len setup [])"
  using assms
  by (simp_all add: CmdSubmit_ok_def urb_cmd_def unat_payload iso_packets_ok_def is_iso_transfer_def
    NON_ISO_PACKETS_SENTINEL_def word_le_nat_alt)

lemma length_zero_setup [simp]: "length zero_setup = 8"
  by (simp add: zero_setup_def)

lemma send_cmd_Ok:
  "send_cmd cmd d = Ok (u, d') \<longleftrightarrow>
     (\<exists>w. write_all (CmdSubmit_encode cmd) (c_writer d) = (w, True) \<and> d' = d\<lparr>c_writer := w\<rparr>)"
  by (auto simp: send_cmd_def split: prod.splits bool.splits)

lemma read_reply_Ok:
  "read_reply failed d = Ok (buf, d') \<longleftrightarrow>
     (\<exists>ret r. read_urb_message (c_reader d) = Ok (RetSubmit ret, r) \<and> rs_status ret = 0 \<and>
        buf = rs_transfer_buffer ret \<and> d' = d\<lparr>c_reader := r\<rparr>)"
  by (auto simp: read_reply_def rbind_eq_Ok map_err_def split: result.splits UrbMessage.splits
    if_splits)

lemma conn_of_update [simp]:
  "conn_of (d\<lparr>c_reader := r\<rparr>) = (conn_of d)\<lparr>c_reader := r\<rparr>"
  "conn_of (d\<lparr>c_writer := w\<rparr>) = (conn_of d)\<lparr>c_writer := w\<rparr>"
  "conn_of (d\<lparr>c_next_seqnum := n\<rparr>) = (conn_of d)\<lparr>c_next_seqnum := n\<rparr>"
  by (simp_all add: conn_of_def)

lemma send_out_Ok:
  "send_out endpoint setup payload d = Ok (u, d') \<longleftrightarrow>
     (\<exists>w. write_all (CmdSubmit_encode (urb_cmd (c_next_seqnum d) (c_devid d) 0
              (ucast (endpoint AND 0x0F)) (word_of_nat (length payload)) setup payload)) (c_writer d)
            = (w, True) \<and>
          d' = d\<lparr>c_writer := w, c_next_seqnum := succ_seqnum (c_next_seqnum d)\<rparr>)"
  by (auto simp: send_out_def client_eval next_seqnum_def send_cmd_Ok)

lemma send_in_Ok:
  "send_in endpoint setup len d = Ok (u, d') \<longleftrightarrow>
     (\<exists>w. write_all (CmdSubmit_encode (urb_cmd (c_next_seqnum d) (c_devid d) 1
              (ucast (endpoint AND 0x0F)) len setup [])) (c_writer d) = (w, True) \<and>
          d' = d\<lparr>c_writer := w, c_next_seqnum := succ_seqnum (c_next_seqnum d)\<rparr>)"
  by (auto simp: send_in_def client_eval next_seqnum_def send_cmd_Ok)

lemma moves_send_out [moves_intros]:
  assumes "length setup = 8" "length payload \<le> max_transfer"
  shows "moves False True (send_out endpoint setup payload)"
proof (rule movesI)
  fix d u d'
  assume "send_out endpoint setup payload d = Ok (u, d')"
  then show "\<exists>evs. follows (conn_of d) evs (conn_of d') \<and> awaiting False evs = Some True"
    using urb_cmd_ok(1) [OF assms]
    by (intro exI [of _ "[Request (urb_cmd (c_next_seqnum d) (c_devid d) 0
          (ucast (endpoint AND 0x0F)) (word_of_nat (length payload)) setup payload)]"])
       (auto simp: send_out_Ok)
qed

lemma moves_send_in [moves_intros]:
  assumes "length setup = 8" "len \<le> MAX_TRANSFER_BUFFER_LENGTH"
  shows "moves False True (send_in endpoint setup len)"
proof (rule movesI)
  fix d u d'
  assume "send_in endpoint setup len d = Ok (u, d')"
  then show "\<exists>evs. follows (conn_of d) evs (conn_of d') \<and> awaiting False evs = Some True"
    using urb_cmd_ok(2) [OF assms]
    by (intro exI [of _ "[Request (urb_cmd (c_next_seqnum d) (c_devid d) 1
          (ucast (endpoint AND 0x0F)) len setup [])]"])
       (auto simp: send_in_Ok)
qed

lemma moves_read_reply [moves_intros]: "moves True False (read_reply failed)"
proof (rule movesI)
  fix d buf d'
  assume "read_reply failed d = Ok (buf, d')"
  then obtain ret r where "read_urb_message (c_reader d) = Ok (RetSubmit ret, r)"
    "rs_status ret = 0" "d' = d\<lparr>c_reader := r\<rparr>"
    by (auto simp: read_reply_Ok)
  then show "\<exists>evs. follows (conn_of d) evs (conn_of d') \<and> awaiting True evs = Some False"
    by (intro exI [of _ "[Reply ret]"]) simp
qed

lemma moves_send_read:
  assumes "length setup = 8" "length payload \<le> max_transfer" "\<And>x. lockstep (f x)"
  shows "lockstep (cbind (send_out ep setup payload) (\<lambda>_. cbind (read_reply failed) f))"
  by (rule moves_cbind [OF moves_send_out [OF assms(1,2)]])
     (rule moves_cbind [OF moves_read_reply assms(3)])

lemma moves_transfers [moves_intros]:
  assumes "length setup = 8"
  shows "len \<le> MAX_TRANSFER_BUFFER_LENGTH \<Longrightarrow> lockstep (transfer_in failed endpoint setup len)"
    and "length payload \<le> max_transfer \<Longrightarrow> lockstep (transfer_out failed endpoint setup payload)"
  unfolding transfer_in_def transfer_out_def using assms
  by (auto intro!: moves_intros)

section \<open>What the discipline gives\<close>

fun requests :: "traffic list \<Rightarrow> CmdSubmit list" where
  "requests [] = []"
| "requests (Request c # evs) = c # requests evs"
| "requests (Reply _ # evs) = requests evs"

fun replies :: "traffic list \<Rightarrow> RetSubmit list" where
  "replies [] = []"
| "replies (Request _ # evs) = replies evs"
| "replies (Reply r # evs) = r # replies evs"

lemma awaiting_balanced:
  "awaiting p evs = Some q \<Longrightarrow>
     length (requests evs) + (if p then 1 else 0) = length (replies evs) + (if q then 1 else 0)"
  by (induction p evs rule: awaiting.induct) auto

lemma write_all_sent: "write_all bs w = (w', True) \<Longrightarrow> sent w' = sent w @ bs"
  by (auto simp: write_all_def split: option.splits if_splits)

lemma follows_sent:
  "follows c evs c' \<Longrightarrow>
     sent (c_writer c') = sent (c_writer c) @ concat (map (UrbMessage_encode \<circ> CmdSubmit) (requests evs)) \<and>
     list_all CmdSubmit_ok (requests evs)"
  by (induction rule: follows.induct) (auto dest: write_all_sent)

lemma follows_read:
  "follows c evs c' \<Longrightarrow>
     repeat_read (length (replies evs)) read_urb_message (c_reader c)
       = Ok (map RetSubmit (replies evs), c_reader c')"
  by (induction rule: follows.induct) (auto simp: reader_eval)

lemma follows_seqnums:
  "follows c evs c' \<Longrightarrow>
     map (hdr_seqnum \<circ> cs_header) (requests evs)
       = map (\<lambda>i. (succ_seqnum ^^ i) (c_next_seqnum c)) [0..<length (requests evs)]"
proof (induction rule: follows.induct)
  case (request c w evs c' cmd)
  then show ?case
    by (simp add: upt_conv_Cons map_Suc_upt [symmetric] funpow_swap1 del: upt_Suc)
qed simp_all

text \<open>
  The contract of an operation that returned: as many requests were sent as replies read, the
  server reads back from the bytes sent exactly these requests, and they carry successive
  sequence numbers and the device id of the connection.
\<close>

definition conversational :: "('x usb_conn_scheme, 'a) op \<Rightarrow> bool" where
  "conversational m \<longleftrightarrow>
     (\<forall>d a d'. m d = Ok (a, d') \<longrightarrow>
        (\<exists>reqs rets.
           sent (c_writer d') = sent (c_writer d) @ concat (map (UrbMessage_encode \<circ> CmdSubmit) reqs) \<and>
           (\<forall>s. repeat_read (length reqs) read_urb_message
              (feed (concat (map (UrbMessage_encode \<circ> CmdSubmit) reqs)) s) = Ok (map CmdSubmit reqs, s)) \<and>
           repeat_read (length reqs) read_urb_message (c_reader d)
             = Ok (map RetSubmit rets, c_reader d') \<and>
           list_all (\<lambda>r. rs_status r = 0) rets \<and>
           map (hdr_seqnum \<circ> cs_header) reqs
             = map (\<lambda>i. (succ_seqnum ^^ i) (c_next_seqnum d)) [0..<length reqs] \<and>
           list_all (\<lambda>c. hdr_devid (cs_header c) = c_devid d) reqs \<and> c_devid d' = c_devid d))"

lemma follows_devid:
  "follows c evs c' \<Longrightarrow>
     list_all (\<lambda>c'. hdr_devid (cs_header c') = c_devid c) (requests evs) \<and> c_devid c' = c_devid c \<and>
     list_all (\<lambda>r. rs_status r = 0) (replies evs)"
  by (induction rule: follows.induct) auto

lemma follows_conversation:
  assumes "follows c evs c'"
  shows "repeat_read (length (requests evs)) read_urb_message
      (feed (concat (map (UrbMessage_encode \<circ> CmdSubmit) (requests evs))) s)
      = Ok (map CmdSubmit (requests evs), s)"
proof -
  have "UrbMessage_ok m" if "m \<in> set (map CmdSubmit (requests evs))" for m
    using that follows_sent [OF assms] by (auto simp: list_all_iff)
  then show ?thesis
    using urb_stream.read_many [of "map CmdSubmit (requests evs)" s] by simp
qed

text \<open>
  The interface of a driver operation to the connection: where its payload fits a transfer it
  keeps the discipline, and so the contract.
\<close>

locale driver_operation =
  fixes m :: "('x usb_conn_scheme, 'a) op" and fits :: bool
  assumes disciplined: "fits \<Longrightarrow> lockstep m"
begin

lemma seen_by_server:
  assumes fits
  shows "conversational m"
  unfolding conversational_def
proof (intro allI impI)
  fix d a d'
  assume "m d = Ok (a, d')"
  with disciplined [OF assms] obtain evs
    where evs: "follows (conn_of d) evs (conn_of d')" "awaiting False evs = Some False"
    by (rule movesE)
  show "\<exists>reqs rets.
      sent (c_writer d') = sent (c_writer d) @ concat (map (UrbMessage_encode \<circ> CmdSubmit) reqs) \<and>
      (\<forall>s. repeat_read (length reqs) read_urb_message
         (feed (concat (map (UrbMessage_encode \<circ> CmdSubmit) reqs)) s) = Ok (map CmdSubmit reqs, s)) \<and>
      repeat_read (length reqs) read_urb_message (c_reader d) = Ok (map RetSubmit rets, c_reader d') \<and>
      list_all (\<lambda>r. rs_status r = 0) rets \<and>
      map (hdr_seqnum \<circ> cs_header) reqs
        = map (\<lambda>i. (succ_seqnum ^^ i) (c_next_seqnum d)) [0..<length reqs] \<and>
      list_all (\<lambda>c. hdr_devid (cs_header c) = c_devid d) reqs \<and> c_devid d' = c_devid d"
    using follows_sent [OF evs(1)] follows_read [OF evs(1)] follows_seqnums [OF evs(1)]
      follows_devid [OF evs(1)] awaiting_balanced [OF evs(2)] follows_conversation [OF evs(1)]
    by (intro exI [of _ "requests evs"] exI [of _ "replies evs"]) simp
qed

end

end
