(* ===== verification/Client_Remote.thy ===== *)
theory Client_Remote
  imports Client_Conn
begin

text \<open>
  \<open>extender-client/src/types.rs\<close> (what the client shows of a remote device) and
  \<open>remote.rs\<close> (asking a server for its devices). The exchange returns what it wrote with its
  result. The TLS variant differs in how the byte streams come about: the outcome of the
  configuration and of the handshake is an argument.
\<close>

section \<open>Remote devices\<close>

record RemoteDevice =
  rd_busid :: string
  rd_path :: string
  rd_id_vendor :: u16
  rd_id_product :: u16
  rd_bcd_device :: u16
  rd_device_class :: u8
  rd_device_subclass :: u8
  rd_device_protocol :: u8
  rd_speed :: u32
  rd_num_interfaces :: u8
  rd_interface_classes :: "u8 list"

definition RemoteDevice_from :: "UsbDevice \<Rightarrow> RemoteDevice" where
  "RemoteDevice_from dev =
     \<lparr>rd_busid = busid_string dev, rd_path = path_string dev, rd_id_vendor = id_vendor dev,
      rd_id_product = id_product dev, rd_bcd_device = bcd_device dev,
      rd_device_class = device_class dev, rd_device_subclass = device_subclass dev,
      rd_device_protocol = device_protocol dev, rd_speed = speed dev,
      rd_num_interfaces = num_interfaces dev,
      rd_interface_classes = map interface_class (interfaces dev)\<rparr>"

section \<open>The exchange\<close>

definition unexpected_op_code :: "OpMessage \<Rightarrow> u16" where
  "unexpected_op_code msg =
     (case msg of ReqDevlist _ \<Rightarrow> 0x8005 | RepDevlist _ \<Rightarrow> 0x0005 | ReqImport _ \<Rightarrow> 0x8003
      | RepImport _ \<Rightarrow> 0x0003)"

definition devlist_exchange ::
  "stream \<Rightarrow> sink \<Rightarrow> sink \<times> (RemoteDevice list, ClientError) result" where
  "devlist_exchange reader writer =
     (case write_op_message writer (ReqDevlist OpReqDevlist) of
        (writer', r) \<Rightarrow>
          (writer',
           rbind (map_err Client_Protocol r) (\<lambda>_.
           rbind (map_err Client_Protocol (read_op_message reader)) (\<lambda>(reply, _).
           case reply of
             RepDevlist rep \<Rightarrow>
               if devlist_status rep \<noteq> 0 then Err (DevlistError (devlist_status rep))
               else Ok (map RemoteDevice_from (devlist_devices rep))
           | msg \<Rightarrow> Err (Client_Protocol (InvalidOpCode (unexpected_op_code msg)))))))"

definition list_remote_devices ::
  "SocketAddr \<Rightarrow> tcp \<Rightarrow> (RemoteDevice list, ClientError) result" where
  "list_remote_devices addr outcome =
     rbind (tcp_connect addr outcome) (\<lambda>(reader, writer). snd (devlist_exchange reader writer))"

definition list_remote_devices_tls ::
  "SocketAddr \<Rightarrow> tcp \<Rightarrow> (unit, ClientError) result \<Rightarrow> (stream \<times> sink, string) result
     \<Rightarrow> (RemoteDevice list, ClientError) result" where
  "list_remote_devices_tls addr outcome config handshake =
     rbind (tcp_connect addr outcome) (\<lambda>_.
     rbind config (\<lambda>_.
     rbind (map_err Client_Tls handshake) (\<lambda>(reader, writer).
     snd (devlist_exchange reader writer))))"

text \<open>Either way the exchange is the same: only what carries the bytes differs.\<close>

lemma tls_listing_same:
  assumes "list_remote_devices_tls addr outcome config (Ok (reader, writer)) = Ok ds"
  shows "list_remote_devices addr (Connected reader writer) = Ok ds"
  using assms
  by (auto simp: list_remote_devices_tls_def list_remote_devices_def tcp_connect_def rbind_eq_Ok)

lemma busid_string_padded:
  assumes "list_all is_ascii s" "CHR 0x00 \<notin> set s" "busid d = as_bytes s @ replicate n 0"
  shows "busid_string d = s"
  using assms
  by (simp add: busid_string_def until_nul_padded from_utf8_ascii)

end
