(* ===== verification/Client_Vhci.thy ===== *)
theory Client_Vhci
  imports Client_Conn
begin

text \<open>
  \<open>extender-client/src/vhci.rs\<close> and the port types of \<open>types.rs\<close>: the virtual host controller
  of Linux. The trait \<open>VirtualHci\<close> is the record \<open>hci\<close> of its four functions over the state of
  the controller; \<open>VhciDriver\<close> is its instance over sysfs. What the kernel shows in the status
  file and how it takes a write to the attach and detach files is the parameter \<open>sysfs\<close>. The
  reason of a parse error leaves out the text of \<open>ParseIntError\<close>.
\<close>

section \<open>Ports\<close>

datatype PortStatus = Port_Free | InUse | Unknown u32

definition PortStatus_from_raw :: "u32 \<Rightarrow> PortStatus" where
  "PortStatus_from_raw val = (if val = 4 then Port_Free else if val = 6 then InUse else Unknown val)"

definition is_free :: "PortStatus \<Rightarrow> bool" where
  "is_free s = (case s of Port_Free \<Rightarrow> True | _ \<Rightarrow> False)"

record VhciPort =
  vp_hub :: string
  vp_port :: u32
  vp_status :: PortStatus
  vp_speed :: u32
  vp_devid :: u32
  vp_sockfd :: u32
  vp_local_busid :: string

section \<open>The status file\<close>

text \<open>\<open>str::lines\<close> and \<open>str::split_whitespace\<close>.\<close>

definition strip_cr :: "string \<Rightarrow> string" where
  "strip_cr s = (if s \<noteq> [] \<and> last s = CHR 0x0D then butlast s else s)"

definition str_lines :: "string \<Rightarrow> string list" where
  "str_lines s =
     (let ps = split_on CHR 0x0A s; rest = last ps
      in map strip_cr (butlast ps) @ (if rest = [] then [] else [rest]))"

function words_from :: "string list \<Rightarrow> string \<Rightarrow> string \<Rightarrow> string list" where
  "words_from ws word s =
     (if s = [] then [word]
      else case find (\<lambda>p. p \<noteq> [] \<and> starts_with p s) ws of
             Some p \<Rightarrow> word # words_from ws [] (drop (length p) s)
           | None \<Rightarrow> words_from ws (word @ [hd s]) (tl s))"
  by pat_completeness auto
termination
  by (relation "measure (\<lambda>(ws, word, s). length s)") (auto dest!: find_starts_with)

declare words_from.simps [simp del]

definition split_whitespace :: "string \<Rightarrow> string list" where
  "split_whitespace s = filter (\<lambda>w. w \<noteq> []) (words_from (map from_bytes white_space) [] s)"

lemma words_from_text:
  "words_from (map from_bytes white_space) w [] = [w]"
  "words_from (map from_bytes white_space) w (CHR '' '' # s) = w # words_from (map from_bytes white_space) [] s"
  "graphic c \<Longrightarrow> words_from (map from_bytes white_space) w (c # s) = words_from (map from_bytes white_space) (w @ [c]) s"
proof -
  show "words_from (map from_bytes white_space) w [] = [w]" by (simp add: words_from.simps)
  have "find (\<lambda>p. p \<noteq> [] \<and> starts_with p (CHR '' '' # s)) (map from_bytes white_space) = Some [CHR '' '']"
    by (simp add: white_space_def from_bytes_def char_of_byte_def starts_with_def char_of_def bit_Suc_0_iff)
  then show "words_from (map from_bytes white_space) w (CHR '' '' # s) = w # words_from (map from_bytes white_space) [] s"
    by (subst words_from.simps) simp
  show "words_from (map from_bytes white_space) w (c # s) = words_from (map from_bytes white_space) (w @ [c]) s"
    if "graphic c"
    using graphic_start [OF _ white_space_not_graphic, of "c # s"] that by (subst words_from.simps) simp
qed

definition parse_hex_u32 :: "string \<Rightarrow> u32 option" where
  "parse_hex_u32 s = map_option word_of_nat (from_str_radix 32 16 s)"

definition parse_field :: "string \<Rightarrow> string \<Rightarrow> (u32, ClientError) result" where
  "parse_field what field = ok_or (parse_hex_u32 field) (VhciParseError (what @ field))"

definition parse_status_line :: "string \<Rightarrow> (VhciPort option, ClientError) result" where
  "parse_status_line raw =
     (let line = trim raw in
      if line = [] \<or> starts_with ''hub'' line then Ok None
      else let fields = split_whitespace line in
      if length fields < 7 then Ok None
      else rbind (parse_field ''bad port number '' (fields ! 1)) (\<lambda>port.
           rbind (parse_field ''bad status '' (fields ! 2)) (\<lambda>status_val.
           rbind (parse_field ''bad speed '' (fields ! 3)) (\<lambda>spd.
           rbind (parse_field ''bad devid '' (fields ! 4)) (\<lambda>devid.
           rbind (parse_field ''bad sockfd '' (fields ! 5)) (\<lambda>sockfd.
           Ok (Some \<lparr>vp_hub = fields ! 0, vp_port = port,
                     vp_status = PortStatus_from_raw status_val, vp_speed = spd,
                     vp_devid = devid, vp_sockfd = sockfd, vp_local_busid = fields ! 6\<rparr>)))))))"

definition parse_vhci_status :: "string \<Rightarrow> (VhciPort list, ClientError) result" where
  "parse_vhci_status content =
     rbind (rmap parse_status_line (str_lines content)) (\<lambda>ports.
     Ok (concat (map (\<lambda>p. case p of None \<Rightarrow> [] | Some x \<Rightarrow> [x]) ports)))"

definition find_free_port_in_list :: "VhciPort list \<Rightarrow> u32 \<Rightarrow> (u32, ClientError) result" where
  "find_free_port_in_list ports spd =
     (let target_hub = (if spd \<ge> 5 then ''ss'' else ''hs'') in
      ok_or (map_option vp_port (find (\<lambda>p. vp_hub p = target_hub \<and> is_free (vp_status p)) ports))
        (NoFreePort spd))"

section \<open>The controller\<close>

record 'k hci =
  hci_attach :: "u32 \<Rightarrow> i32 \<Rightarrow> u32 \<Rightarrow> u32 \<Rightarrow> 'k \<Rightarrow> (unit, ClientError) result \<times> 'k"
  hci_detach :: "u32 \<Rightarrow> 'k \<Rightarrow> (unit, ClientError) result \<times> 'k"
  hci_list_ports :: "'k \<Rightarrow> (VhciPort list, ClientError) result"
  hci_find_free_port :: "u32 \<Rightarrow> 'k \<Rightarrow> (u32, ClientError) result"

record 'k sysfs =
  read_status :: "'k \<Rightarrow> (string, io_error) result"
  write_attach :: "string \<Rightarrow> 'k \<Rightarrow> (unit, io_error) result \<times> 'k"
  write_detach :: "string \<Rightarrow> 'k \<Rightarrow> (unit, io_error) result \<times> 'k"

definition with_sysfs_path :: "string \<Rightarrow> bool \<Rightarrow> (unit, ClientError) result" where
  "with_sysfs_path sysfs_path path_exists =
     (if \<not> path_exists then Err (VhciNotAvailable (''sysfs path '' @ sysfs_path @ '' does not exist''))
      else Ok ())"

definition dec_i32 :: "i32 \<Rightarrow> string" where
  "dec_i32 n = (if sint n < 0 then ''-'' @ dec_string (nat (- sint n)) else dec_string (nat (sint n)))"

definition attach_line :: "u32 \<Rightarrow> i32 \<Rightarrow> u32 \<Rightarrow> u32 \<Rightarrow> string" where
  "attach_line port fd devid spd =
     dec_string (unat port) @ '' '' @ dec_i32 fd @ '' '' @ dec_string (unat devid) @ '' '' @
     dec_string (unat spd)"

definition driver_list_ports :: "'k sysfs \<Rightarrow> 'k \<Rightarrow> (VhciPort list, ClientError) result" where
  "driver_list_ports sys k = rbind (map_err Client_Io (read_status sys k)) parse_vhci_status"

definition driver_find_free_port :: "'k sysfs \<Rightarrow> u32 \<Rightarrow> 'k \<Rightarrow> (u32, ClientError) result" where
  "driver_find_free_port sys spd k =
     rbind (driver_list_ports sys k) (\<lambda>ports. find_free_port_in_list ports spd)"

definition VhciDriver :: "'k sysfs \<Rightarrow> 'k hci" where
  "VhciDriver sys =
     \<lparr>hci_attach = (\<lambda>port fd devid spd k.
        case write_attach sys (attach_line port fd devid spd) k of (r, k') \<Rightarrow> (map_err Client_Io r, k')),
      hci_detach = (\<lambda>port k.
        case write_detach sys (dec_string (unat port)) k of (r, k') \<Rightarrow> (map_err Client_Io r, k')),
      hci_list_ports = driver_list_ports sys,
      hci_find_free_port = driver_find_free_port sys\<rparr>"

section \<open>Ports found and lines written\<close>

definition hub_for :: "u32 \<Rightarrow> string" where
  "hub_for spd = (if spd \<ge> 5 then ''ss'' else ''hs'')"

lemma is_free_iff [simp]: "is_free s \<longleftrightarrow> s = Port_Free"
  by (cases s) (simp_all add: is_free_def)

lemma find_free_port_sound:
  assumes "find_free_port_in_list ps spd = Ok p"
  shows "\<exists>q. q \<in> set ps \<and> vp_port q = p \<and> vp_hub q = hub_for spd \<and> vp_status q = Port_Free"
  using assms
  by (auto simp: find_free_port_in_list_def hub_for_def Let_def ok_or_def find_Some_iff
      split: option.splits if_splits intro: nth_mem)

lemma find_free_port_complete:
  assumes "find_free_port_in_list ps spd = Err e"
  shows "e = NoFreePort spd \<and> (\<forall>q \<in> set ps. vp_hub q = hub_for spd \<longrightarrow> vp_status q \<noteq> Port_Free)"
  using assms
  by (auto simp: find_free_port_in_list_def hub_for_def Let_def ok_or_def find_None_iff
      split: option.splits if_splits)

lemma find_free_port_first:
  "find_free_port_in_list ps spd = Ok p \<Longrightarrow>
     \<exists>i < length ps. vp_port (ps ! i) = p \<and>
       (\<forall>j < i. vp_hub (ps ! j) = hub_for spd \<longrightarrow> vp_status (ps ! j) \<noteq> Port_Free)"
  by (auto simp: find_free_port_in_list_def hub_for_def Let_def ok_or_def find_Some_iff
      split: option.splits if_splits)

lemma driver_find_free_port_sound:
  assumes "driver_find_free_port sys spd k = Ok p"
  shows "\<exists>ps q. driver_list_ports sys k = Ok ps \<and> q \<in> set ps \<and> vp_port q = p \<and>
      vp_hub q = hub_for spd \<and> vp_status q = Port_Free"
  using assms find_free_port_sound by (fastforce simp: driver_find_free_port_def rbind_eq_Ok)

text \<open>The line written to the attach file has four fields.\<close>

lemma no_space: "CHR '' '' \<notin> set (dec_string n)" "CHR '' '' \<notin> set (dec_i32 i)"
proof -
  show n: "CHR '' '' \<notin> set (dec_string n)" for n
    using dec_string_digits [of n] by (auto simp: list_all_iff is_ascii_digit_def)
  show "CHR '' '' \<notin> set (dec_i32 i)" using n by (simp add: dec_i32_def)
qed

lemma split_attach_line:
  "split_on CHR '' '' (attach_line port fd devid spd) =
     [dec_string (unat port), dec_i32 fd, dec_string (unat devid), dec_string (unat spd)]"
  by (simp add: attach_line_def split_on_append split_on_single no_space)

lemma VhciDriver_simps [simp]:
  "hci_list_ports (VhciDriver sys) = driver_list_ports sys"
  "hci_find_free_port (VhciDriver sys) = driver_find_free_port sys"
  by (simp_all add: VhciDriver_def)

lemma VhciDriver_writes:
  "hci_attach (VhciDriver sys) port fd devid spd k = (Ok (), k') \<longleftrightarrow>
     write_attach sys (attach_line port fd devid spd) k = (Ok (), k')"
  "hci_detach (VhciDriver sys) port k = (Ok (), k') \<longleftrightarrow>
     write_detach sys (dec_string (unat port)) k = (Ok (), k')"
  by (auto simp: VhciDriver_def map_err_def split: prod.splits result.splits)

end
