(* ===== verification/Client_Engine.thy ===== *)
theory Client_Engine
  imports Client_Vhci
begin

text \<open>
  \<open>extender-client/src/engine.rs\<close> (the parts compiled for Linux), the types of an attached and
  an imported device of \<open>types.rs\<close>. The engine is its registry of imported devices with the state
  of the controller behind the trait object \<open>vhci\<close>. The file descriptor of the connection is an
  argument.
\<close>

section \<open>State\<close>

record AttachedDevice =
  ad_port :: u32
  ad_busid :: string
  ad_server_addr :: SocketAddr
  ad_id_vendor :: u16
  ad_id_product :: u16
  ad_speed :: u32

record ImportedDevice =
  im_port :: u32
  im_status :: PortStatus
  im_speed :: u32
  im_devid :: u32
  im_server_addr :: "SocketAddr option"
  im_busid :: "string option"

record RegistryEntry =
  re_server_addr :: SocketAddr
  re_busid :: string
  re_id_vendor :: u16
  re_id_product :: u16
  re_speed :: u32

record 'k ClientEngine =
  ce_vhci :: 'k
  ce_registry :: "u32 \<rightharpoonup> RegistryEntry"

definition with_vhci :: "'k \<Rightarrow> 'k ClientEngine" where
  "with_vhci k = \<lparr>ce_vhci = k, ce_registry = Map.empty\<rparr>"

section \<open>Operations\<close>

definition attach_import :: "SocketAddr \<Rightarrow> string \<Rightarrow> tcp \<Rightarrow> (UsbDevice, ClientError) result" where
  "attach_import addr bus_id outcome =
     rbind (map_err (\<lambda>_. Client_InvalidBusId bus_id) (busid_from_str bus_id)) (\<lambda>_.
     rbind (tcp_connect addr outcome) (\<lambda>(reader, writer).
     rbind (import_exchange bus_id reader writer) (\<lambda>(device, _). Ok device)))"

definition attach_device_linux ::
  "'k hci \<Rightarrow> SocketAddr \<Rightarrow> string \<Rightarrow> tcp \<Rightarrow> i32 \<Rightarrow> 'k ClientEngine
     \<Rightarrow> (AttachedDevice, ClientError) result \<times> 'k ClientEngine" where
  "attach_device_linux vhci addr bus_id outcome fd en =
     (case attach_import addr bus_id outcome of
        Err e \<Rightarrow> (Err e, en)
      | Panic \<Rightarrow> (Panic, en)
      | Ok device \<Rightarrow>
          (let devid = device_id device; spd = speed device in
           case hci_find_free_port vhci spd (ce_vhci en) of
             Err e \<Rightarrow> (Err e, en)
           | Panic \<Rightarrow> (Panic, en)
           | Ok port \<Rightarrow>
               (case hci_attach vhci port fd devid spd (ce_vhci en) of
                  (Ok _, k) \<Rightarrow>
                    (Ok \<lparr>ad_port = port, ad_busid = bus_id, ad_server_addr = addr,
                         ad_id_vendor = id_vendor device, ad_id_product = id_product device,
                         ad_speed = spd\<rparr>,
                     \<lparr>ce_vhci = k, ce_registry = (ce_registry en)(port \<mapsto>
                        \<lparr>re_server_addr = addr, re_busid = bus_id, re_id_vendor = id_vendor device,
                         re_id_product = id_product device, re_speed = spd\<rparr>)\<rparr>)
                | (Err e, k) \<Rightarrow> (Err e, en\<lparr>ce_vhci := k\<rparr>)
                | (Panic, k) \<Rightarrow> (Panic, en\<lparr>ce_vhci := k\<rparr>))))"

definition detach_device ::
  "'k hci \<Rightarrow> u32 \<Rightarrow> 'k ClientEngine \<Rightarrow> (unit, ClientError) result \<times> 'k ClientEngine" where
  "detach_device vhci port en =
     (case hci_list_ports vhci (ce_vhci en) of
        Err e \<Rightarrow> (Err e, en)
      | Panic \<Rightarrow> (Panic, en)
      | Ok ports \<Rightarrow>
          (case find (\<lambda>p. vp_port p = port) ports of
             None \<Rightarrow> (Err (PortNotAttached port), en)
           | Some p \<Rightarrow>
               if is_free (vp_status p) then (Err (PortNotAttached port), en)
               else (case hci_detach vhci port (ce_vhci en) of
                       (Ok _, k) \<Rightarrow> (Ok (), \<lparr>ce_vhci = k, ce_registry = (ce_registry en)(port := None)\<rparr>)
                     | (Err e, k) \<Rightarrow> (Err e, en\<lparr>ce_vhci := k\<rparr>)
                     | (Panic, k) \<Rightarrow> (Panic, en\<lparr>ce_vhci := k\<rparr>))))"

definition imported_device :: "(u32 \<rightharpoonup> RegistryEntry) \<Rightarrow> VhciPort \<Rightarrow> ImportedDevice" where
  "imported_device registry p =
     (let reg = registry (vp_port p) in
      \<lparr>im_port = vp_port p, im_status = vp_status p, im_speed = vp_speed p, im_devid = vp_devid p,
       im_server_addr = map_option re_server_addr reg, im_busid = map_option re_busid reg\<rparr>)"

definition get_imported_devices ::
  "'k hci \<Rightarrow> 'k ClientEngine \<Rightarrow> (ImportedDevice list, ClientError) result" where
  "get_imported_devices vhci en =
     rbind (hci_list_ports vhci (ce_vhci en)) (\<lambda>ports.
     Ok (map (imported_device (ce_registry en)) (filter (\<lambda>p. \<not> is_free (vp_status p)) ports)))"

section \<open>Attaching, listing and detaching\<close>

abbreviation in_use :: "(u32 \<rightharpoonup> RegistryEntry) \<Rightarrow> VhciPort list \<Rightarrow> ImportedDevice list" where
  "in_use reg ps \<equiv> map (imported_device reg) (filter (\<lambda>p. \<not> is_free (vp_status p)) ps)"

lemma im_port_imported [simp]: "im_port (imported_device reg p) = vp_port p"
  by (simp add: imported_device_def Let_def)

lemma imports_others:
  assumes "list_all2 (\<lambda>q q'. vp_port q' = vp_port q \<and> (vp_port q \<noteq> port \<longrightarrow> q' = q)) ps ps'"
    and "\<And>p. p \<noteq> port \<Longrightarrow> reg' p = reg p"
  shows "filter (\<lambda>d. im_port d \<noteq> port) (in_use reg' ps') = filter (\<lambda>d. im_port d \<noteq> port) (in_use reg ps)"
  using assms(1)
proof (induction rule: list_all2_induct)
  case (Cons q qs q' qs')
  then show ?case
    using assms(2) by (cases "vp_port q = port") (auto simp: imported_device_def Let_def)
qed simp

text \<open>
  What the kernel's table of ports may be after an attach: the row of the port is no longer free and
  shows the device id and speed that were written; the other rows are as before.
\<close>

definition occupied :: "u32 \<Rightarrow> u32 \<Rightarrow> u32 \<Rightarrow> VhciPort \<Rightarrow> VhciPort \<Rightarrow> bool" where
  "occupied port devid spd q q' \<longleftrightarrow>
     vp_port q' = vp_port q \<and>
     (if vp_port q = port then vp_status q' \<noteq> Port_Free \<and> vp_devid q' = devid \<and> vp_speed q' = spd
      else q' = q)"

lemma occupied_port:
  assumes "list_all2 (occupied port devid spd) ps ps'" "q \<in> set ps" "vp_port q = port"
  obtains q' where "q' \<in> set ps'" "vp_port q' = port" "vp_status q' \<noteq> Port_Free" "vp_devid q' = devid"
    "vp_speed q' = spd"
proof -
  obtain i where i: "i < length ps" "q = ps ! i" using assms(2) by (auto simp: in_set_conv_nth)
  have "occupied port devid spd (ps ! i) (ps' ! i)" "ps' ! i \<in> set ps'"
    using assms(1) i(1) by (auto simp: list_all2_conv_all_nth)
  then show ?thesis using that assms(3) i(2) by (auto simp: occupied_def)
qed

lemma list_all2_mono': "list_all2 P xs ys \<Longrightarrow> (\<And>x y. P x y \<Longrightarrow> Q x y) \<Longrightarrow> list_all2 Q xs ys"
  by (auto simp: list_all2_conv_all_nth)

lemma only_port:
  "distinct (map vp_port ps) \<Longrightarrow> q \<in> set ps \<Longrightarrow> q' \<in> set ps \<Longrightarrow> vp_port q = vp_port q' \<Longrightarrow> q = q'"
  by (auto simp: distinct_map dest: inj_onD)

lemma free_port_not_listed:
  assumes "distinct (map vp_port ps)" "q \<in> set ps" "vp_status q = Port_Free"
  shows "filter (\<lambda>d. im_port d \<noteq> vp_port q) (in_use reg ps) = in_use reg ps"
proof (rule filter_True, rule ballI)
  fix d
  assume "d \<in> set (in_use reg ps)"
  then obtain p where "p \<in> set ps" "vp_status p \<noteq> Port_Free" "d = imported_device reg p" by auto
  then show "im_port d \<noteq> vp_port q" using only_port [OF assms(1), of p q] assms(2,3) by auto
qed

lemma attach_device_Ok:
  "attach_device_linux vhci addr b outcome fd en = (Ok dev, en') \<Longrightarrow>
     \<exists>device k. attach_import addr b outcome = Ok device \<and>
       hci_find_free_port vhci (speed device) (ce_vhci en) = Ok (ad_port dev) \<and>
       hci_attach vhci (ad_port dev) fd (device_id device) (speed device) (ce_vhci en) = (Ok (), k) \<and>
       dev = \<lparr>ad_port = ad_port dev, ad_busid = b, ad_server_addr = addr, ad_id_vendor = id_vendor device,
              ad_id_product = id_product device, ad_speed = speed device\<rparr> \<and>
       en' = \<lparr>ce_vhci = k, ce_registry = (ce_registry en)(ad_port dev \<mapsto>
         \<lparr>re_server_addr = addr, re_busid = b, re_id_vendor = id_vendor device,
          re_id_product = id_product device, re_speed = speed device\<rparr>)\<rparr>"
  by (auto simp: attach_device_linux_def Let_def split: result.splits prod.splits)

lemma detach_device_Ok:
  "detach_device vhci port en = (Ok u, en') \<Longrightarrow>
     \<exists>k. hci_detach vhci port (ce_vhci en) = (Ok (), k) \<and>
       en' = \<lparr>ce_vhci = k, ce_registry = (ce_registry en)(port := None)\<rparr>"
  by (auto simp: detach_device_def split: result.splits prod.splits option.splits if_splits)

lemma listed:
  "driver_list_ports sys k = Ok ps \<Longrightarrow>
     get_imported_devices (VhciDriver sys) (en\<lparr>ce_vhci := k\<rparr>) = Ok (in_use (ce_registry en) ps)"
  by (simp add: get_imported_devices_def rbind_def)

text \<open>After an attach the other devices are listed as before, and the new one with them.\<close>

lemma attach_keeps_others:
  assumes "distinct (map vp_port ps)" "q \<in> set ps" "vp_port q = p" "vp_status q = Port_Free"
    and "list_all2 (occupied p devid spd) ps ps'" "reg' = reg(p \<mapsto> entry)"
  shows "filter (\<lambda>x. im_port x \<noteq> p) (in_use reg' ps') = in_use reg ps"
proof -
  have "filter (\<lambda>x. im_port x \<noteq> p) (in_use reg' ps') = filter (\<lambda>x. im_port x \<noteq> p) (in_use reg ps)"
    by (rule imports_others) (use assms(5,6) in \<open>auto simp: occupied_def elim!: list_all2_mono'\<close>)
  then show ?thesis
    using free_port_not_listed [OF assms(1,2,4)] assms(3) by simp
qed

lemma attach_lists:
  assumes "distinct (map vp_port ps)" "q \<in> set ps" "vp_port q = p" "vp_status q = Port_Free"
    and "list_all2 (occupied p devid spd) ps ps'" "reg' = reg(p \<mapsto> entry)"
  shows "\<exists>d \<in> set (in_use reg' ps'). im_port d = p \<and> im_devid d = devid \<and> im_speed d = spd \<and>
      im_server_addr d = Some (re_server_addr entry) \<and> im_busid d = Some (re_busid entry)"
    "filter (\<lambda>x. im_port x \<noteq> p) (in_use reg' ps') = in_use reg ps"
proof -
  obtain q' where q': "q' \<in> set ps'" "vp_port q' = p" "vp_status q' \<noteq> Port_Free" "vp_devid q' = devid" "vp_speed q' = spd"
    using occupied_port [OF assms(5,2,3)] by blast
  then have "imported_device reg' q' \<in> set (in_use reg' ps')" by simp
  then show "\<exists>d \<in> set (in_use reg' ps'). im_port d = p \<and> im_devid d = devid \<and> im_speed d = spd \<and>
      im_server_addr d = Some (re_server_addr entry) \<and> im_busid d = Some (re_busid entry)"
    using q' assms(6) by (intro bexI [of _ "imported_device reg' q'"]) (simp_all add: imported_device_def Let_def)
  show "filter (\<lambda>x. im_port x \<noteq> p) (in_use reg' ps') = in_use reg ps"
    by (rule attach_keeps_others [OF assms])
qed

text \<open>
  C32: Attaching and detaching through the Linux driver, whatever the kernel does with what is
  written to it. An attach that succeeds imported a device, found a port that was free and of the
  hub for the device's speed, and wrote one line to the attach file: the port, the descriptor of
  the connection, the device's id and its speed. Where the kernel's table then shows the port as no longer free
  with that id and speed, and the other ports as before (ports have distinct numbers), the imported devices are the
  former ones and one for this port, with the device's id and speed and the server and bus ID that were
  asked for. A detach of the port that succeeds, at any later time, wrote the port's number to the detach
  file, and the engine has forgotten the attach: it lists every later table as it would have before, the
  port without server and bus ID.
\<close>

theorem attach_list_detach:
  assumes "attach_device_linux (VhciDriver sys) addr b outcome fd en = (Ok dev, en')"
  shows "\<exists>device ps q line ds.
    attach_import addr b outcome = Ok device \<and>
    driver_list_ports sys (ce_vhci en) = Ok ps \<and> q \<in> set ps \<and> vp_port q = ad_port dev \<and>
    vp_status q = Port_Free \<and> vp_hub q = hub_for (speed device) \<and>
    write_attach sys line (ce_vhci en) = (Ok (), ce_vhci en') \<and>
    split_on CHR '' '' line = [dec_string (unat (ad_port dev)), dec_i32 fd,
      dec_string (unat (device_id device)), dec_string (unat (speed device))] \<and>
    get_imported_devices (VhciDriver sys) en = Ok ds \<and>
    (\<forall>k ps'. driver_list_ports sys k = Ok ps' \<longrightarrow> distinct (map vp_port ps) \<longrightarrow>
       list_all2 (occupied (ad_port dev) (device_id device) (speed device)) ps ps' \<longrightarrow>
       (\<exists>ds' d. get_imported_devices (VhciDriver sys) (en'\<lparr>ce_vhci := k\<rparr>) = Ok ds' \<and>
          filter (\<lambda>x. im_port x \<noteq> ad_port dev) ds' = ds \<and> d \<in> set ds' \<and> im_port d = ad_port dev \<and>
          im_devid d = device_id device \<and> im_speed d = speed device \<and>
          im_server_addr d = Some addr \<and> im_busid d = Some b)) \<and>
    (\<forall>k en''. detach_device (VhciDriver sys) (ad_port dev) (en'\<lparr>ce_vhci := k\<rparr>) = (Ok (), en'') \<longrightarrow>
       write_detach sys (dec_string (unat (ad_port dev))) k = (Ok (), ce_vhci en'') \<and>
       (\<forall>k'. get_imported_devices (VhciDriver sys) (en''\<lparr>ce_vhci := k'\<rparr>) =
          get_imported_devices (VhciDriver sys)
            \<lparr>ce_vhci = k', ce_registry = (ce_registry en)(ad_port dev := None)\<rparr>))"
proof -
  let ?p = "ad_port dev"
  obtain device k where run: "attach_import addr b outcome = Ok device"
    "driver_find_free_port sys (speed device) (ce_vhci en) = Ok ?p"
    "write_attach sys (attach_line ?p fd (device_id device) (speed device)) (ce_vhci en) = (Ok (), ce_vhci en')"
    and reg: "ce_registry en' = (ce_registry en)(?p \<mapsto> \<lparr>re_server_addr = addr, re_busid = b,
        re_id_vendor = id_vendor device, re_id_product = id_product device, re_speed = speed device\<rparr>)"
    using attach_device_Ok [OF assms] unfolding VhciDriver_simps VhciDriver_writes
    by (metis ClientEngine.select_convs(1,2))
  obtain ps q where q: "driver_list_ports sys (ce_vhci en) = Ok ps" "q \<in> set ps" "vp_port q = ?p"
    "vp_hub q = hub_for (speed device)" "vp_status q = Port_Free"
    using driver_find_free_port_sound [OF run(2)] by blast
  have attached: "\<exists>ds' d. get_imported_devices (VhciDriver sys) (en'\<lparr>ce_vhci := k\<rparr>) = Ok ds' \<and>
      filter (\<lambda>x. im_port x \<noteq> ?p) ds' = in_use (ce_registry en) ps \<and> d \<in> set ds' \<and> im_port d = ?p \<and>
      im_devid d = device_id device \<and> im_speed d = speed device \<and> im_server_addr d = Some addr \<and> im_busid d = Some b"
    if "driver_list_ports sys k = Ok ps'" "distinct (map vp_port ps)"
      "list_all2 (occupied ?p (device_id device) (speed device)) ps ps'" for k ps'
    using listed [OF that(1), of en'] attach_lists [OF that(2) q(2,3,5) that(3) reg] by auto
  have detached: "write_detach sys (dec_string (unat ?p)) k = (Ok (), ce_vhci en'') \<and>
      (\<forall>k'. get_imported_devices (VhciDriver sys) (en''\<lparr>ce_vhci := k'\<rparr>) =
         get_imported_devices (VhciDriver sys) \<lparr>ce_vhci = k', ce_registry = (ce_registry en)(?p := None)\<rparr>)"
    if "detach_device (VhciDriver sys) ?p (en'\<lparr>ce_vhci := k\<rparr>) = (Ok (), en'')" for k en''
    using detach_device_Ok [OF that] reg by (auto simp: VhciDriver_writes)
  have former: "get_imported_devices (VhciDriver sys) en = Ok (in_use (ce_registry en) ps)"
    using listed [OF q(1), of en] by simp
  show ?thesis
    by (intro exI [of _ device] exI [of _ ps] exI [of _ q] exI [of _ "in_use (ce_registry en) ps"]
          exI [of _ "attach_line ?p fd (device_id device) (speed device)"] conjI allI impI run q former
          attached split_attach_line) (auto dest: detached)
qed

definition sample_remote :: UsbDevice where
  "sample_remote =
     \<lparr>path = replicate 256 0, busid = as_bytes ''1-4'' @ replicate 29 0, busnum = 1, devnum = 4,
      speed = 3, id_vendor = 0x1234, id_product = 0x5678, bcd_device = 0, device_class = 3,
      device_subclass = 0, device_protocol = 0, configuration_value = 0, num_configurations = 1,
      num_interfaces = 0, interfaces = []\<rparr>"

definition sample_tcp :: tcp where
  "sample_tcp = Connected
     (feed (OpMessage_encode (RepImport \<lparr>import_status = 0, import_device = Some sample_remote\<rparr>))
        \<lparr>avail = [], end_error = UnexpectedEof\<rparr>) \<lparr>sent = [], room = None\<rparr>"

lemma sample_import: "attach_import ''host'' ''1-4'' sample_tcp = Ok sample_remote"
proof -
  let ?m = "RepImport \<lparr>import_status = 0, import_device = Some sample_remote\<rparr>"
  have "OpMessage_ok ?m"
    by (simp add: OpRepImport_ok_def UsbDevice_bare_def UsbDevice_ok_def sample_remote_def
      DEVICE_PATH_SIZE_def BUSID_SIZE_def)
  moreover have "busid_from_str ''1-4'' = Ok (as_bytes ''1-4'' @ replicate 29 0)"
    by (simp add: busid_from_str_Ok BUSID_SIZE_def is_ascii_def)
  ultimately show ?thesis
    using op_stream.read_encode [of ?m]
    by (simp add: attach_import_def sample_tcp_def tcp_connect_def import_exchange_def
      write_op_message_def write_buf_def write_all_def rbind_def map_err_def ok_or_def)
qed

text \<open>A status file with a device on port 0, before and after a second one is attached to port 1.\<close>

definition status_before :: string where
  "status_before = ''hub port sta spd dev      sockfd local_busid'' @ [CHR 0x0A] @
     ''hs  0000 006 002 00010002 000003 1-1'' @ [CHR 0x0A] @
     ''hs  0001 004 000 00000000 000000 0-0'' @ [CHR 0x0A]"

definition status_after :: string where
  "status_after = ''hub port sta spd dev      sockfd local_busid'' @ [CHR 0x0A] @
     ''hs  0000 006 002 00010002 000003 1-1'' @ [CHR 0x0A] @
     ''hs  0001 005 003 00010004 000007 1-2'' @ [CHR 0x0A]"

definition sample_sysfs :: "string sysfs" where
  "sample_sysfs = \<lparr>read_status = Ok, write_attach = (\<lambda>line k. (Ok (), status_after)),
     write_detach = (\<lambda>line k. (Ok (), status_before))\<rparr>"

definition sample_ports :: "bool \<Rightarrow> VhciPort list" where
  "sample_ports attached =
     [\<lparr>vp_hub = ''hs'', vp_port = 0, vp_status = InUse, vp_speed = 2, vp_devid = 0x10002,
       vp_sockfd = 3, vp_local_busid = ''1-1''\<rparr>,
      if attached
      then \<lparr>vp_hub = ''hs'', vp_port = 1, vp_status = Unknown 5, vp_speed = 3, vp_devid = 0x10004,
            vp_sockfd = 7, vp_local_busid = ''1-2''\<rparr>
      else \<lparr>vp_hub = ''hs'', vp_port = 1, vp_status = Port_Free, vp_speed = 0, vp_devid = 0,
            vp_sockfd = 0, vp_local_busid = ''0-0''\<rparr>]"

lemma parse_row:
  assumes "s \<noteq> []" "graphic (hd s)" "graphic (last s)" "\<not> starts_with ''hub'' s"
    and "split_whitespace s = [hub, p, st, spd, devid, fd, local]"
    and "parse_hex_u32 p = Some n" "parse_hex_u32 st = Some v" "parse_hex_u32 spd = Some w"
      "parse_hex_u32 devid = Some i" "parse_hex_u32 fd = Some f"
  shows "parse_status_line s = Ok (Some \<lparr>vp_hub = hub, vp_port = n, vp_status = PortStatus_from_raw v, vp_speed = w,
    vp_devid = i, vp_sockfd = f, vp_local_busid = local\<rparr>)"
  using assms by (simp add: parse_status_line_def trim_graphic_ends parse_field_def ok_or_def rbind_def)

lemmas row = graphic_def starts_with_def split_whitespace_def words_from_text parse_hex_u32_def from_str_radix_def
  hex_digit_def

lemma sample_status:
  "driver_list_ports sample_sysfs status_before = Ok (sample_ports False)"
  "driver_list_ports sample_sysfs status_after = Ok (sample_ports True)"
proof -
  have lines: "str_lines status_before = [''hub port sta spd dev      sockfd local_busid'',
      ''hs  0000 006 002 00010002 000003 1-1'', ''hs  0001 004 000 00000000 000000 0-0'']"
    "str_lines status_after = [''hub port sta spd dev      sockfd local_busid'',
      ''hs  0000 006 002 00010002 000003 1-1'', ''hs  0001 005 003 00010004 000007 1-2'']"
    by code_simp+
  have "parse_status_line ''hub port sta spd dev      sockfd local_busid'' = Ok None"
    by (simp add: parse_status_line_def trim_graphic_ends graphic_def starts_with_def)
  moreover have "parse_status_line ''hs  0000 006 002 00010002 000003 1-1'' = Ok (Some (sample_ports False ! 0))"
    using parse_row [of "''hs  0000 006 002 00010002 000003 1-1''" "''hs''" "''0000''" "''006''" "''002''" "''00010002''" "''000003''" "''1-1''"
      0 6 2 65538 3]
    by (simp add: row) (simp add: sample_ports_def PortStatus_from_raw_def)
  moreover have "parse_status_line ''hs  0001 004 000 00000000 000000 0-0'' = Ok (Some (sample_ports False ! 1))"
    using parse_row [of "''hs  0001 004 000 00000000 000000 0-0''" "''hs''" "''0001''" "''004''" "''000''" "''00000000''" "''000000''" "''0-0''"
      1 4 0 0 0]
    by (simp add: row) (simp add: sample_ports_def PortStatus_from_raw_def)
  moreover have "parse_status_line ''hs  0001 005 003 00010004 000007 1-2'' = Ok (Some (sample_ports True ! 1))"
    using parse_row [of "''hs  0001 005 003 00010004 000007 1-2''" "''hs''" "''0001''" "''005''" "''003''" "''00010004''" "''000007''" "''1-2''"
      1 5 3 65540 7]
    by (simp add: row) (simp add: sample_ports_def PortStatus_from_raw_def)
  ultimately show "driver_list_ports sample_sysfs status_before = Ok (sample_ports False)"
    "driver_list_ports sample_sysfs status_after = Ok (sample_ports True)"
    using lines by (simp_all add: driver_list_ports_def sample_sysfs_def map_err_def rbind_def parse_vhci_status_def sample_ports_def)
qed

lemma sample_attach:
  "attach_device_linux (VhciDriver sample_sysfs) ''host'' ''1-4'' sample_tcp 7 (with_vhci status_before) =
     (Ok \<lparr>ad_port = 1, ad_busid = ''1-4'', ad_server_addr = ''host'', ad_id_vendor = 0x1234,
          ad_id_product = 0x5678, ad_speed = 3\<rparr>,
      snd (attach_device_linux (VhciDriver sample_sysfs) ''host'' ''1-4'' sample_tcp 7 (with_vhci status_before)))"
proof -
  have "driver_find_free_port sample_sysfs 3 status_before = Ok 1"
    by (simp add: driver_find_free_port_def sample_status rbind_def sample_ports_def find_free_port_in_list_def ok_or_def)
  moreover have "hci_attach (VhciDriver sample_sysfs) 1 7 devid 3 status_before = (Ok (), status_after)" for devid
    by (simp add: VhciDriver_writes sample_sysfs_def)
  ultimately show ?thesis unfolding attach_device_linux_def sample_import
    by (simp add: sample_remote_def with_vhci_def)
qed

theorem attach_list_detach_witness:
  "\<exists>en' ds' d. attach_device_linux (VhciDriver sample_sysfs) ''host'' ''1-4'' sample_tcp 7 (with_vhci status_before) =
       (Ok \<lparr>ad_port = 1, ad_busid = ''1-4'', ad_server_addr = ''host'', ad_id_vendor = 0x1234,
          ad_id_product = 0x5678, ad_speed = 3\<rparr>, en') \<and>
     get_imported_devices (VhciDriver sample_sysfs) (en'\<lparr>ce_vhci := status_after\<rparr>) = Ok ds' \<and> d \<in> set ds' \<and>
     im_port d = 1 \<and> im_devid d = 0x10004 \<and> im_server_addr d = Some ''host'' \<and> im_busid d = Some ''1-4''"
proof -
  have "device_id sample_remote = 0x10004" "speed sample_remote = 3"
    by (simp_all add: device_id_def sample_remote_def)
  then have occ: "list_all2 (occupied 1 (device_id sample_remote) (speed sample_remote)) (sample_ports False) (sample_ports True)"
    "device_id sample_remote = 0x10004"
    by (simp_all add: sample_ports_def occupied_def)
  have dist: "distinct (map vp_port (sample_ports False))" by (simp add: sample_ports_def)
  have v: "ce_vhci (with_vhci status_before) = status_before" by (simp add: with_vhci_def)
  let ?dev = "\<lparr>ad_port = 1, ad_busid = ''1-4'', ad_server_addr = ''host'', ad_id_vendor = 0x1234,
          ad_id_product = 0x5678, ad_speed = 3\<rparr>"
  obtain en' where en': "attach_device_linux (VhciDriver sample_sysfs) ''host'' ''1-4'' sample_tcp 7 (with_vhci status_before) =
      (Ok ?dev, en')" using sample_attach by blast
  have "\<exists>ds. \<forall>k ps'. driver_list_ports sample_sysfs k = Ok ps' \<longrightarrow> distinct (map vp_port (sample_ports False)) \<longrightarrow>
       list_all2 (occupied 1 (device_id sample_remote) (speed sample_remote)) (sample_ports False) ps' \<longrightarrow>
       (\<exists>ds' d. get_imported_devices (VhciDriver sample_sysfs) (en'\<lparr>ce_vhci := k\<rparr>) = Ok ds' \<and>
          filter (\<lambda>x. im_port x \<noteq> 1) ds' = ds \<and> d \<in> set ds' \<and> im_port d = 1 \<and>
          im_devid d = device_id sample_remote \<and> im_speed d = speed sample_remote \<and>
          im_server_addr d = Some ''host'' \<and> im_busid d = Some ''1-4'')"
    using attach_list_detach [OF en'] unfolding sample_import v sample_status result.inject AttachedDevice.select_convs
    by (elim exE conjE) (intro exI, hypsubst, assumption)
  then obtain ds where all: "\<And>k ps'. driver_list_ports sample_sysfs k = Ok ps' \<Longrightarrow>
       list_all2 (occupied 1 (device_id sample_remote) (speed sample_remote)) (sample_ports False) ps' \<Longrightarrow>
       (\<exists>ds' d. get_imported_devices (VhciDriver sample_sysfs) (en'\<lparr>ce_vhci := k\<rparr>) = Ok ds' \<and>
          filter (\<lambda>x. im_port x \<noteq> 1) ds' = ds \<and> d \<in> set ds' \<and> im_port d = 1 \<and>
          im_devid d = device_id sample_remote \<and> im_speed d = speed sample_remote \<and>
          im_server_addr d = Some ''host'' \<and> im_busid d = Some ''1-4'')"
    using dist by blast
  from all [OF sample_status(2) occ(1)] en' show ?thesis unfolding occ(2) by blast
qed

end
