(* ===== verification/Daemon_Api.thy ===== *)
theory Daemon_Api
  imports Api_Rpc Daemon_Config Server_Export Client_Remote Client_Engine
begin

text \<open>
  \<open>extender-daemon/src/api_server.rs\<close> (the control interface of the daemon, on Linux) and
  \<open>extender-cli/src/client.rs\<close> (its caller). What a call finds outside the daemon is the record
  \<open>world\<close>: what enumeration and opening of USB devices give, the order in which the hash map of
  the registry is listed, the time since the start, the outcome of address parsing and of
  connecting, and the virtual host controller. What \<open>serde_json\<close> makes of requests and
  responses is the record \<open>rpc_text\<close>. Each handler reads its parameters and then does its work;
  the two parts are separate definitions.
\<close>

section \<open>State\<close>

record 'k world =
  w_local :: "(LocalUsbDevice list, ServerError) result"
  w_bind_local :: "(LocalUsbDevice list, ServerError) result"
  w_open :: "LocalUsbDevice list \<Rightarrow> string \<Rightarrow> (ManagedDevice, ServerError) result"
  w_order :: "string list"
  w_uptime :: u64
  w_parse_addr :: "string \<Rightarrow> (SocketAddr, string) result"
  w_connect :: "SocketAddr \<Rightarrow> tcp"
  w_fd :: i32
  w_vhci_new :: "(unit, ClientError) result"
  w_vhci :: "'k hci"

record 'k ApiState =
  api_registry :: ExportRegistry
  api_security :: SecurityConfig
  api_kernel :: 'k

definition ApiState_new :: "ExportRegistry \<Rightarrow> SecurityConfig \<Rightarrow> 'k \<Rightarrow> 'k ApiState" where
  "ApiState_new registry security k =
     \<lparr>api_registry = registry, api_security = security, api_kernel = k\<rparr>"

type_synonym 'k handler = "'k ApiState \<Rightarrow> (json, JsonRpcError) result \<times> 'k ApiState"

section \<open>Parameters\<close>

definition quoted :: "string \<Rightarrow> string" where
  "quoted s = CHR 0x27 # s @ [CHR 0x27]"

definition required :: "json option \<Rightarrow> (json, JsonRpcError) result" where
  "required params = ok_or params (invalid_params ''missing params'')"

definition str_param :: "string \<Rightarrow> json \<Rightarrow> (string, JsonRpcError) result" where
  "str_param key params =
     ok_or (Option.bind (json_get key params) as_str) (invalid_params (''missing '' @ quoted key))"

definition u64_param :: "string \<Rightarrow> json \<Rightarrow> (u64, JsonRpcError) result" where
  "u64_param key params =
     ok_or (Option.bind (json_get key params) as_u64) (invalid_params (''missing '' @ quoted key))"

definition bus_id_param :: "json option \<Rightarrow> (string, JsonRpcError) result" where
  "bus_id_param params = rbind (required params) (str_param ''bus_id'')"

definition host_port_params :: "json option \<Rightarrow> (string \<times> u16, JsonRpcError) result" where
  "host_port_params params =
     rbind (required params) (\<lambda>p.
     rbind (str_param ''host'' p) (\<lambda>host.
     rbind (u64_param ''port'' p) (\<lambda>port. Ok (host, ucast port))))"

definition attach_params :: "json option \<Rightarrow> (string \<times> u16 \<times> string, JsonRpcError) result" where
  "attach_params params =
     rbind (required params) (\<lambda>p.
     rbind (str_param ''host'' p) (\<lambda>host.
     rbind (u64_param ''port'' p) (\<lambda>port.
     rbind (str_param ''bus_id'' p) (\<lambda>bus_id. Ok (host, ucast port, bus_id)))))"

definition port_param :: "json option \<Rightarrow> (u32, JsonRpcError) result" where
  "port_param params =
     rbind (required params) (\<lambda>p. rbind (u64_param ''port'' p) (\<lambda>port. Ok (ucast port)))"

definition socket_addr :: "'k world \<Rightarrow> string \<Rightarrow> u16 \<Rightarrow> (SocketAddr, JsonRpcError) result" where
  "socket_addr w host port =
     map_err (\<lambda>e. invalid_params (''invalid address: '' @ e))
       (w_parse_addr w (host @ '':'' @ dec_string (unat port)))"

section \<open>Handlers\<close>

definition speed_to_api :: "u32 \<Rightarrow> UsbSpeed" where
  "speed_to_api s =
     (if s = 1 then Low else if s = 2 then Full else if s = 3 then High else if s = 5 then Super
      else UnknownSpeed)"

definition local_to_device_info :: "LocalUsbDevice \<Rightarrow> bool \<Rightarrow> DeviceInfo" where
  "local_to_device_info d is_bound =
     \<lparr>di_bus_id = ld_bus_id d, di_vendor_id = ld_vendor_id d, di_product_id = ld_product_id d,
      di_manufacturer = ld_manufacturer d, di_product = ld_product d,
      di_device_class = ld_device_class d, di_speed = speed_to_api (ld_speed d), di_is_bound = is_bound\<rparr>"

definition handle_list_local_devices :: "'k world \<Rightarrow> 'k handler" where
  "handle_list_local_devices w st =
     (rbind (map_err (\<lambda>_. internal_error ''USB enumeration failed'') (w_local w)) (\<lambda>local_devices.
      Ok (JArray (map (\<lambda>d. DeviceInfo_to_value (local_to_device_info d False)) local_devices))), st)"

definition exported_info :: "string \<Rightarrow> ExportedDevice \<Rightarrow> ExportedDeviceInfo" where
  "exported_info bus_id exported =
     \<lparr>ei_bus_id = bus_id, ei_vendor_id = ld_vendor_id (ex_device exported),
      ei_product_id = ld_product_id (ex_device exported),
      ei_manufacturer = ld_manufacturer (ex_device exported), ei_product = ld_product (ex_device exported),
      ei_device_class = ld_device_class (ex_device exported),
      ei_speed = speed_to_api (ld_speed (ex_device exported)),
      ei_num_clients = (if ex_active_session exported \<noteq> None then 1 else 0)\<rparr>"

definition handle_list_exported_devices :: "'k world \<Rightarrow> 'k handler" where
  "handle_list_exported_devices w st =
     (Ok (JArray (map (\<lambda>b. ExportedDeviceInfo_to_value (exported_info b (the (reg_devices (api_registry st) b))))
        (w_order w))), st)"

definition remote_info :: "RemoteDevice \<Rightarrow> DeviceInfo" where
  "remote_info d =
     \<lparr>di_bus_id = rd_busid d, di_vendor_id = rd_id_vendor d, di_product_id = rd_id_product d,
      di_manufacturer = None, di_product = None, di_device_class = rd_device_class d,
      di_speed = speed_to_api (rd_speed d), di_is_bound = False\<rparr>"

definition list_remote :: "'k world \<Rightarrow> string \<Rightarrow> u16 \<Rightarrow> 'k handler" where
  "list_remote w host port st =
     (rbind (socket_addr w host port) (\<lambda>addr.
      rbind (map_err (\<lambda>_. internal_error ''remote list failed'') (list_remote_devices addr (w_connect w addr)))
        (\<lambda>remote_devices. Ok (JArray (map (\<lambda>d. DeviceInfo_to_value (remote_info d)) remote_devices)))), st)"

definition handle_list_remote_devices :: "'k world \<Rightarrow> json option \<Rightarrow> 'k handler" where
  "handle_list_remote_devices w params st =
     (case host_port_params params of
        Ok (host, port) \<Rightarrow> list_remote w host port st
      | Err e \<Rightarrow> (Err e, st) | Panic \<Rightarrow> (Panic, st))"

definition acl_check :: "'k world \<Rightarrow> SecurityConfig \<Rightarrow> string \<Rightarrow> (unit, JsonRpcError) result" where
  "acl_check w security bus_id =
     rbind (map_err (\<lambda>_. internal_error ''USB enumeration failed'') (w_local w)) (\<lambda>local_devices.
     rbind (ok_or (find (\<lambda>d. ld_bus_id d = bus_id) local_devices)
              (invalid_params (''device '' @ quoted bus_id @ '' not found''))) (\<lambda>device.
     if \<not> is_device_allowed (ld_vendor_id device) (ld_product_id device) security
     then Err (internal_error (''device '' @ hex4 (ld_vendor_id device) @ '':'' @
            hex4 (ld_product_id device) @ '' is not allowed by ACL policy''))
     else Ok ()))"

definition bind :: "'k world \<Rightarrow> string \<Rightarrow> 'k handler" where
  "bind w bus_id st =
     (case acl_check w (api_security st) bus_id of
        Err e \<Rightarrow> (Err e, st)
      | Panic \<Rightarrow> (Panic, st)
      | Ok _ \<Rightarrow>
          (case bind_device (api_registry st) (w_bind_local w) (w_open w) bus_id of
             (r, reg) \<Rightarrow>
               (rbind (map_err (\<lambda>_. internal_error ''bind device failed'') r) (\<lambda>_.
                Ok (json_object [(''status'', JString ''ok''), (''bus_id'', JString bus_id)])),
                st\<lparr>api_registry := reg\<rparr>)))"

definition handle_bind_device :: "'k world \<Rightarrow> json option \<Rightarrow> 'k handler" where
  "handle_bind_device w params st =
     (case bus_id_param params of
        Ok bus_id \<Rightarrow> bind w bus_id st | Err e \<Rightarrow> (Err e, st) | Panic \<Rightarrow> (Panic, st))"

definition unbind :: "string \<Rightarrow> 'k handler" where
  "unbind bus_id st =
     (case unbind_device (api_registry st) bus_id of
        (r, reg) \<Rightarrow>
          (rbind (map_err (\<lambda>_. internal_error ''unbind device failed'') r) (\<lambda>session.
           Ok (json_object [(''status'', JString ''ok''), (''bus_id'', JString bus_id),
                            (''had_active_session'', JBool (session \<noteq> None))])),
           st\<lparr>api_registry := reg\<rparr>))"

definition handle_unbind_device :: "json option \<Rightarrow> 'k handler" where
  "handle_unbind_device params st =
     (case bus_id_param params of
        Ok bus_id \<Rightarrow> unbind bus_id st | Err e \<Rightarrow> (Err e, st) | Panic \<Rightarrow> (Panic, st))"

text \<open>Every call makes an engine of its own, with an empty registry of imported devices.\<close>

definition attach :: "'k world \<Rightarrow> string \<Rightarrow> u16 \<Rightarrow> string \<Rightarrow> 'k handler" where
  "attach w host port bus_id st =
     (case rbind (socket_addr w host port) (\<lambda>addr.
           rbind (map_err (\<lambda>_. internal_error ''client initialization failed'') (w_vhci_new w)) (\<lambda>_. Ok addr)) of
        Err e \<Rightarrow> (Err e, st)
      | Panic \<Rightarrow> (Panic, st)
      | Ok addr \<Rightarrow>
          (case attach_device_linux (w_vhci w) addr bus_id (w_connect w addr) (w_fd w) (with_vhci (api_kernel st)) of
             (r, client_engine) \<Rightarrow>
               (rbind (map_err (\<lambda>_. internal_error ''attach device failed'') r) (\<lambda>attached.
                Ok (json_object [(''status'', JString ''ok''), (''port'', json_uint (ad_port attached)),
                                 (''bus_id'', JString bus_id)])),
                st\<lparr>api_kernel := ce_vhci client_engine\<rparr>)))"

definition handle_attach_device :: "'k world \<Rightarrow> json option \<Rightarrow> 'k handler" where
  "handle_attach_device w params st =
     (case attach_params params of
        Ok (host, port, bus_id) \<Rightarrow> attach w host port bus_id st
      | Err e \<Rightarrow> (Err e, st) | Panic \<Rightarrow> (Panic, st))"

definition detach :: "'k world \<Rightarrow> u32 \<Rightarrow> 'k handler" where
  "detach w port st =
     (case map_err (\<lambda>_. internal_error ''client initialization failed'') (w_vhci_new w) of
        Err e \<Rightarrow> (Err e, st)
      | Panic \<Rightarrow> (Panic, st)
      | Ok _ \<Rightarrow>
          (case detach_device (w_vhci w) port (with_vhci (api_kernel st)) of
             (r, client_engine) \<Rightarrow>
               (rbind (map_err (\<lambda>_. internal_error ''detach device failed'') r) (\<lambda>_.
                Ok (json_object [(''status'', JString ''ok''), (''port'', json_uint port)])),
                st\<lparr>api_kernel := ce_vhci client_engine\<rparr>)))"

definition handle_detach_device :: "'k world \<Rightarrow> json option \<Rightarrow> 'k handler" where
  "handle_detach_device w params st =
     (case port_param params of
        Ok port \<Rightarrow> detach w port st | Err e \<Rightarrow> (Err e, st) | Panic \<Rightarrow> (Panic, st))"

definition CARGO_PKG_VERSION :: string where "CARGO_PKG_VERSION = ''0.1.0''"

definition handle_get_status :: "'k world \<Rightarrow> 'k handler" where
  "handle_get_status w st =
     (let inner = map (\<lambda>b. the (reg_devices (api_registry st) b)) (w_order w);
          exported = length inner;
          active = length (filter (\<lambda>e. ex_active_session e \<noteq> None) inner)
      in (Ok (DaemonStatus_to_value
            \<lparr>ds_version = CARGO_PKG_VERSION, ds_uptime_secs = w_uptime w,
             ds_exported_devices = word_of_nat exported, ds_imported_devices = 0,
             ds_active_connections = word_of_nat active\<rparr>), st))"

definition device_info :: "'k world \<Rightarrow> string \<Rightarrow> 'k handler" where
  "device_info w bus_id st =
     (rbind (map_err (\<lambda>_. internal_error ''device enumeration failed'') (w_local w)) (\<lambda>local_devices.
      case find (\<lambda>d. ld_bus_id d = bus_id) local_devices of
        Some d \<Rightarrow> Ok (DeviceInfo_to_value (local_to_device_info d False))
      | None \<Rightarrow> Err (invalid_params (''device '' @ quoted bus_id @ '' not found''))), st)"

definition handle_get_device_info :: "'k world \<Rightarrow> json option \<Rightarrow> 'k handler" where
  "handle_get_device_info w params st =
     (case bus_id_param params of
        Ok bus_id \<Rightarrow> device_info w bus_id st | Err e \<Rightarrow> (Err e, st) | Panic \<Rightarrow> (Panic, st))"

text \<open>The list of events in the parameters is read and not used.\<close>

definition handle_subscribe :: "'k handler" where
  "handle_subscribe st = (Ok (json_object [(''status'', JString ''ok'')]), st)"

definition handle_method :: "'k world \<Rightarrow> JsonRpcRequest \<Rightarrow> 'k handler" where
  "handle_method w req st =
     (let meth = rq_method req; params = rq_params req in
      if meth = ''list_local_devices'' then handle_list_local_devices w st
      else if meth = ''list_exported_devices'' then handle_list_exported_devices w st
      else if meth = ''list_remote_devices'' then handle_list_remote_devices w params st
      else if meth = ''bind_device'' then handle_bind_device w params st
      else if meth = ''unbind_device'' then handle_unbind_device params st
      else if meth = ''attach_device'' then handle_attach_device w params st
      else if meth = ''detach_device'' then handle_detach_device w params st
      else if meth = ''get_status'' then handle_get_status w st
      else if meth = ''get_device_info'' then handle_get_device_info w params st
      else if meth = ''subscribe'' then handle_subscribe st
      else (Err (method_not_found meth), st))"

definition rpc_response :: "json option \<Rightarrow> (json, JsonRpcError) result \<Rightarrow> JsonRpcResponse option" where
  "rpc_response i r =
     (case r of
        Ok v \<Rightarrow> Some (JsonRpcResponse_success i v)
      | Err e \<Rightarrow> Some (JsonRpcResponse_error i e)
      | Panic \<Rightarrow> None)"

definition dispatch ::
  "'k world \<Rightarrow> JsonRpcRequest \<Rightarrow> 'k ApiState \<Rightarrow> bool \<Rightarrow> JsonRpcResponse option \<times> 'k ApiState \<times> bool" where
  "dispatch w req st subscribed =
     (case handle_method w req st of
        (r, st') \<Rightarrow> (rpc_response (rq_id req) r, st', subscribed \<or> rq_method req = ''subscribe''))"

section \<open>A connection\<close>

record rpc_text =
  tx_request :: "JsonRpcRequest \<Rightarrow> (bytes, string) result"
  rx_request :: "bytes \<Rightarrow> (JsonRpcRequest, string) result"
  tx_response :: "JsonRpcResponse \<Rightarrow> (bytes, string) result"
  rx_response :: "bytes \<Rightarrow> (JsonRpcResponse, string) result"

datatype SessionError = Session_Framing FramingError | Session_Json string

text \<open>\<open>ss_outcome\<close> is what the loop has returned, if it has; \<open>ss_subscribed\<close> is whether it has a receiver.\<close>

record 'k api_session =
  ss_reader :: stream
  ss_writer :: sink
  ss_subscribed :: bool
  ss_state :: "'k ApiState"
  ss_outcome :: "(unit, SessionError) result option"

definition new_session :: "stream \<Rightarrow> sink \<Rightarrow> 'k ApiState \<Rightarrow> 'k api_session" where
  "new_session reader writer st =
     \<lparr>ss_reader = reader, ss_writer = writer, ss_subscribed = False, ss_state = st, ss_outcome = None\<rparr>"

definition send_bytes :: "(bytes, string) result \<Rightarrow> 'k api_session \<Rightarrow> 'k api_session" where
  "send_bytes serialized s =
     (case serialized of
        Err e \<Rightarrow> s\<lparr>ss_outcome := Some (Err (Session_Json e))\<rparr>
      | Panic \<Rightarrow> s\<lparr>ss_outcome := Some Panic\<rparr>
      | Ok bytes \<Rightarrow>
          (case write_message (ss_writer s) bytes of
             (writer, Ok _) \<Rightarrow> s\<lparr>ss_writer := writer\<rparr>
           | (writer, Err e) \<Rightarrow> s\<lparr>ss_writer := writer, ss_outcome := Some (Err (Session_Framing e))\<rparr>
           | (writer, Panic) \<Rightarrow> s\<lparr>ss_writer := writer, ss_outcome := Some Panic\<rparr>))"

definition handle_request :: "rpc_text \<Rightarrow> 'k world \<Rightarrow> 'k api_session \<Rightarrow> 'k api_session" where
  "handle_request codec w s =
     (case read_message (ss_reader s) of
        Err ConnectionClosed \<Rightarrow> s\<lparr>ss_outcome := Some (Ok ())\<rparr>
      | Err e \<Rightarrow> s\<lparr>ss_outcome := Some (Err (Session_Framing e))\<rparr>
      | Panic \<Rightarrow> s\<lparr>ss_outcome := Some Panic\<rparr>
      | Ok (msg, reader) \<Rightarrow>
          (case rx_request codec msg of
             Err e \<Rightarrow> send_bytes (tx_response codec (JsonRpcResponse_error None (parse_error e)))
                          (s\<lparr>ss_reader := reader\<rparr>)
           | Panic \<Rightarrow> s\<lparr>ss_reader := reader, ss_outcome := Some Panic\<rparr>
           | Ok request \<Rightarrow>
               (case dispatch w request (ss_state s) (ss_subscribed s) of
                  (response, st, subscribed) \<Rightarrow>
                    (let s' = s\<lparr>ss_reader := reader, ss_state := st, ss_subscribed := subscribed\<rparr> in
                     case response of
                       Some resp \<Rightarrow> send_bytes (tx_response codec resp) s'
                     | None \<Rightarrow> s'\<lparr>ss_outcome := Some Panic\<rparr>))))"

text \<open>
  A notification interrupts the read in progress, which loses the \<open>n\<close> bytes it has taken. An
  error of the receiver (it lags behind) is ignored.
\<close>

definition handle_notification ::
  "rpc_text \<Rightarrow> nat \<Rightarrow> (string, unit) result \<Rightarrow> 'k api_session \<Rightarrow> 'k api_session" where
  "handle_notification codec n notification s =
     (let s' = s\<lparr>ss_reader := (ss_reader s)\<lparr>avail := drop n (avail (ss_reader s))\<rparr>\<rparr> in
      case notification of
        Ok event_json \<Rightarrow>
          send_bytes (tx_request codec (JsonRpcRequest_notification ''event'' (Some (JString event_json)))) s'
      | _ \<Rightarrow> s')"

inductive session_step :: "rpc_text \<Rightarrow> 'k api_session \<Rightarrow> 'k api_session \<Rightarrow> bool" for codec where
  request: "ss_outcome s = None \<Longrightarrow> session_step codec s (handle_request codec w s)"
| notified: "ss_outcome s = None \<Longrightarrow> ss_subscribed s \<Longrightarrow>
    \<forall>e. \<exists>e'. read_message \<lparr>avail = take n (avail (ss_reader s)), end_error = e\<rparr> = Err e' \<Longrightarrow>
    session_step codec s (handle_notification codec n notification s)"
| shutdown: "ss_outcome s = None \<Longrightarrow> session_step codec s (s\<lparr>ss_outcome := Some (Ok ())\<rparr>)"

section \<open>The caller\<close>

datatype CliError =
    ConnectionFailed io_error
  | Framing FramingError
  | Serialize string
  | Deserialize string
  | RpcError JsonRpcError

fun method_to_rpc :: "ApiMethod \<Rightarrow> string \<times> json option" where
  "method_to_rpc ListLocalDevices = (method_name ListLocalDevices, None)"
| "method_to_rpc ListExportedDevices = (method_name ListExportedDevices, None)"
| "method_to_rpc GetStatus = (method_name GetStatus, None)"
| "method_to_rpc (ListRemoteDevices host port) =
     (method_name (ListRemoteDevices host port),
      Some (json_object [(''host'', JString host), (''port'', json_uint port)]))"
| "method_to_rpc (BindDevice bus_id) =
     (method_name (BindDevice bus_id), Some (json_object [(''bus_id'', JString bus_id)]))"
| "method_to_rpc (UnbindDevice bus_id) =
     (method_name (UnbindDevice bus_id), Some (json_object [(''bus_id'', JString bus_id)]))"
| "method_to_rpc (AttachDevice host port bus_id) =
     (method_name (AttachDevice host port bus_id),
      Some (json_object [(''host'', JString host), (''port'', json_uint port), (''bus_id'', JString bus_id)]))"
| "method_to_rpc (DetachDevice port) =
     (method_name (DetachDevice port), Some (json_object [(''port'', json_uint port)]))"
| "method_to_rpc (GetDeviceInfo bus_id) =
     (method_name (GetDeviceInfo bus_id), Some (json_object [(''bus_id'', JString bus_id)]))"
| "method_to_rpc (Subscribe events) =
     (method_name (Subscribe events), Some (json_object [(''events'', JArray (map JString events))]))"

definition method_request :: "ApiMethod \<Rightarrow> JsonRpcRequest" where
  "method_request m = (case method_to_rpc m of (name, params) \<Rightarrow> JsonRpcRequest_new name params 1)"

definition call_daemon ::
  "rpc_text \<Rightarrow> ApiMethod \<Rightarrow> (stream \<times> sink, io_error) result \<Rightarrow> bytes \<times> (json, CliError) result" where
  "call_daemon codec m connection =
     (case connection of
        Err e \<Rightarrow> ([], Err (ConnectionFailed e))
      | Panic \<Rightarrow> ([], Panic)
      | Ok (reader, writer) \<Rightarrow>
          (case tx_request codec (method_request m) of
             Err e \<Rightarrow> ([], Err (Serialize e))
           | Panic \<Rightarrow> ([], Panic)
           | Ok request_bytes \<Rightarrow>
               (case write_message writer request_bytes of
                  (writer', r) \<Rightarrow>
                    (sent writer',
                     rbind (map_err Framing r) (\<lambda>_.
                     rbind (map_err Framing (read_message reader)) (\<lambda>(response_bytes, _).
                     rbind (map_err Deserialize (rx_response codec response_bytes)) (\<lambda>response.
                     case rp_error response of
                       Some err \<Rightarrow> Err (RpcError err)
                     | None \<Rightarrow> Ok (case rp_result response of Some v \<Rightarrow> v | None \<Rightarrow> JNull))))))))"

section \<open>What a method does\<close>

text \<open>The specification of the interface: one operation per method, on typed arguments.\<close>

fun perform :: "'k world \<Rightarrow> ApiMethod \<Rightarrow> 'k handler" where
  "perform w ListLocalDevices = handle_list_local_devices w"
| "perform w ListExportedDevices = handle_list_exported_devices w"
| "perform w (ListRemoteDevices host port) = list_remote w host port"
| "perform w (BindDevice bus_id) = bind w bus_id"
| "perform w (UnbindDevice bus_id) = unbind bus_id"
| "perform w (AttachDevice host port bus_id) = attach w host port bus_id"
| "perform w (DetachDevice port) = detach w port"
| "perform w GetStatus = handle_get_status w"
| "perform w (GetDeviceInfo bus_id) = device_info w bus_id"
| "perform w (Subscribe events) = handle_subscribe"

lemmas param_defs = required_def str_param_def u64_param_def bus_id_param_def host_port_params_def
  attach_params_def port_param_def ok_or_def json_get_object

lemma number_param [simp]:
  "ucast (ucast (p :: u16) :: u64) = p" "ucast (ucast (q :: u32) :: u64) = q"
  by (rule bit_word_eqI; simp add: bit_simps)+

lemma handle_method_request: "handle_method w (method_request m) st = perform w m st"
  by (cases m)
     (simp_all add: handle_method_def method_request_def JsonRpcRequest_new_def param_defs
       handle_list_remote_devices_def handle_bind_device_def handle_unbind_device_def
       handle_attach_device_def handle_detach_device_def handle_get_device_info_def)

lemma method_request_simps [simp]:
  "rq_id (method_request m) = Some (JNumber 1)" "rq_method (method_request m) = method_name m"
  by (cases m; simp add: method_request_def JsonRpcRequest_new_def)+

lemma subscribe_name [simp]: "method_name m = ''subscribe'' \<longleftrightarrow> (\<exists>es. m = Subscribe es)"
  by (cases m) simp_all

lemma dispatch_request:
  "dispatch w (method_request m) st sub =
     (rpc_response (Some (JNumber 1)) (fst (perform w m st)), snd (perform w m st), sub \<or> (\<exists>es. m = Subscribe es))"
  by (simp add: dispatch_def handle_method_request case_prod_unfold)

section \<open>A call from end to end\<close>

abbreviation reply_of :: "(json, JsonRpcError) result \<Rightarrow> (json, CliError) result" where
  "reply_of r \<equiv> map_err RpcError r"

lemma send_bytes_fits:
  assumes "fits bs" "room (ss_writer s) = None"
  shows "send_bytes (Ok bs) s = s\<lparr>ss_writer := (ss_writer s)\<lparr>sent := sent (ss_writer s) @ frame bs\<rparr>\<rparr>"
  using assms by (simp add: send_bytes_def rpc_frames.write_sends)

lemma send_bytes_refused:
  assumes "\<not> fits bs" "length bs < 2 ^ 32"
  shows "send_bytes (Ok bs) s =
    s\<lparr>ss_outcome := Some (Err (Session_Framing (MessageTooLarge (word_of_nat (length bs)))))\<rparr>"
  using assms by (simp add: send_bytes_def write_message_refuses)

lemma handle_request_dispatch:
  assumes "ss_reader s = feed (frame bs) rest" "fits bs" "rx_request codec bs = Ok req"
    "dispatch w req (ss_state s) (ss_subscribed s) = (Some resp, st, sub)"
  shows "handle_request codec w s =
    send_bytes (tx_response codec resp) (s\<lparr>ss_reader := rest, ss_state := st, ss_subscribed := sub\<rparr>)"
  using assms by (simp add: handle_request_def rpc_frames.read_framed)

lemma call_daemon_exchange:
  assumes "tx_request codec (method_request m) = Ok bs" "fits bs" "room writer = None"
  shows "call_daemon codec m (Ok (reader, writer)) =
    (sent writer @ frame bs,
     rbind (map_err Framing (read_message reader)) (\<lambda>(response_bytes, _).
     rbind (map_err Deserialize (rx_response codec response_bytes)) (\<lambda>response.
     case rp_error response of
       Some err \<Rightarrow> Err (RpcError err)
     | None \<Rightarrow> Ok (case rp_result response of Some v \<Rightarrow> v | None \<Rightarrow> JNull))))"
  using assms by (simp add: call_daemon_def rpc_frames.write_sends)

text \<open>What the daemon does with a request, and what the caller makes of the answer.\<close>

lemma request_handled:
  assumes "tx_request codec (method_request m) = Ok req" "rx_request codec req = Ok (method_request m)" "fits req"
    and "perform w m st = (r, st')" "rpc_response (Some (JNumber 1)) r = Some resp" "tx_response codec resp = Ok bs"
  shows "handle_request codec w
      (new_session (received (fst (call_daemon codec m (Ok (received [], empty_sink))))) empty_sink st) =
    send_bytes (Ok bs) \<lparr>ss_reader = received [], ss_writer = empty_sink, ss_subscribed = \<exists>es. m = Subscribe es,
      ss_state = st', ss_outcome = None\<rparr>"
proof -
  have "fst (call_daemon codec m (Ok (received [], empty_sink))) = frame req"
    using call_daemon_exchange [OF assms(1,3)] by simp
  then show ?thesis
    using handle_request_dispatch [of "new_session (received (frame req)) empty_sink st" req "received []"
        codec "method_request m" w resp] assms
    by (simp add: new_session_def feed_def dispatch_request)
qed

lemma response_answered:
  assumes "tx_request codec (method_request m) = Ok req" "fits req" "fits bs"
    and "rpc_response (Some (JNumber 1)) r = Some resp" "rx_response codec bs = Ok resp"
  shows "snd (call_daemon codec m (Ok (received (frame bs), empty_sink))) = reply_of r"
proof -
  have "(case rp_error resp of Some err \<Rightarrow> Err (RpcError err)
      | None \<Rightarrow> Ok (case rp_result resp of Some v \<Rightarrow> v | None \<Rightarrow> JNull)) = reply_of r"
    using assms(4) by (auto simp: rpc_response_def JsonRpcResponse_success_def JsonRpcResponse_error_def
      map_err_def split: result.splits)
  moreover have "read_message (received (frame bs)) = Ok (bs, received [])"
    using rpc_frames.read_framed [of bs "received []"] assms(3) by (simp add: feed_def)
  ultimately show ?thesis using assms(5) by (simp add: call_daemon_exchange [OF assms(1,2), of empty_sink])
qed

text \<open>
  C38: A call of the command line tool against the daemon. The daemon decodes the request into
  the method that was called and its arguments, performs it once, and the caller gets the
  value or the error that the operation gave. Only when the response is longer than a frame may
  be (64 KiB) does the caller get an error of the connection instead, while the effect of the
  method has happened; the daemon closes the connection.
\<close>

theorem api_call_performs_method:
  assumes "tx_request codec (method_request m) = Ok req" "rx_request codec req = Ok (method_request m)" "fits req"
    and "perform w m st = (r, st')" "rpc_response (Some (JNumber 1)) r = Some resp"
    and "tx_response codec resp = Ok bs" "rx_response codec bs = Ok resp" "length bs < 2 ^ 32"
    and "s' = handle_request codec w
      (new_session (received (fst (call_daemon codec m (Ok (received [], empty_sink))))) empty_sink st)"
  shows "ss_state s' = st' \<and> ss_subscribed s' = (\<exists>es. m = Subscribe es) \<and>
    snd (call_daemon codec m (Ok (received (sent (ss_writer s')), empty_sink))) =
      (if fits bs then reply_of r else Err (Framing ConnectionClosed)) \<and>
    ss_outcome s' = (if fits bs then None
       else Some (Err (Session_Framing (MessageTooLarge (word_of_nat (length bs))))))"
proof -
  note s' = request_handled [OF assms(1-6), folded assms(9)]
  show ?thesis
  proof (cases "fits bs")
    case True
    then show ?thesis using s' response_answered [OF assms(1,3) True assms(5,7)] by (simp add: send_bytes_fits)
  next
    case False
    then show ?thesis
      using s' assms(8)
      by (simp add: send_bytes_refused call_daemon_exchange [OF assms(1,3), of empty_sink] read_message_closed)
  qed
qed

section \<open>The access list and the registry\<close>

text \<open>
  What can happen to the state of the daemon. A request is dispatched; the USB/IP server works on
  the registry; a bind request that passed the access check and opened its device, while other
  tasks ran, enters it (\<open>open_for_bind\<close> saw an earlier registry, \<open>reg0\<close>). The check and the bind
  enumerate the devices separately: \<open>steady\<close> says that a bus ID found both times belongs to the
  same model of device.
\<close>

definition steady :: "'k world \<Rightarrow> bool" where
  "steady w \<longleftrightarrow>
     (\<forall>ds ds' b d d'. w_local w = Ok ds \<longrightarrow> w_bind_local w = Ok ds' \<longrightarrow>
        find (\<lambda>d. ld_bus_id d = b) ds = Some d \<longrightarrow> find (\<lambda>d. ld_bus_id d = b) ds' = Some d' \<longrightarrow>
        ld_vendor_id d' = ld_vendor_id d \<and> ld_product_id d' = ld_product_id d)"

fun is_bind :: "reg_event \<Rightarrow> bool" where
  "is_bind (Bind _ _ _) = True"
| "is_bind _ = False"

inductive daemon_step :: "instant \<times> 'k ApiState \<Rightarrow> instant \<times> 'k ApiState \<Rightarrow> bool" where
  request: "steady w \<Longrightarrow> daemon_step (now, st) (now, fst (snd (dispatch w req st sub)))"
| bound: "steady (w :: 'k world) \<Longrightarrow> acl_check w (api_security st) b = Ok () \<Longrightarrow>
    open_for_bind reg0 (w_bind_local w) (w_open w) b = Ok (loc, handle) \<Longrightarrow>
    daemon_step (now, st) (now, st\<lparr>api_registry := snd (bind_device_with (api_registry st) b loc handle)\<rparr>)"
| server: "reg_step (now, api_registry st) e (now', reg) \<Longrightarrow> \<not> is_bind e \<Longrightarrow>
    daemon_step (now, st) (now', st\<lparr>api_registry := reg\<rparr>)"

definition exports_allowed :: "'k ApiState \<Rightarrow> bool" where
  "exports_allowed st \<longleftrightarrow>
     (\<forall>b e. reg_devices (api_registry st) b = Some e \<longrightarrow>
        is_device_allowed (ld_vendor_id (ex_device e)) (ld_product_id (ex_device e)) (api_security st))"

lemma opened_is_allowed:
  assumes "steady w" "acl_check w security b = Ok u"
    and "open_for_bind reg0 (w_bind_local w) (w_open w) b = Ok (loc, handle)"
  shows "is_device_allowed (ld_vendor_id loc) (ld_product_id loc) security"
proof -
  obtain ds d where "w_local w = Ok ds" "find (\<lambda>d. ld_bus_id d = b) ds = Some d"
    and allowed: "is_device_allowed (ld_vendor_id d) (ld_product_id d) security"
    using assms(2) by (auto simp: acl_check_def rbind_eq_Ok map_err_eq_Ok ok_or_def
      split: option.split_asm if_split_asm)
  moreover obtain ds' where "w_bind_local w = Ok ds'" "find (\<lambda>d. ld_bus_id d = b) ds' = Some loc"
    using assms(3) by (auto simp: open_for_bind_def rbind_eq_Ok ok_or_def
      split: option.split_asm if_split_asm)
  ultimately have "ld_vendor_id loc = ld_vendor_id d \<and> ld_product_id loc = ld_product_id d"
    using assms(1) unfolding steady_def by blast
  then show ?thesis using allowed by simp
qed

text \<open>A bind that succeeded exported a device of that bus ID found by the enumeration.\<close>

lemma bind_Ok:
  assumes "bind w b st = (Ok v, st')"
  shows "\<exists>ds loc handle. w_bind_local w = Ok ds \<and> loc \<in> set ds \<and> ld_bus_id loc = b \<and>
    api_registry st' = (api_registry st)\<lparr>reg_devices := (reg_devices (api_registry st))(b \<mapsto>
      \<lparr>ex_device = loc, ex_handle = handle, ex_active_session = None, ex_session_state = None\<rparr>)\<rparr>"
proof -
  obtain loc handle where o: "open_for_bind (api_registry st) (w_bind_local w) (w_open w) b = Ok (loc, handle)"
    and r: "bind_device_with (api_registry st) b loc handle = (Ok (), api_registry st')"
    using assms by (auto simp: bind_def bind_device_def rbind_eq_Ok map_err_eq_Ok split: result.splits prod.splits)
  obtain ds where ds: "w_bind_local w = Ok ds" and f: "find (\<lambda>d. ld_bus_id d = b) ds = Some loc"
    using o by (auto simp: open_for_bind_def rbind_eq_Ok ok_or_def split: option.split_asm if_split_asm)
  have "loc \<in> set ds" "ld_bus_id loc = b"
    using f by (auto simp: find_Some_iff)
  moreover have "api_registry st' = (api_registry st)\<lparr>reg_devices := (reg_devices (api_registry st))(b \<mapsto>
      \<lparr>ex_device = loc, ex_handle = handle, ex_active_session = None, ex_session_state = None\<rparr>)\<rparr>"
    using r unfolding bind_device_with_def by (simp split: if_split_asm)
  ultimately show ?thesis using ds by blast
qed

lemma exports_allowed_insert:
  assumes "exports_allowed st" "is_device_allowed (ld_vendor_id loc) (ld_product_id loc) (api_security st)"
    and "bind_device_with (api_registry st) b loc handle = (r, reg)"
  shows "exports_allowed (st\<lparr>api_registry := reg\<rparr>)"
  using assms by (auto simp: exports_allowed_def bind_device_with_def split: if_splits)

lemma exports_allowed_bind: "steady w \<Longrightarrow> exports_allowed st \<Longrightarrow> exports_allowed (snd (bind w b st))"
  by (auto simp: bind_def bind_device_def split: result.split prod.split
    intro: exports_allowed_insert opened_is_allowed)

lemma exports_allowed_unbind: "exports_allowed st \<Longrightarrow> exports_allowed (snd (unbind b st))"
  by (auto simp: exports_allowed_def unbind_def unbind_device_def split: option.splits if_splits)

lemma attach_keeps_registry:
  "api_registry (snd (attach w host port b st)) = api_registry st"
  "api_security (snd (attach w host port b st)) = api_security st"
  "api_registry (snd (detach w p st)) = api_registry st"
  "api_security (snd (detach w p st)) = api_security st"
  by (auto simp: attach_def detach_def split: result.splits prod.splits)

lemma handle_method_keeps_exports:
  assumes "steady w" "exports_allowed st"
  shows "exports_allowed (snd (handle_method w req st)) \<and>
    api_security (snd (handle_method w req st)) = api_security st"
proof -
  have "exports_allowed (snd (attach w host port b st))" "exports_allowed (snd (detach w p st))" for host port b p
    using assms(2) by (simp_all add: exports_allowed_def attach_keeps_registry)
  moreover have "api_security (snd (bind w b st)) = api_security st"
    "api_security (snd (unbind b st)) = api_security st" for b
    by (simp_all add: bind_def unbind_def case_prod_unfold split: result.split)
  ultimately show ?thesis
    using assms exports_allowed_bind [OF assms] exports_allowed_unbind [OF assms(2)]
    by (simp add: handle_method_def Let_def attach_keeps_registry handle_list_local_devices_def
      handle_list_exported_devices_def handle_list_remote_devices_def list_remote_def
      handle_bind_device_def handle_unbind_device_def handle_attach_device_def handle_detach_device_def
      handle_get_status_def handle_get_device_info_def device_info_def handle_subscribe_def
      split: result.split prod.split)
qed

text \<open>No operation of the server changes the device of an entry.\<close>

lemma reg_step_device:
  assumes "reg_step (now, reg) e (now', reg')" "\<not> is_bind e" "reg_devices reg' b = Some x"
  shows "\<exists>y. reg_devices reg b = Some y \<and> ex_device y = ex_device x"
  using assms
  by (auto simp: unbind_device_def try_acquire_ext_def acquire_entry_def release_def release_immediate_def
    expire_disconnected_session_def set_session_def clear_session_def Let_def
    split: option.splits SessionState.splits if_splits)

lemma daemon_step_exports:
  assumes "daemon_step (now, st) (now', st')" "exports_allowed st"
  shows "exports_allowed st' \<and> api_security st' = api_security st"
  using assms
proof (cases rule: daemon_step.cases)
  case (request w req sub)
  then show ?thesis
    using handle_method_keeps_exports [of w st req] assms(2) by (simp add: dispatch_def case_prod_unfold)
next
  case (bound w b reg0 loc handle)
  then show ?thesis
    using exports_allowed_insert [OF assms(2) opened_is_allowed [of w] surjective_pairing] by simp
next
  case (server e reg)
  have "\<exists>y. reg_devices (api_registry st) b = Some y \<and> ex_device y = ex_device x"
    if "reg_devices reg b = Some x" for b x by (rule reg_step_device [OF server(2,3) that])
  moreover have "st' = st\<lparr>api_registry := reg\<rparr>" using server by simp
  ultimately show ?thesis
    using assms(2) by (auto simp: exports_allowed_def) metis
qed

text \<open>
  C37: The access list is respected. Whatever the daemon is asked and however the requests, the
  USB/IP server and its timers interleave, a device that is exported is covered by no rule of
  the denied list and, unless the allowed list is empty, by a rule of the allowed list. (The
  rules are written in the documented form; the two enumerations of a bind agree.)
\<close>

theorem exports_respect_access_list:
  assumes "daemon_step\<^sup>*\<^sup>* (0, ApiState_new (with_session_timeout secs) (rules_config allow deny) k) (now, st)"
    and "reg_devices (api_registry st) b = Some e"
  shows "(\<forall>r \<in> set deny. \<not> rule_covers r (ld_vendor_id (ex_device e)) (ld_product_id (ex_device e))) \<and>
    (allow = [] \<or> (\<exists>r \<in> set allow. rule_covers r (ld_vendor_id (ex_device e)) (ld_product_id (ex_device e))))"
proof -
  let ?init = "ApiState_new (with_session_timeout secs) (rules_config allow deny) k"
  have "exports_allowed (snd ts) \<and> api_security (snd ts) = rules_config allow deny"
    if "daemon_step\<^sup>*\<^sup>* (0, ?init) ts" for ts
    using that
  proof (induction rule: rtranclp_induct)
    case base
    then show ?case by (simp add: exports_allowed_def ApiState_new_def with_session_timeout_def)
  next
    case (step ts ts')
    then show ?case
      using daemon_step_exports [of "fst ts" "snd ts" "fst ts'" "snd ts'"] by simp
  qed
  from this [OF assms(1)] show ?thesis
    using assms(2) is_device_allowed_rules
      [of "ld_vendor_id (ex_device e)" "ld_product_id (ex_device e)" allow deny]
    unfolding exports_allowed_def snd_conv by metis
qed

section \<open>A daemon with one device\<close>

definition sample_world :: "unit world" where
  "sample_world =
     \<lparr>w_local = Ok [sample_device ''1-1''], w_bind_local = Ok [sample_device ''1-1''],
      w_open = (\<lambda>_ b. Ok (sample_managed b)), w_order = [], w_uptime = 5, w_parse_addr = Ok,
      w_connect = (\<lambda>_. ConnectTimedOut), w_fd = 3, w_vhci_new = Ok (),
      w_vhci = \<lparr>hci_attach = (\<lambda>_ _ _ _ k. (Ok (), k)), hci_detach = (\<lambda>_ k. (Ok (), k)),
                hci_list_ports = (\<lambda>_. Ok []), hci_find_free_port = (\<lambda>_ _. Ok 0)\<rparr>\<rparr>"

definition sample_daemon :: "unit ApiState" where
  "sample_daemon = ApiState_new (with_session_timeout 30) (rules_config [] [(Some 0x046d, None)]) ()"

definition bound_reply :: json where
  "bound_reply = json_object [(''status'', JString ''ok''), (''bus_id'', JString ''1-1'')]"

definition sample_codec :: rpc_text where
  "sample_codec =
     \<lparr>tx_request = (\<lambda>_. Ok [1]), rx_request = (\<lambda>_. Ok (method_request (BindDevice ''1-1''))),
      tx_response = (\<lambda>_. Ok [2]),
      rx_response = (\<lambda>_. Ok (JsonRpcResponse_success (Some (JNumber 1)) bound_reply))\<rparr>"

lemma sample_allowed: "is_device_allowed 0x0bda 0x8153 (rules_config [] [(Some 0x046d, None)])"
  by (simp add: is_device_allowed_rules rule_covers_def)

lemma sample_bind:
  "perform sample_world (BindDevice ''1-1'') sample_daemon =
     (Ok bound_reply, sample_daemon\<lparr>api_registry :=
        snd (bind_device_with (with_session_timeout 30) ''1-1'' (sample_device ''1-1'') (sample_managed ''1-1''))\<rparr>)"
  by (simp add: bind_def acl_check_def sample_world_def sample_daemon_def ApiState_new_def sample_device_def
    ok_or_def map_err_def sample_allowed bind_device_def open_for_bind_def bind_device_with_def
    with_session_timeout_def bound_reply_def)

theorem api_call_performs_method_witness:
  "\<exists>s' :: unit api_session. s' = handle_request sample_codec sample_world
       (new_session (received (fst (call_daemon sample_codec (BindDevice ''1-1'') (Ok (received [], empty_sink)))))
          empty_sink sample_daemon) \<and>
     snd (call_daemon sample_codec (BindDevice ''1-1'') (Ok (received (sent (ss_writer s')), empty_sink))) =
       Ok bound_reply \<and>
     reg_devices (api_registry (ss_state s')) ''1-1'' \<noteq> None \<and> ss_outcome s' = None"
proof -
  have codec: "tx_request sample_codec (method_request (BindDevice ''1-1'')) = Ok [1]"
    "rx_request sample_codec [1] = Ok (method_request (BindDevice ''1-1''))" "fits [1]" "fits [2]"
    "tx_response sample_codec (JsonRpcResponse_success (Some (JNumber 1)) bound_reply) = Ok [2]"
    "rx_response sample_codec [2] = Ok (JsonRpcResponse_success (Some (JNumber 1)) bound_reply)"
    "length ([2] :: bytes) < 2 ^ 32"
    by (simp_all add: sample_codec_def fits_def)
  have resp: "rpc_response (Some (JNumber 1)) (Ok bound_reply) =
      Some (JsonRpcResponse_success (Some (JNumber 1)) bound_reply)" by (simp add: rpc_response_def)
  define s' where "s' = handle_request sample_codec sample_world
    (new_session (received (fst (call_daemon sample_codec (BindDevice ''1-1'') (Ok (received [], empty_sink)))))
       empty_sink sample_daemon)"
  from api_call_performs_method [OF codec(1-3) sample_bind resp codec(5-7) s'_def] codec(4) show ?thesis
    by (intro exI [of _ s'] conjI)
       (simp_all add: s'_def [symmetric] bind_device_with_def with_session_timeout_def map_err_def)
qed

theorem exports_respect_access_list_witness:
  "\<exists>now st e. daemon_step\<^sup>*\<^sup>* (0, sample_daemon) (now, st) \<and> reg_devices (api_registry st) ''1-1'' = Some e \<and>
     \<not> rule_covers (Some 0x046d, None) (ld_vendor_id (ex_device e)) (ld_product_id (ex_device e))"
proof -
  let ?st = "snd (perform sample_world (BindDevice ''1-1'') sample_daemon)"
  have "steady sample_world" by (simp add: steady_def sample_world_def)
  from daemon_step.request [OF this, of 0 sample_daemon "method_request (BindDevice ''1-1'')" False]
  have step: "daemon_step\<^sup>*\<^sup>* (0, sample_daemon) (0, ?st)" by (simp add: dispatch_request)
  obtain e where e: "reg_devices (api_registry ?st) ''1-1'' = Some e"
    by (simp only: sample_bind) (simp add: bind_device_with_def with_session_timeout_def)
  from exports_respect_access_list [OF step [unfolded sample_daemon_def] e [unfolded sample_daemon_def]] step e
  show ?thesis by (intro exI [of _ 0] exI [of _ ?st] exI [of _ e]) simp
qed

text \<open>
  Without the agreement of the two enumerations a denied device can be exported: another device
  is plugged into the same port between the check and the bind.
\<close>

definition swapped_world :: "unit world" where
  "swapped_world = sample_world\<lparr>w_bind_local := Ok [(sample_device ''1-1'')\<lparr>ld_vendor_id := 0x046d\<rparr>]\<rparr>"

lemma access_check_race:
  "\<not> exports_allowed (snd (perform swapped_world (BindDevice ''1-1'') sample_daemon))"
proof -
  have "\<not> is_device_allowed 0x046d 0x8153 (rules_config [] [(Some 0x046d, None)])"
    by (simp add: is_device_allowed_rules rule_covers_def)
  then show ?thesis
    by (simp add: bind_def acl_check_def swapped_world_def sample_world_def sample_daemon_def ApiState_new_def
      sample_device_def ok_or_def map_err_def sample_allowed bind_device_def open_for_bind_def
      bind_device_with_def with_session_timeout_def exports_allowed_def)
qed

text \<open>A port number is cut to its low bits: 65537 is taken for port 1.\<close>

lemma port_number_truncated:
  "host_port_params (Some (json_object [(''host'', JString h), (''port'', JNumber 65537)])) = Ok (h, 1)"
  by (simp add: param_defs as_u64_def)

end
