(* ===== verification/Server_Session.thy ===== *)
theory Server_Session
  imports Server_Export "HOL-Library.AList"
begin

text \<open>
  \<open>extender-server/src/session.rs\<close>: the URB loop of one imported device. The reader loop, one
  task per submitted URB, and the writer task run concurrently; they share the map \<open>in_flight\<close>
  behind a lock and a bounded channel to the writer. The model is a step function: an event
  names who moves, and a step runs from one \<open>await\<close> to the next, so that every interleaving
  of the tasks is a sequence of events. \<open>None\<close> means that the event is not possible. A read, a
  transfer or a write that blocks is an event (\<open>Read\<close>, \<open>Complete\<close>, \<open>Write\<close>) that happens later or
  never; a full channel blocks its senders. No task awaits anything while it holds the lock of
  \<open>in_flight\<close>, so what it does under the lock is part of one step. The device answers a command
  the same way whenever it is asked.

  An aborted task stops at its next \<open>await\<close>. Where it is when the abort takes effect is not
  determined, so an aborted task may still take steps until the event \<open>DropTask\<close>.
\<close>

section \<open>State\<close>

definition RESPONSE_CHANNEL_SIZE :: usize where
  "RESPONSE_CHANNEL_SIZE = 64"

text \<open>A transfer task: in the transfer, sending its reply, removing its entry, done.\<close>

datatype phase = Running | Sending UrbMessage | Removing | Finished

record task =
  t_cmd :: CmdSubmit
  t_phase :: phase
  t_aborted :: bool
  t_dropped :: bool

datatype reader_pc =
    Reading
  | Inserting u32 nat \<comment> \<open>the task is spawned, its entry not yet in the map\<close>
  | Replying UrbMessage \<comment> \<open>sending the reply to an unlink\<close>
  | Cleanup
  | Stopped

text \<open>\<open>s_requests\<close> and \<open>s_written\<close> record the messages read and written, in order.\<close>

record session =
  s_input :: stream
  s_tasks :: "task list"
  s_in_flight :: "(u32 \<times> nat) list"
  s_chan :: "UrbMessage list"
  s_writer_alive :: bool
  s_out :: sink
  s_reader :: reader_pc
  s_requests :: "UrbMessage list"
  s_written :: "UrbMessage list"

definition new_session :: "stream \<Rightarrow> sink \<Rightarrow> session" where
  "new_session input out =
     \<lparr>s_input = input, s_tasks = [], s_in_flight = [], s_chan = [], s_writer_alive = True,
      s_out = out, s_reader = Reading, s_requests = [], s_written = []\<rparr>"

section \<open>Handlers\<close>

text \<open>The reply to an unlink, the map afterwards, and the task to abort.\<close>

definition handle_unlink ::
  "CmdUnlink \<Rightarrow> (u32 \<times> nat) list \<Rightarrow> UrbMessage \<times> (u32 \<times> nat) list \<times> nat option" where
  "handle_unlink cmd in_flight =
     (let target_seqnum = cu_unlink_seqnum cmd;
          reply = (\<lambda>status. RetUnlink
            \<lparr>ru_header = \<lparr>hdr_command = Command_as_u32 RetUnlink_Code,
                           hdr_seqnum = hdr_seqnum (cu_header cmd),
                           hdr_devid = hdr_devid (cu_header cmd),
                           hdr_direction = hdr_direction (cu_header cmd),
                           hdr_ep = hdr_ep (cu_header cmd)\<rparr>,
             ru_status = status\<rparr>)
      in case map_of in_flight target_seqnum of
           Some tid \<Rightarrow> (reply ECONNRESET, AList.delete target_seqnum in_flight, Some tid)
         | None \<Rightarrow> (reply 0, in_flight, None))"

definition abort_task :: "nat \<Rightarrow> task list \<Rightarrow> task list" where
  "abort_task tid ts = (if tid < length ts then ts[tid := (ts ! tid)\<lparr>t_aborted := True\<rparr>] else ts)"

definition cancel_all_in_flight :: "session \<Rightarrow> session" where
  "cancel_all_in_flight s =
     s\<lparr>s_in_flight := [], s_tasks := fold abort_task (map snd (s_in_flight s)) (s_tasks s)\<rparr>"

section \<open>The tasks\<close>

text \<open>One turn of the reader loop: read a message and dispatch it.\<close>

definition reader_read :: "session \<Rightarrow> session option" where
  "reader_read s =
     (if s_reader s \<noteq> Reading then None
      else case read_urb_message (s_input s) of
        Ok (msg, input) \<Rightarrow>
          let s' = s\<lparr>s_input := input, s_requests := s_requests s @ [msg]\<rparr> in
          (case msg of
             CmdSubmit cmd \<Rightarrow>
               Some (s'\<lparr>s_tasks := s_tasks s @ [\<lparr>t_cmd = cmd, t_phase = Running, t_aborted = False,
                                                 t_dropped = False\<rparr>],
                        s_reader := Inserting (hdr_seqnum (cs_header cmd)) (length (s_tasks s))\<rparr>)
           | CmdUnlink cmd \<Rightarrow>
               (case handle_unlink cmd (s_in_flight s) of
                  (result, in_flight, aborted) \<Rightarrow>
                    Some (s'\<lparr>s_in_flight := in_flight,
                             s_tasks := (case aborted of None \<Rightarrow> s_tasks s
                                         | Some tid \<Rightarrow> abort_task tid (s_tasks s)),
                             s_reader := Replying result\<rparr>))
           | _ \<Rightarrow> Some s')
      | _ \<Rightarrow> Some (s\<lparr>s_reader := Cleanup\<rparr>))"

definition reader_insert :: "session \<Rightarrow> session option" where
  "reader_insert s =
     (case s_reader s of
        Inserting seqnum tid \<Rightarrow>
          Some (s\<lparr>s_in_flight := AList.update seqnum tid (s_in_flight s), s_reader := Reading\<rparr>)
      | _ \<Rightarrow> None)"

text \<open>\<open>tx.send\<close>: fails when the writer is gone, waits when the channel is full.\<close>

definition reader_reply :: "session \<Rightarrow> session option" where
  "reader_reply s =
     (case s_reader s of
        Replying result \<Rightarrow>
          if \<not> s_writer_alive s then Some (s\<lparr>s_reader := Cleanup\<rparr>)
          else if length (s_chan s) < RESPONSE_CHANNEL_SIZE
          then Some (s\<lparr>s_chan := s_chan s @ [result], s_reader := Reading\<rparr>)
          else None
      | _ \<Rightarrow> None)"

definition reader_cleanup :: "session \<Rightarrow> session option" where
  "reader_cleanup s =
     (if s_reader s = Cleanup then Some ((cancel_all_in_flight s)\<lparr>s_reader := Stopped\<rparr>) else None)"

definition live_task :: "nat \<Rightarrow> session \<Rightarrow> bool" where
  "live_task tid s \<longleftrightarrow> tid < length (s_tasks s) \<and> \<not> t_dropped (s_tasks s ! tid)"

definition set_phase :: "nat \<Rightarrow> phase \<Rightarrow> session \<Rightarrow> session" where
  "set_phase tid p s = s\<lparr>s_tasks := (s_tasks s)[tid := (s_tasks s ! tid)\<lparr>t_phase := p\<rparr>]\<rparr>"

definition task_complete :: "usb_ops \<Rightarrow> nat \<Rightarrow> bool \<Rightarrow> session \<Rightarrow> session option" where
  "task_complete handle tid joined s =
     (if live_task tid s \<and> t_phase (s_tasks s ! tid) = Running
      then Some (set_phase tid (Sending (handle_submit handle joined (t_cmd (s_tasks s ! tid)))) s)
      else None)"

definition task_send :: "nat \<Rightarrow> session \<Rightarrow> session option" where
  "task_send tid s =
     (if live_task tid s
      then case t_phase (s_tasks s ! tid) of
             Sending m \<Rightarrow>
               if \<not> s_writer_alive s then Some (set_phase tid Removing s)
               else if length (s_chan s) < RESPONSE_CHANNEL_SIZE
               then Some (set_phase tid Removing (s\<lparr>s_chan := s_chan s @ [m]\<rparr>))
               else None
           | _ \<Rightarrow> None
      else None)"

definition task_remove :: "nat \<Rightarrow> session \<Rightarrow> session option" where
  "task_remove tid s =
     (if live_task tid s \<and> t_phase (s_tasks s ! tid) = Removing
      then Some (set_phase tid Finished
             (s\<lparr>s_in_flight :=
                 AList.delete (hdr_seqnum (cs_header (t_cmd (s_tasks s ! tid)))) (s_in_flight s)\<rparr>))
      else None)"

definition task_drop :: "nat \<Rightarrow> session \<Rightarrow> session option" where
  "task_drop tid s =
     (if live_task tid s \<and> t_aborted (s_tasks s ! tid)
      then Some (s\<lparr>s_tasks := (s_tasks s)[tid := (s_tasks s ! tid)\<lparr>t_dropped := True\<rparr>]\<rparr>)
      else None)"

text \<open>The writer: one message from the channel to the connection; an error ends it.\<close>

definition writer_write :: "session \<Rightarrow> session option" where
  "writer_write s =
     (if s_writer_alive s
      then case s_chan s of
             [] \<Rightarrow> None
           | m # ms \<Rightarrow>
               (case write_urb_message (s_out s) m of
                  (out, Ok _) \<Rightarrow> Some (s\<lparr>s_chan := ms, s_out := out, s_written := s_written s @ [m]\<rparr>)
                | (out, _) \<Rightarrow> Some (s\<lparr>s_chan := [], s_out := out, s_writer_alive := False\<rparr>))
      else None)"

datatype session_event =
    Read | Insert | Reply | Clean
  | Complete nat bool | SendReply nat | RemoveEntry nat | DropTask nat
  | Write

fun session_step :: "usb_ops \<Rightarrow> session_event \<Rightarrow> session \<Rightarrow> session option" where
  "session_step handle Read s = reader_read s"
| "session_step handle Insert s = reader_insert s"
| "session_step handle Reply s = reader_reply s"
| "session_step handle Clean s = reader_cleanup s"
| "session_step handle (Complete tid joined) s = task_complete handle tid joined s"
| "session_step handle (SendReply tid) s = task_send tid s"
| "session_step handle (RemoveEntry tid) s = task_remove tid s"
| "session_step handle (DropTask tid) s = task_drop tid s"
| "session_step handle Write s = writer_write s"

text \<open>A run: the events in order, each possible where it occurs.\<close>

fun session_run :: "usb_ops \<Rightarrow> session_event list \<Rightarrow> session \<Rightarrow> session option" where
  "session_run handle [] s = Some s"
| "session_run handle (ev # evs) s =
     (case session_step handle ev s of None \<Rightarrow> None | Some s' \<Rightarrow> session_run handle evs s')"

section \<open>The invariant\<close>

definition is_ret :: "u32 \<Rightarrow> UrbMessage \<Rightarrow> bool" where
  "is_ret n m \<longleftrightarrow> (case m of RetSubmit r \<Rightarrow> hdr_seqnum (rs_header r) = n | _ \<Rightarrow> False)"

definition is_ret_unlink :: "u32 \<Rightarrow> UrbMessage \<Rightarrow> bool" where
  "is_ret_unlink n m \<longleftrightarrow> (case m of RetUnlink r \<Rightarrow> hdr_seqnum (ru_header r) = n | _ \<Rightarrow> False)"

definition is_cmd :: "u32 \<Rightarrow> UrbMessage \<Rightarrow> bool" where
  "is_cmd n m \<longleftrightarrow> (case m of CmdSubmit c \<Rightarrow> hdr_seqnum (cs_header c) = n | _ \<Rightarrow> False)"

definition is_unlink :: "u32 \<Rightarrow> UrbMessage \<Rightarrow> bool" where
  "is_unlink n m \<longleftrightarrow> (case m of CmdUnlink c \<Rightarrow> hdr_seqnum (cu_header c) = n | _ \<Rightarrow> False)"

definition task_for :: "u32 \<Rightarrow> task \<Rightarrow> bool" where
  "task_for n t \<longleftrightarrow> hdr_seqnum (cs_header (t_cmd t)) = n"

definition has_sent :: "task \<Rightarrow> bool" where
  "has_sent t \<longleftrightarrow> t_phase t = Removing \<or> t_phase t = Finished"

definition count :: "('a \<Rightarrow> bool) \<Rightarrow> 'a list \<Rightarrow> nat" where
  "count P xs = length (filter P xs)"

definition pending_reply :: "session \<Rightarrow> UrbMessage list" where
  "pending_reply s = (case s_reader s of Replying m \<Rightarrow> [m] | _ \<Rightarrow> [])"

definition task_ok :: "task \<Rightarrow> bool" where
  "task_ok t \<longleftrightarrow> CmdSubmit_ok (t_cmd t) \<and>
     (case t_phase t of
        Sending m \<Rightarrow> UrbMessage_ok m \<and> (\<forall>n. is_ret n m \<longleftrightarrow> task_for n t) \<and> (\<forall>n. \<not> is_ret_unlink n m)
      | _ \<Rightarrow> True)"

text \<open>
  Replies are well-formed; the connection holds the encodings of the messages written; while
  the writer lives, the replies sent are exactly one per task that has sent, and one per
  unlink request.
\<close>

definition replies_inv ::
  "task list \<Rightarrow> UrbMessage list \<Rightarrow> UrbMessage list \<Rightarrow> UrbMessage list \<Rightarrow> UrbMessage list \<Rightarrow> bool \<Rightarrow> bool" where
  "replies_inv ts wr ch pe rq alive \<longleftrightarrow>
     (\<forall>t \<in> set ts. task_ok t) \<and>
     (\<forall>m \<in> set (wr @ ch @ pe). UrbMessage_ok m) \<and>
     (\<forall>m \<in> set pe. \<forall>n. \<not> is_ret n m) \<and>
     length ch \<le> RESPONSE_CHANNEL_SIZE \<and>
     (\<forall>n. count (is_cmd n) rq = count (task_for n) ts) \<and>
     (\<forall>n. count (is_ret n) (wr @ ch) \<le> count (\<lambda>t. task_for n t \<and> has_sent t) ts) \<and>
     (\<forall>n. count (is_ret_unlink n) (wr @ ch @ pe) \<le> count (is_unlink n) rq) \<and>
     (alive \<longrightarrow>
        (\<forall>n. count (is_ret n) (wr @ ch) = count (\<lambda>t. task_for n t \<and> has_sent t) ts) \<and>
        (\<forall>n. count (is_ret_unlink n) (wr @ ch @ pe) = count (is_unlink n) rq))"

definition session_inv :: "session \<Rightarrow> bool" where
  "session_inv s \<longleftrightarrow>
     replies_inv (s_tasks s) (s_written s) (s_chan s) (pending_reply s) (s_requests s)
       (s_writer_alive s)"

lemma count_simps [simp]:
  "count P [] = 0" "count P (x # xs) = (if P x then 1 else 0) + count P xs"
  "count P (xs @ ys) = count P xs + count P ys"
  by (simp_all add: count_def)

lemma count_le_append: "count P ys \<le> count P (xs @ ys @ zs)"
  by simp

lemma count_mono: "(\<And>x. P x \<Longrightarrow> Q x) \<Longrightarrow> count P xs \<le> count Q xs"
  by (induction xs) auto

lemma count_update:
  "i < length xs \<Longrightarrow>
     count P (xs[i := y]) + (if P (xs ! i) then 1 else 0) = count P xs + (if P y then 1 else 0)"
proof (induction xs arbitrary: i)
  case (Cons x xs)
  then show ?case by (cases i) (auto simp: less_Suc_eq_0_disj)
qed simp

text \<open>Aborting or dropping a task changes neither its command nor its phase.\<close>

definition core :: "task \<Rightarrow> CmdSubmit \<times> phase" where
  "core t = (t_cmd t, t_phase t)"

lemma count_core:
  assumes "map core ts = map core ts'" "\<And>t t'. core t = core t' \<Longrightarrow> P t = P t'"
  shows "count P ts = count P ts'"
  using assms(1)
proof (induction ts arbitrary: ts')
  case (Cons t ts)
  then obtain t' ts'' where "ts' = t' # ts''" "core t = core t'" "map core ts = map core ts''"
    by (cases ts') auto
  then show ?case using Cons.IH [of ts''] assms(2) [of t t'] by simp
qed simp

lemma count_all: "(\<forall>x \<in> set xs. P x) \<longleftrightarrow> count P xs = length xs"
  unfolding count_def by (metis filter_True length_filter_less less_irrefl)

lemma task_preds_core:
  "core t = core t' \<Longrightarrow> task_for n t = task_for n t'" "core t = core t' \<Longrightarrow> has_sent t = has_sent t'"
  "core t = core t' \<Longrightarrow> task_ok t = task_ok t'"
  by (auto simp: core_def task_for_def has_sent_def task_ok_def split: phase.splits)

lemma replies_inv_core:
  assumes "map core ts = map core ts'"
  shows "replies_inv ts wr ch pe rq a \<longleftrightarrow> replies_inv ts' wr ch pe rq a"
proof -
  have "count (task_for n) ts = count (task_for n) ts'"
    "count (\<lambda>t. task_for n t \<and> has_sent t) ts = count (\<lambda>t. task_for n t \<and> has_sent t) ts'" for n
    by (rule count_core [OF assms]; use task_preds_core in blast)+
  moreover have "(\<forall>t \<in> set ts. task_ok t) \<longleftrightarrow> (\<forall>t \<in> set ts'. task_ok t)"
    unfolding count_all using count_core [OF assms, of task_ok] task_preds_core(3)
      map_eq_imp_length_eq [OF assms] by metis
  ultimately show ?thesis by (simp add: replies_inv_def)
qed

lemma core_abort: "map core (abort_task tid ts) = map core ts"
  by (auto simp: abort_task_def map_update core_def intro: list_update_same_conv [THEN iffD2])

lemma core_abort_all: "map core (fold abort_task tids ts) = map core ts"
  by (induction tids arbitrary: ts) (auto simp: core_abort)

lemma session_inv_new: "session_inv (new_session input out)"
  by (simp add: session_inv_def replies_inv_def new_session_def pending_reply_def)

section \<open>Every step keeps the invariant\<close>

lemma handle_unlink_reply:
  assumes "handle_unlink cmd fl = (m, fl', ab)"
  shows "UrbMessage_ok m" "\<not> is_ret n m" "is_ret_unlink n m \<longleftrightarrow> hdr_seqnum (cu_header cmd) = n"
  using assms
  by (auto simp: handle_unlink_def Let_def RetUnlink_ok_def is_ret_def is_ret_unlink_def
    split: option.splits)

lemma inv_read:
  assumes "session_inv s" "reader_read s = Some s'"
  shows "session_inv s'"
proof (cases "read_urb_message (s_input s)")
  case (Ok r)
  obtain msg input where r: "r = (msg, input)" by (cases r)
  have rd: "s_reader s = Reading" using assms(2) by (auto simp: reader_read_def split: if_splits)
  then have pe: "pending_reply s = []" by (simp add: pending_reply_def)
  have ok: "UrbMessage_ok msg" using urb_stream.read_ok Ok r by blast
  note inv = assms(1) [unfolded session_inv_def pe]
  show ?thesis
  proof (cases msg)
    case (CmdSubmit cmd)
    then have "s' = s\<lparr>s_input := input, s_requests := s_requests s @ [msg],
        s_tasks := s_tasks s @ [\<lparr>t_cmd = cmd, t_phase = Running, t_aborted = False, t_dropped = False\<rparr>],
        s_reader := Inserting (hdr_seqnum (cs_header cmd)) (length (s_tasks s))\<rparr>"
      using assms(2) Ok r rd by (simp add: reader_read_def Let_def)
    then show ?thesis
      using inv ok CmdSubmit
      by (auto simp: session_inv_def replies_inv_def pending_reply_def task_ok_def is_cmd_def
        is_unlink_def task_for_def has_sent_def)
  next
    case (CmdUnlink cmd)
    obtain m fl ab where h: "handle_unlink cmd (s_in_flight s) = (m, fl, ab)"
      by (cases "handle_unlink cmd (s_in_flight s)") auto
    then have s': "s' = s\<lparr>s_input := input, s_requests := s_requests s @ [msg], s_in_flight := fl,
        s_tasks := (case ab of None \<Rightarrow> s_tasks s | Some tid \<Rightarrow> abort_task tid (s_tasks s)),
        s_reader := Replying m\<rparr>"
      using assms(2) Ok r rd CmdUnlink by (simp add: reader_read_def Let_def)
    have c: "map core (s_tasks s') = map core (s_tasks s)"
      by (cases ab) (simp_all add: s' core_abort)
    have "replies_inv (s_tasks s) (s_written s) (s_chan s) [m] (s_requests s @ [msg]) (s_writer_alive s)"
      using inv handle_unlink_reply [OF h] CmdUnlink
      by (auto simp: replies_inv_def is_cmd_def is_unlink_def)
    then show ?thesis
      unfolding session_inv_def replies_inv_core [OF c] by (simp add: s' pending_reply_def)
  next
    case (RetSubmit x)
    then show ?thesis using assms(2) Ok r rd inv
      by (auto simp: reader_read_def Let_def session_inv_def replies_inv_def pending_reply_def
        is_cmd_def is_unlink_def)
  next
    case (RetUnlink x)
    then show ?thesis using assms(2) Ok r rd inv
      by (auto simp: reader_read_def Let_def session_inv_def replies_inv_def pending_reply_def
        is_cmd_def is_unlink_def)
  qed
qed (use assms in \<open>auto simp: reader_read_def session_inv_def pending_reply_def split: if_splits\<close>)

lemma inv_insert: "session_inv s \<Longrightarrow> reader_insert s = Some s' \<Longrightarrow> session_inv s'"
  by (auto simp: reader_insert_def session_inv_def pending_reply_def split: reader_pc.splits)

lemma replies_inv_push:
  assumes "replies_inv ts wr ch [m] rq a" "length ch < RESPONSE_CHANNEL_SIZE"
  shows "replies_inv ts wr (ch @ [m]) [] rq a"
proof -
  have "\<not> is_ret n m" for n using assms(1) by (simp add: replies_inv_def)
  then show ?thesis using assms unfolding replies_inv_def by simp
qed

lemma replies_inv_no_reply:
  assumes "replies_inv ts wr ch [m] rq a"
  shows "replies_inv ts wr ch [] rq False"
proof -
  have "count (is_ret_unlink n) wr + count (is_ret_unlink n) ch \<le> count (is_unlink n) rq" for n
  proof -
    have "count (is_ret_unlink n) (wr @ ch @ [m]) \<le> count (is_unlink n) rq"
      using assms unfolding replies_inv_def by blast
    then show ?thesis by (simp split: if_splits)
  qed
  then show ?thesis using assms by (auto simp: replies_inv_def)
qed

lemma inv_reply:
  assumes "session_inv s" "reader_reply s = Some s'"
  shows "session_inv s'"
proof -
  obtain m where m: "s_reader s = Replying m"
    using assms(2) by (auto simp: reader_reply_def split: reader_pc.splits)
  then have inv: "replies_inv (s_tasks s) (s_written s) (s_chan s) [m] (s_requests s) (s_writer_alive s)"
    using assms(1) by (simp add: session_inv_def pending_reply_def)
  show ?thesis
    using assms(2) m replies_inv_push [OF inv] replies_inv_no_reply [OF inv]
    by (auto simp: reader_reply_def session_inv_def pending_reply_def split: if_splits)
qed

lemma inv_cleanup: "session_inv s \<Longrightarrow> reader_cleanup s = Some s' \<Longrightarrow> session_inv s'"
  using replies_inv_core [OF core_abort_all]
  by (auto simp: reader_cleanup_def cancel_all_in_flight_def session_inv_def pending_reply_def
    split: if_splits)

lemma inv_drop: "session_inv s \<Longrightarrow> task_drop tid s = Some s' \<Longrightarrow> session_inv s'"
proof -
  assume inv: "session_inv s" and st: "task_drop tid s = Some s'"
  let ?ts = "(s_tasks s)[tid := (s_tasks s ! tid)\<lparr>t_dropped := True\<rparr>]"
  have "map core ?ts = map core (s_tasks s)"
    using st by (auto simp: map_update core_def task_drop_def live_task_def split: if_splits
      intro: list_update_same_conv [THEN iffD2])
  then show ?thesis
    using inv st replies_inv_core [of ?ts "s_tasks s"]
    by (auto simp: task_drop_def session_inv_def pending_reply_def split: if_splits)
qed

lemma replies_inv_dead:
  assumes "replies_inv ts wr ch pe rq a"
  shows "replies_inv ts wr [] pe rq False"
proof -
  have "count (is_ret n) wr + count (is_ret n) ch \<le> count (\<lambda>t. task_for n t \<and> has_sent t) ts"
    "count (is_ret_unlink n) wr + (count (is_ret_unlink n) ch + count (is_ret_unlink n) pe)
       \<le> count (is_unlink n) rq" for n
    using assms by (simp_all add: replies_inv_def)
  then have "count (is_ret n) wr \<le> count (\<lambda>t. task_for n t \<and> has_sent t) ts"
    "count (is_ret_unlink n) wr + count (is_ret_unlink n) pe \<le> count (is_unlink n) rq" for n
    by (meson add_leD1, smt (verit) add_leD2 add.left_commute)
  then show ?thesis using assms by (auto simp: replies_inv_def)
qed

lemma inv_write:
  assumes "session_inv s" "writer_write s = Some s'"
  shows "session_inv s'"
proof -
  obtain m ms where ch: "s_chan s = m # ms" and al: "s_writer_alive s"
    using assms(2) by (auto simp: writer_write_def split: if_splits list.splits)
  consider out where "s' = s\<lparr>s_chan := ms, s_out := out, s_written := s_written s @ [m]\<rparr>"
    | out where "s' = s\<lparr>s_chan := [], s_out := out, s_writer_alive := False\<rparr>"
    using assms(2) ch al by (auto simp: writer_write_def split: prod.splits result.splits)
  then show ?thesis
  proof cases
    case 1
    then show ?thesis
      using assms(1) ch by (simp add: session_inv_def replies_inv_def pending_reply_def)
  next
    case 2
    then show ?thesis
      using replies_inv_dead assms(1) by (simp add: session_inv_def pending_reply_def)
  qed
qed

text \<open>The steps of a task.\<close>

lemma inv_phase:
  assumes inv: "replies_inv ts wr ch pe rq a" and tid: "tid < length ts"
    and ok: "task_ok ((ts ! tid)\<lparr>t_phase := p\<rparr>)"
    and sent: "has_sent ((ts ! tid)\<lparr>t_phase := p\<rparr>) = has_sent (ts ! tid)"
  shows "replies_inv (ts[tid := (ts ! tid)\<lparr>t_phase := p\<rparr>]) wr ch pe rq a"
proof -
  let ?ts = "ts[tid := (ts ! tid)\<lparr>t_phase := p\<rparr>]"
  have "task_for n ((ts ! tid)\<lparr>t_phase := p\<rparr>) = task_for n (ts ! tid)" for n
    by (simp add: task_for_def)
  then have "count (task_for n) ?ts = count (task_for n) ts"
    "count (\<lambda>t. task_for n t \<and> has_sent t) ?ts = count (\<lambda>t. task_for n t \<and> has_sent t) ts" for n
    using count_update [OF tid, of "task_for n" "(ts ! tid)\<lparr>t_phase := p\<rparr>"] sent
      count_update [OF tid, of "\<lambda>t. task_for n t \<and> has_sent t" "(ts ! tid)\<lparr>t_phase := p\<rparr>"]
    by simp_all
  moreover have "\<forall>t \<in> set ?ts. task_ok t"
    using inv ok set_update_subset_insert [of ts tid] by (auto simp: replies_inv_def)
  ultimately show ?thesis using inv by (simp add: replies_inv_def)
qed

lemma inv_sent:
  assumes inv: "replies_inv ts wr ch pe rq a" and tid: "tid < length ts"
    and m: "t_phase (ts ! tid) = Sending m"
    and ch': "a \<and> length ch < RESPONSE_CHANNEL_SIZE \<and> ch' = ch @ [m] \<or> \<not> a \<and> ch' = ch"
  shows "replies_inv (ts[tid := (ts ! tid)\<lparr>t_phase := Removing\<rparr>]) wr ch' pe rq a"
proof -
  let ?t = "(ts ! tid)\<lparr>t_phase := Removing\<rparr>"
  let ?ts = "ts[tid := ?t]"
  have tok: "task_ok (ts ! tid)" using inv tid by (simp add: replies_inv_def)
  then have mok: "UrbMessage_ok m" "is_ret n m = task_for n (ts ! tid)" "\<not> is_ret_unlink n m" for n
    using m by (auto simp: task_ok_def)
  have tf: "task_for n ?t = task_for n (ts ! tid)" "has_sent ?t" "\<not> has_sent (ts ! tid)" for n
    using m by (simp_all add: task_for_def has_sent_def)
  have "count (task_for n) ?ts = count (task_for n) ts" for n
    using count_update [OF tid, of "task_for n" ?t] tf by (auto split: if_splits)
  moreover have "count (\<lambda>t. task_for n t \<and> has_sent t) ?ts =
      count (\<lambda>t. task_for n t \<and> has_sent t) ts + (if is_ret n m then 1 else 0)" for n
    using count_update [OF tid, of "\<lambda>t. task_for n t \<and> has_sent t" ?t] tf mok(2)
    by (auto split: if_splits)
  moreover have "\<forall>t \<in> set ?ts. task_ok t"
    using inv tok set_update_subset_insert [of ts tid ?t] by (auto simp: replies_inv_def task_ok_def)
  ultimately show ?thesis using inv mok ch' unfolding replies_inv_def by (elim disjE) (auto intro: le_SucI)
qed

lemma inv_complete:
  assumes "session_inv s" "task_complete handle tid joined s = Some s'" "usb_lawful handle"
  shows "session_inv s'"
proof -
  let ?t = "s_tasks s ! tid"
  let ?p = "Sending (handle_submit handle joined (t_cmd ?t))"
  have tid: "tid < length (s_tasks s)" "t_phase ?t = Running" and s': "s' = set_phase tid ?p s"
    using assms(2) by (auto simp: task_complete_def live_task_def split: if_splits)
  have ok: "CmdSubmit_ok (t_cmd ?t)"
    using assms(1) tid(1) by (simp add: session_inv_def replies_inv_def task_ok_def)
  then have "task_ok (?t\<lparr>t_phase := ?p\<rparr>)"
    using handle_submit_ok [OF assms(3) ok] handle_submit_RetSubmit [of handle joined "t_cmd ?t"]
    by (auto simp: task_ok_def is_ret_def is_ret_unlink_def task_for_def)
  then show ?thesis
    using inv_phase [OF assms(1) [unfolded session_inv_def] tid(1), of ?p] tid(2)
    by (simp add: s' set_phase_def session_inv_def pending_reply_def has_sent_def)
qed

lemma inv_send:
  assumes "session_inv s" "task_send tid s = Some s'"
  shows "session_inv s'"
proof -
  obtain m where tid: "tid < length (s_tasks s)" "t_phase (s_tasks s ! tid) = Sending m"
    using assms(2) by (auto simp: task_send_def live_task_def split: if_splits phase.splits)
  show ?thesis
    using assms(2) tid inv_sent [OF assms(1) [unfolded session_inv_def] tid]
    by (auto simp: task_send_def set_phase_def session_inv_def pending_reply_def split: if_splits)
qed

lemma inv_remove:
  assumes "session_inv s" "task_remove tid s = Some s'"
  shows "session_inv s'"
proof -
  have tid: "tid < length (s_tasks s)" "t_phase (s_tasks s ! tid) = Removing"
    using assms(2) by (auto simp: task_remove_def live_task_def split: if_splits)
  have "task_ok (s_tasks s ! tid)"
    using assms(1) tid(1) by (simp add: session_inv_def replies_inv_def)
  then have "task_ok ((s_tasks s ! tid)\<lparr>t_phase := Finished\<rparr>)" by (auto simp: task_ok_def)
  then show ?thesis
    using inv_phase [OF assms(1) [unfolded session_inv_def] tid(1), of Finished] assms(2) tid(2)
    by (auto simp: task_remove_def set_phase_def session_inv_def pending_reply_def has_sent_def
      split: if_splits)
qed

lemma session_inv_step:
  assumes "session_inv s" "session_step handle ev s = Some s'" "usb_lawful handle"
  shows "session_inv s'"
  using assms
  by (cases ev) (auto intro: inv_read inv_insert inv_reply inv_cleanup inv_complete inv_send
    inv_remove inv_drop inv_write)

lemma session_inv_run:
  "session_inv s \<Longrightarrow> session_run handle evs s = Some s' \<Longrightarrow> usb_lawful handle \<Longrightarrow> session_inv s'"
  by (induction evs arbitrary: s) (auto split: option.splits dest: session_inv_step)

section \<open>What reaches the client\<close>

lemma write_urb_message_sent:
  assumes "write_urb_message w m = (w', r)"
  shows "(r = Ok () \<and> sent w' = sent w @ UrbMessage_encode m) \<or>
    (r = Err (Io BrokenPipe) \<and>
      (\<exists>k < length (UrbMessage_encode m). sent w' = sent w @ take k (UrbMessage_encode m)))"
  using assms
  by (auto simp: write_urb_message_def write_buf_def write_all_def not_le split: option.splits if_splits)

definition output_inv :: "bytes \<Rightarrow> session \<Rightarrow> bool" where
  "output_inv bs0 s \<longleftrightarrow>
     (\<exists>rest. sent (s_out s) = bs0 @ concat (map UrbMessage_encode (s_written s)) @ rest \<and>
        (if s_writer_alive s then rest = []
         else \<exists>m k. UrbMessage_ok m \<and> k < length (UrbMessage_encode m) \<and> rest = take k (UrbMessage_encode m)))"

lemma output_inv_step:
  assumes "output_inv b s" "session_inv s" "session_step handle ev s = Some s'"
  shows "output_inv b s'"
proof (cases "ev = Write")
  case True
  then have al: "s_writer_alive s"
    using assms(3) by (auto simp: writer_write_def split: if_splits)
  obtain m ms where ch: "s_chan s = m # ms"
    using assms(3) True by (auto simp: writer_write_def split: if_splits list.splits)
  then have ok: "UrbMessage_ok m" using assms(2) by (simp add: session_inv_def replies_inv_def)
  obtain out r where w: "write_urb_message (s_out s) m = (out, r)"
    by (cases "write_urb_message (s_out s) m") auto
  show ?thesis
    using write_urb_message_sent [OF w] assms(1,3) True al ch w ok
    by (auto simp: writer_write_def output_inv_def) blast
next
  case False
  then have "s_out s' = s_out s \<and> s_written s' = s_written s \<and> s_writer_alive s' = s_writer_alive s"
    using assms(3)
    by (cases ev) (auto simp: reader_read_def reader_insert_def reader_reply_def reader_cleanup_def
      cancel_all_in_flight_def task_complete_def task_send_def task_remove_def task_drop_def
      set_phase_def Let_def split: if_splits result.splits UrbMessage.splits prod.splits
      reader_pc.splits phase.splits)
  then show ?thesis using assms(1) by (simp add: output_inv_def)
qed

lemma output_inv_run:
  "output_inv b s \<Longrightarrow> session_inv s \<Longrightarrow> usb_lawful handle \<Longrightarrow> session_run handle evs s = Some s' \<Longrightarrow>
     output_inv b s'"
  by (induction evs arbitrary: s) (auto split: option.splits dest: output_inv_step session_inv_step)

lemma output_inv_new: "output_inv (sent out) (new_session input out)"
  by (simp add: output_inv_def new_session_def)

section \<open>Properties\<close>

text \<open>
  C17: Whatever the client sends and however the tasks interleave, what the session has written is
  readable: the client's reader, run on the bytes sent, returns exactly the messages the writer
  wrote, all of them well-formed. While the writer runs, nothing follows them. Once a write has
  failed, what follows them is at most a part of one message, and the reader then reports the
  connection's error. (The USB backend moves no more bytes than its buffer holds.)
\<close>

theorem session_output_readable:
  assumes "session_run handle evs (new_session input out) = Some s"
    and "usb_lawful handle" and "sent out = []"
  shows "\<exists>rest. repeat_read (length (s_written s)) read_urb_message
             \<lparr>avail = sent (s_out s), end_error = e\<rparr> = Ok (s_written s, \<lparr>avail = rest, end_error = e\<rparr>) \<and>
           (if s_writer_alive s then rest = []
            else read_urb_message \<lparr>avail = rest, end_error = e\<rparr> = Err (Io e) \<and>
              (\<exists>m k. UrbMessage_ok m \<and> k < length (UrbMessage_encode m) \<and> rest = take k (UrbMessage_encode m)))"
proof -
  obtain rest where rest: "sent (s_out s) = concat (map UrbMessage_encode (s_written s)) @ rest"
    "if s_writer_alive s then rest = []
     else \<exists>m k. UrbMessage_ok m \<and> k < length (UrbMessage_encode m) \<and> rest = take k (UrbMessage_encode m)"
    using output_inv_run [OF output_inv_new session_inv_new assms(2,1)] assms(3) by (auto simp: output_inv_def)
  have "UrbMessage_ok m" if "m \<in> set (s_written s)" for m
    using session_inv_run [OF session_inv_new assms(1,2)] that
    by (simp add: session_inv_def replies_inv_def)
  then have "repeat_read (length (s_written s)) read_urb_message \<lparr>avail = sent (s_out s), end_error = e\<rparr> =
      Ok (s_written s, \<lparr>avail = rest, end_error = e\<rparr>)"
    using urb_stream.read_many [of "s_written s" "\<lparr>avail = rest, end_error = e\<rparr>"] rest(1)
    by (simp add: feed_def)
  moreover have "read_urb_message \<lparr>avail = rest, end_error = e\<rparr> = Err (Io e)" if "\<not> s_writer_alive s"
    using rest(2) that urb_stream.read_truncated by auto
  ultimately show ?thesis using rest(2) by auto
qed

text \<open>
  The run of the witnesses: a submit and an unlink of the same URB, where the transfer
  completes before its entry is in the map.
\<close>

definition race_input :: stream where
  "race_input =
     \<lparr>avail = UrbMessage_encode (CmdSubmit sample_submit) @
        UrbMessage_encode (CmdUnlink \<lparr>cu_header = sample_header CmdUnlink_Code 0,
                                       cu_unlink_seqnum = 7\<rparr>),
      end_error = UnexpectedEof\<rparr>"

definition race_events :: "session_event list" where
  "race_events =
     [Read, Complete 0 True, SendReply 0, RemoveEntry 0, Insert, Write, Read, Reply, Write]"

definition race_end :: "session option" where
  "race_end = session_run zero_usb race_events
     (new_session race_input \<lparr>sent = [], room = None\<rparr>)"

lemma race_end_eval:
  "case race_end of None \<Rightarrow> False
   | Some s \<Rightarrow> s_writer_alive s \<and>
       (case s_written s of
          [RetSubmit r, RetUnlink u] \<Rightarrow>
            hdr_seqnum (rs_header r) = 7 \<and> rs_status r = 0 \<and> ru_status u = ECONNRESET
        | _ \<Rightarrow> False)"
  by code_simp

lemma race_run:
  obtains s r u where "session_run zero_usb race_events (new_session race_input \<lparr>sent = [], room = None\<rparr>) = Some s"
    "s_writer_alive s" "s_written s = [RetSubmit r, RetUnlink u]"
    "hdr_seqnum (rs_header r) = 7" "rs_status r = 0" "ru_status u = ECONNRESET"
proof -
  obtain s where s: "race_end = Some s" using race_end_eval by (cases race_end) auto
  have "(case xs of [RetSubmit r, RetUnlink u] \<Rightarrow> P r u | _ \<Rightarrow> False) \<Longrightarrow>
      \<exists>r u. xs = [RetSubmit r, RetUnlink u] \<and> P r u" for xs and P :: "RetSubmit \<Rightarrow> RetUnlink \<Rightarrow> bool"
    by (cases xs; cases "hd xs"; cases "tl xs"; cases "hd (tl xs)"; cases "tl (tl xs)") simp_all
  note two = this
  note ev = race_end_eval [unfolded s option.case]
  have al: "s_writer_alive s" using ev by (rule conjunct1)
  have "\<exists>r u. s_written s = [RetSubmit r, RetUnlink u] \<and>
      (hdr_seqnum (rs_header r) = 7 \<and> rs_status r = 0 \<and> ru_status u = ECONNRESET)"
    by (rule two, rule conjunct2 [OF ev])
  with s al that show ?thesis by (auto simp: race_end_def)
qed

theorem session_output_readable_witness:
  "\<exists>s ms. session_run zero_usb race_events (new_session race_input \<lparr>sent = [], room = None\<rparr>) = Some s \<and>
     length ms = 2 \<and>
     repeat_read 2 read_urb_message \<lparr>avail = sent (s_out s), end_error = UnexpectedEof\<rparr>
       = Ok (ms, \<lparr>avail = [], end_error = UnexpectedEof\<rparr>)"
proof -
  obtain s r u where s: "session_run zero_usb race_events (new_session race_input \<lparr>sent = [], room = None\<rparr>) = Some s"
    "s_writer_alive s" "s_written s = [RetSubmit r, RetUnlink u]" by (rule race_run)
  with session_output_readable [OF s(1) zero_usb_lawful] show ?thesis
    by (intro exI [of _ s] exI [of _ "s_written s"]) (simp add: numeral_2_eq_2)
qed

text \<open>
  C18: Replies match requests. For every sequence number, at most as many RET_SUBMIT are
  written as URBs with it were submitted and at most as many RET_UNLINK as unlinks were
  requested, so no URB is answered twice and none that was not submitted. While the writer
  runs nothing is lost either: written or waiting in the channel is exactly one RET_SUBMIT
  for each task that has sent its result, and one RET_UNLINK for each unlink request (or it
  is being sent).
\<close>

theorem replies_match_requests:
  assumes "session_run handle evs (new_session input out) = Some s" and "usb_lawful handle"
  shows "count (is_ret n) (s_written s) \<le> count (is_cmd n) (s_requests s) \<and>
         count (is_ret_unlink n) (s_written s) \<le> count (is_unlink n) (s_requests s) \<and>
         (s_writer_alive s \<longrightarrow>
            count (is_ret n) (s_written s @ s_chan s)
              = count (\<lambda>t. task_for n t \<and> has_sent t) (s_tasks s) \<and>
            count (is_ret_unlink n) (s_written s @ s_chan s @ pending_reply s)
              = count (is_unlink n) (s_requests s))"
proof -
  have inv: "replies_inv (s_tasks s) (s_written s) (s_chan s) (pending_reply s) (s_requests s)
      (s_writer_alive s)"
    using session_inv_run [OF session_inv_new assms] by (simp add: session_inv_def)
  have "count (\<lambda>t. task_for n t \<and> has_sent t) (s_tasks s) \<le> count (task_for n) (s_tasks s)"
    by (rule count_mono) simp
  moreover have "count (is_ret n) (s_written s) \<le> count (\<lambda>t. task_for n t \<and> has_sent t) (s_tasks s)"
    "count (is_ret_unlink n) (s_written s) \<le> count (is_unlink n) (s_requests s)"
    using replies_inv_dead [OF inv] by (auto simp: replies_inv_def intro: add_leD1)
  moreover have "count (is_cmd n) (s_requests s) = count (task_for n) (s_tasks s)"
    using inv by (simp add: replies_inv_def)
  ultimately show ?thesis using inv unfolding replies_inv_def by auto
qed

theorem replies_match_requests_witness:
  "\<exists>s. session_run zero_usb race_events (new_session race_input \<lparr>sent = [], room = None\<rparr>) = Some s \<and>
     count (is_ret 7) (s_written s) = 1 \<and> 1 \<le> count (is_cmd 7) (s_requests s)"
proof -
  obtain s r u where s: "session_run zero_usb race_events (new_session race_input \<lparr>sent = [], room = None\<rparr>) = Some s"
    "s_writer_alive s" "s_written s = [RetSubmit r, RetUnlink u]" "hdr_seqnum (rs_header r) = 7"
    by (rule race_run)
  then have "count (is_ret 7) (s_written s) = 1" by (simp add: is_ret_def)
  with replies_match_requests [OF s(1) zero_usb_lawful, of 7] s(1) show ?thesis by auto
qed




section \<open>The end of a session\<close>

text \<open>What is left to do, as an upper bound on the number of steps.\<close>

definition reader_work :: "reader_pc \<Rightarrow> nat" where
  "reader_work r = (case r of Reading \<Rightarrow> 2 | Inserting _ _ \<Rightarrow> 3 | Replying _ \<Rightarrow> 4 | Cleanup \<Rightarrow> 1 | Stopped \<Rightarrow> 0)"

definition task_work :: "task \<Rightarrow> nat" where
  "task_work t = (case t_phase t of Running \<Rightarrow> 4 | Sending _ \<Rightarrow> 3 | Removing \<Rightarrow> 1 | Finished \<Rightarrow> 0) +
     (if t_dropped t then 0 else 1)"

definition session_work :: "session \<Rightarrow> nat" where
  "session_work s = 7 * (length (avail (s_input s)) div 48) + reader_work (s_reader s) +
     sum_list (map task_work (s_tasks s)) + length (s_chan s)"

lemma read_urb_message_takes:
  assumes "read_urb_message s = Ok (m, s')"
  shows "length (avail s') div 48 + 1 \<le> length (avail s) div 48"
proof -
  obtain bs where bs: "avail s = bs @ avail s'" and d: "UrbMessage_decodes bs m"
    using assms by (auto simp: read_urb_message_iff)
  have "48 \<le> length bs"
  proof (cases m)
    case (CmdSubmit x)
    then show ?thesis using d cmd_submit.decode_size [of bs x "[]"]
      by (simp add: CmdSubmit_wire_size_def urb_consts)
  next
    case (RetSubmit x)
    then show ?thesis using d ret_submit.decode_size [of bs x "[]"]
      by (simp add: RetSubmit_wire_size_def urb_consts)
  next
    case (CmdUnlink x)
    then show ?thesis using d cmd_unlink.decode_size [of bs x "[]"]
      by (simp add: CmdUnlink_wire_size_def urb_consts)
  next
    case (RetUnlink x)
    then show ?thesis using d ret_unlink.decode_size [of bs x "[]"]
      by (simp add: RetUnlink_wire_size_def urb_consts)
  qed
  then have "(length (avail s') + 48) div 48 \<le> length (avail s) div 48"
    using bs by (intro div_le_mono) simp
  then show ?thesis by simp
qed

lemma work_update:
  assumes "tid < length ts"
  shows "sum_list (map task_work (ts[tid := t])) + task_work (ts ! tid) = sum_list (map task_work ts) + task_work t"
  using assms
proof (induction ts arbitrary: tid)
  case (Cons a ts)
  then show ?case by (cases tid) auto
qed simp

lemma work_abort: "map task_work (abort_task tid ts) = map task_work ts"
  by (auto simp: abort_task_def map_update task_work_def intro: list_update_same_conv [THEN iffD2])

lemma work_abort_all: "map task_work (fold abort_task tids ts) = map task_work ts"
  by (induction tids arbitrary: ts) (auto simp: work_abort)

lemma work_read:
  assumes "reader_read s = Some s'"
  shows "session_work s' < session_work s"
proof -
  have rd: "s_reader s = Reading" using assms by (auto simp: reader_read_def split: if_splits)
  show ?thesis
  proof (cases "read_urb_message (s_input s)")
    case (Ok r)
    obtain msg input where r: "r = (msg, input)" by (cases r)
    have less: "length (avail input) div 48 + 1 \<le> length (avail (s_input s)) div 48"
      using read_urb_message_takes Ok r by simp
    show ?thesis
    proof (cases msg)
      case (CmdSubmit cmd)
      then show ?thesis using assms Ok r rd less
        by (auto simp: reader_read_def Let_def session_work_def reader_work_def task_work_def)
    next
      case (CmdUnlink cmd)
      obtain m fl ab where "handle_unlink cmd (s_in_flight s) = (m, fl, ab)"
        by (cases "handle_unlink cmd (s_in_flight s)") auto
      then show ?thesis using CmdUnlink assms Ok r rd less
        by (cases ab) (auto simp: reader_read_def Let_def session_work_def reader_work_def work_abort)
    qed (use assms Ok r rd less in \<open>auto simp: reader_read_def Let_def session_work_def\<close>)
  qed (use assms rd in \<open>auto simp: reader_read_def session_work_def reader_work_def\<close>)
qed

lemma work_set_phase:
  assumes "live_task tid s"
    and "task_work ((s_tasks s ! tid)\<lparr>t_phase := p\<rparr>) + length c < task_work (s_tasks s ! tid)"
  shows "session_work (set_phase tid p (s\<lparr>s_chan := s_chan s @ c, s_in_flight := fl\<rparr>)) < session_work s"
  using assms work_update [of tid "s_tasks s" "(s_tasks s ! tid)\<lparr>t_phase := p\<rparr>"]
  by (simp add: live_task_def set_phase_def session_work_def)

lemma work_step:
  assumes "session_step handle ev s = Some s'"
  shows "session_work s' < session_work s"
proof (cases ev)
  case Read
  then show ?thesis using work_read assms by simp
next
  case Insert
  then show ?thesis using assms
    by (auto simp: reader_insert_def session_work_def reader_work_def split: reader_pc.splits)
next
  case Reply
  then show ?thesis using assms
    by (auto simp: reader_reply_def session_work_def reader_work_def split: reader_pc.splits if_splits)
next
  case Clean
  then show ?thesis using assms
    by (auto simp: reader_cleanup_def cancel_all_in_flight_def session_work_def reader_work_def work_abort_all
      split: if_splits)
next
  case (Complete tid joined)
  then have "live_task tid s" "t_phase (s_tasks s ! tid) = Running"
    "s' = set_phase tid (Sending (handle_submit handle joined (t_cmd (s_tasks s ! tid)))) s"
    using assms by (auto simp: task_complete_def split: if_splits)
  then show ?thesis using work_set_phase [of tid s _ "[]" "s_in_flight s"] by (simp add: task_work_def)
next
  case (SendReply tid)
  then obtain m where m: "live_task tid s" "t_phase (s_tasks s ! tid) = Sending m"
    "s' = set_phase tid Removing s \<or> s' = set_phase tid Removing (s\<lparr>s_chan := s_chan s @ [m]\<rparr>)"
    using assms by (auto simp: task_send_def split: if_splits phase.splits)
  then show ?thesis using work_set_phase [of tid s Removing "[]" "s_in_flight s"]
      work_set_phase [of tid s Removing "[m]" "s_in_flight s"]
    by (auto simp: task_work_def)
next
  case (RemoveEntry tid)
  then have "live_task tid s" "t_phase (s_tasks s ! tid) = Removing"
    "s' = set_phase tid Finished (s\<lparr>s_in_flight := AList.delete (hdr_seqnum (cs_header (t_cmd (s_tasks s ! tid)))) (s_in_flight s)\<rparr>)"
    using assms by (auto simp: task_remove_def split: if_splits)
  then show ?thesis using work_set_phase [of tid s Finished "[]"] by (simp add: task_work_def)
next
  case (DropTask tid)
  then show ?thesis using assms work_update [of tid "s_tasks s" "(s_tasks s ! tid)\<lparr>t_dropped := True\<rparr>"]
    by (auto simp: task_drop_def live_task_def session_work_def task_work_def split: if_splits)
next
  case Write
  then show ?thesis using assms
    by (auto simp: writer_write_def session_work_def split: if_splits list.splits prod.splits result.splits)
qed

lemma work_run: "session_run handle evs s = Some s' \<Longrightarrow> length evs + session_work s' \<le> session_work s"
proof (induction evs arbitrary: s)
  case (Cons ev evs)
  then obtain s1 where "session_step handle ev s = Some s1" "session_run handle evs s1 = Some s'"
    by (auto split: option.splits)
  then show ?case using Cons.IH work_step by fastforce
qed simp

text \<open>What else holds between steps.\<close>

definition closing_inv :: "session \<Rightarrow> bool" where
  "closing_inv s \<longleftrightarrow>
     (s_reader s = Stopped \<longrightarrow> s_in_flight s = []) \<and> (\<not> s_writer_alive s \<longrightarrow> s_chan s = []) \<and>
     (\<forall>t \<in> set (s_tasks s). t_dropped t \<longrightarrow> t_aborted t)"

lemma dropped_aborted:
  assumes "\<forall>t \<in> set ts. t_dropped t \<longrightarrow> t_aborted t"
  shows "\<forall>t \<in> set (fold abort_task tids ts). t_dropped t \<longrightarrow> t_aborted t"
  using assms
proof (induction tids arbitrary: ts)
  case (Cons tid tids)
  have "\<forall>t \<in> set (abort_task tid ts). t_dropped t \<longrightarrow> t_aborted t"
    using Cons.prems by (auto simp: abort_task_def dest!: set_update_subset_insert [THEN subsetD])
  then show ?case using Cons.IH by simp
qed simp

lemma closing_read:
  assumes "closing_inv s" "reader_read s = Some s'"
  shows "closing_inv s'"
proof -
  have rd: "s_reader s = Reading" using assms by (auto simp: reader_read_def split: if_splits)
  show ?thesis
  proof (cases "\<exists>cmd input. read_urb_message (s_input s) = Ok (CmdUnlink cmd, input)")
    case True
    then obtain cmd input where r: "read_urb_message (s_input s) = Ok (CmdUnlink cmd, input)" by blast
    obtain m fl ab where "handle_unlink cmd (s_in_flight s) = (m, fl, ab)"
      by (cases "handle_unlink cmd (s_in_flight s)") auto
    then show ?thesis using assms r rd dropped_aborted [of "s_tasks s" "[the ab]"]
      by (cases ab) (auto simp: reader_read_def Let_def closing_inv_def)
  next
    case False
    then show ?thesis using assms rd
      by (auto simp: reader_read_def Let_def closing_inv_def split: result.splits prod.splits UrbMessage.splits)
  qed
qed

lemma closing_tasks:
  assumes "closing_inv s" "tid < length (s_tasks s)" "t_dropped t \<longrightarrow> t_aborted t"
  shows "\<forall>u \<in> set ((s_tasks s)[tid := t]). t_dropped u \<longrightarrow> t_aborted u"
  using assms by (auto simp: closing_inv_def dest!: set_update_subset_insert [THEN subsetD])

lemma closing_step:
  assumes "closing_inv s" "session_step handle ev s = Some s'"
  shows "closing_inv s'"
proof -
  have t: "\<forall>u \<in> set ((s_tasks s)[tid := (s_tasks s ! tid)\<lparr>t_phase := p\<rparr>]). t_dropped u \<longrightarrow> t_aborted u"
    if "live_task tid s" for tid p
    using closing_tasks [OF assms(1), of tid "(s_tasks s ! tid)\<lparr>t_phase := p\<rparr>"] assms(1) that
    by (simp add: live_task_def)
  show ?thesis
  proof (cases ev)
    case Read
    then show ?thesis using closing_read assms by simp
  next
    case Clean
    then show ?thesis using assms dropped_aborted
      by (auto simp: reader_cleanup_def cancel_all_in_flight_def closing_inv_def split: if_splits)
  next
    case (DropTask tid)
    then show ?thesis using assms closing_tasks [OF assms(1), of tid "(s_tasks s ! tid)\<lparr>t_dropped := True\<rparr>"]
      by (auto simp: task_drop_def live_task_def closing_inv_def split: if_splits)
  next
    case (Complete tid joined)
    then show ?thesis using assms t [of tid]
      by (auto simp: task_complete_def set_phase_def closing_inv_def split: if_splits)
  next
    case (SendReply tid)
    then show ?thesis using assms t [of tid]
      by (auto simp: task_send_def set_phase_def closing_inv_def split: if_splits phase.splits)
  next
    case (RemoveEntry tid)
    then show ?thesis using assms t [of tid]
      by (auto simp: task_remove_def set_phase_def closing_inv_def split: if_splits)
  next
    case Write
    then show ?thesis using assms
      by (auto simp: writer_write_def closing_inv_def split: if_splits list.splits prod.splits result.splits)
  qed (use assms in \<open>auto simp: reader_insert_def reader_reply_def closing_inv_def split: reader_pc.splits if_splits\<close>)
qed

lemma closing_run: "closing_inv s \<Longrightarrow> session_run handle evs s = Some s' \<Longrightarrow> closing_inv s'"
  by (induction evs arbitrary: s) (auto split: option.splits dest: closing_step)

lemma closing_new: "closing_inv (new_session input out)"
  by (simp add: closing_inv_def new_session_def)

text \<open>
  The steps that depend on the session alone. The others wait for the client, the device and the
  connection.
\<close>

fun internal :: "session_event \<Rightarrow> bool" where
  "internal Read = False"
| "internal (Complete _ _) = False"
| "internal Write = False"
| "internal _ = True"

definition channel_full :: "session \<Rightarrow> bool" where
  "channel_full s \<longleftrightarrow> s_writer_alive s \<and> length (s_chan s) = RESPONSE_CHANNEL_SIZE"

lemma no_room: "session_inv s \<Longrightarrow> s_writer_alive s \<Longrightarrow> \<not> length (s_chan s) < RESPONSE_CHANNEL_SIZE \<Longrightarrow> channel_full s"
  by (simp add: session_inv_def replies_inv_def channel_full_def)

lemma reader_waits:
  assumes "session_inv s" "\<And>ev. internal ev \<Longrightarrow> session_step handle ev s = None"
  shows "s_reader s = Reading \<or> s_reader s = Stopped \<or> channel_full s \<and> (\<exists>m. s_reader s = Replying m)"
  using assms(2) [of Insert] assms(2) [of Reply] assms(2) [of Clean] no_room [OF assms(1)]
  by (cases "s_reader s")
     (auto simp: reader_insert_def reader_reply_def reader_cleanup_def split: if_splits)

lemma task_waits:
  assumes "session_inv s" "\<And>ev. internal ev \<Longrightarrow> session_step handle ev s = None" "t \<in> set (s_tasks s)"
  shows "t_dropped t \<or> t_phase t = Finished \<or> t_phase t = Running \<or> channel_full s \<and> (\<exists>m. t_phase t = Sending m)"
proof -
  obtain tid where tid: "tid < length (s_tasks s)" "t = s_tasks s ! tid"
    using assms(3) by (auto simp: in_set_conv_nth)
  show ?thesis
    using assms(2) [of "SendReply tid"] assms(2) [of "RemoveEntry tid"] tid no_room [OF assms(1)]
    by (cases "t_phase t") (auto simp: task_send_def task_remove_def live_task_def split: if_splits)
qed

lemma write_possible:
  assumes "s_writer_alive s" "s_chan s \<noteq> []"
  shows "\<exists>s'. session_step handle Write s = Some s'"
  using assms by (cases "s_chan s") (auto simp: writer_write_def split: prod.split result.split)

lemma read_possible: "s_reader s = Reading \<Longrightarrow> \<exists>s'. session_step handle Read s = Some s'"
  by (auto simp: reader_read_def Let_def split: result.split UrbMessage.split prod.split)

lemma complete_possible:
  assumes "t \<in> set (s_tasks s)" "\<not> t_dropped t" "t_phase t = Running"
  shows "\<exists>tid s'. session_step handle (Complete tid True) s = Some s'"
  using assms by (auto simp: in_set_conv_nth task_complete_def live_task_def)

text \<open>
  C20: A session cannot deadlock, whatever the client, the device and the connection make it wait for,
  and it ends. A step of the reader that waits for bytes (\<open>Read\<close>), of a transfer (\<open>Complete\<close>) and of
  the writer (\<open>Write\<close>) may be held up for any time. When none of the other steps is possible, the reader
  waits for the client or has stopped, each task has ended or waits for the device, or they wait for
  room in a channel of 64 replies that the writer can go on to write: nothing waits in a circle. A
  session takes at most 7 steps for each 48 bytes received and 2 more. And where no step is left, the
  reader has stopped, no URB is in flight, every task has finished or was cancelled, and unless a write
  failed, one RET_SUBMIT for each task that sent its result and one RET_UNLINK for each unlink request
  has been written.
\<close>

theorem session_ends:
  assumes "session_run handle evs (new_session input out) = Some s" and "usb_lawful handle"
  shows "length evs \<le> 7 * (length (avail input) div 48) + 2 \<and>
    ((\<forall>ev. internal ev \<longrightarrow> session_step handle ev s = None) \<longrightarrow>
      (s_reader s = Reading \<or> s_reader s = Stopped \<or> channel_full s \<and> (\<exists>m. s_reader s = Replying m)) \<and>
      (\<forall>t \<in> set (s_tasks s). t_dropped t \<or> t_phase t = Finished \<or> t_phase t = Running \<or>
         channel_full s \<and> (\<exists>m. t_phase t = Sending m)) \<and>
      (channel_full s \<longrightarrow> (\<exists>s'. session_step handle Write s = Some s'))) \<and>
    ((\<forall>ev. session_step handle ev s = None) \<longrightarrow>
      s_reader s = Stopped \<and> s_in_flight s = [] \<and> s_chan s = [] \<and>
      (\<forall>t \<in> set (s_tasks s). t_phase t = Finished \<or> t_aborted t \<and> t_dropped t) \<and>
      (s_writer_alive s \<longrightarrow>
        (\<forall>n. count (is_ret n) (s_written s) = count (\<lambda>t. task_for n t \<and> has_sent t) (s_tasks s) \<and>
             count (is_ret_unlink n) (s_written s) = count (is_unlink n) (s_requests s))))"
proof (intro conjI impI)
  have inv: "session_inv s" "closing_inv s"
    using session_inv_run [OF session_inv_new assms] closing_run [OF closing_new assms(1)] by simp_all
  show "length evs \<le> 7 * (length (avail input) div 48) + 2"
    using work_run [OF assms(1)] by (simp add: session_work_def new_session_def reader_work_def)
  {
    assume "\<forall>ev. internal ev \<longrightarrow> session_step handle ev s = None"
    then have quiet: "internal ev \<Longrightarrow> session_step handle ev s = None" for ev by blast
    show "s_reader s = Reading \<or> s_reader s = Stopped \<or> channel_full s \<and> (\<exists>m. s_reader s = Replying m)"
      using reader_waits [OF inv(1) quiet] .
    show "\<forall>t \<in> set (s_tasks s). t_dropped t \<or> t_phase t = Finished \<or> t_phase t = Running \<or>
         channel_full s \<and> (\<exists>m. t_phase t = Sending m)"
      using task_waits [OF inv(1) quiet] by blast
    assume "channel_full s"
    then show "\<exists>s'. session_step handle Write s = Some s'"
      by (intro write_possible) (auto simp: channel_full_def RESPONSE_CHANNEL_SIZE_def)
  }
  assume stuck: "\<forall>ev. session_step handle ev s = None"
  then have quiet: "internal ev \<Longrightarrow> session_step handle ev s = None" for ev by blast
  show chan: "s_chan s = []"
    using stuck write_possible [of s handle] inv(2) by (auto simp: closing_inv_def simp del: session_step.simps)
  then have not_full: "\<not> channel_full s" by (simp add: channel_full_def RESPONSE_CHANNEL_SIZE_def)
  then show stopped: "s_reader s = Stopped"
    using reader_waits [OF inv(1) quiet] stuck read_possible [of s handle] by (auto simp del: session_step.simps)
  then show "s_in_flight s = []" using inv(2) by (simp add: closing_inv_def)
  show "\<forall>t \<in> set (s_tasks s). t_phase t = Finished \<or> t_aborted t \<and> t_dropped t"
    using task_waits [OF inv(1) quiet] not_full stuck complete_possible [of _ s handle] inv(2)
    unfolding closing_inv_def by (metis option.distinct(1))
  show "\<forall>n. count (is_ret n) (s_written s) = count (\<lambda>t. task_for n t \<and> has_sent t) (s_tasks s) \<and>
     count (is_ret_unlink n) (s_written s) = count (is_unlink n) (s_requests s)" if "s_writer_alive s"
    using inv(1) that chan stopped by (simp add: session_inv_def replies_inv_def pending_reply_def)
qed

theorem session_ends_witness:
  "\<exists>s. session_run zero_usb race_events (new_session race_input \<lparr>sent = [], room = None\<rparr>) = Some s \<and>
     length race_events \<le> 7 * (length (avail race_input) div 48) + 2"
proof -
  obtain s where s: "session_run zero_usb race_events (new_session race_input \<lparr>sent = [], room = None\<rparr>) = Some s"
    using race_run by metis
  then show ?thesis using session_ends [OF s zero_usb_lawful] by simp
qed

end
