(* ===== verification/Server_Connection.thy ===== *)
theory Server_Connection
  imports Server_Session
begin

text \<open>
  \<open>extender-server/src/connection.rs\<close>: what the server does with one connection. The first
  message selects a device listing or an import; a successful import continues into the URB
  loop of \<open>Server_Session\<close> and ends with a release. Other connections run in between, so the
  handler is in two parts: up to the start of the URB loop (\<open>handle_connection\<close>), and the
  release after it (\<open>finish_connection\<close>), on the registry as it is then.
\<close>

section \<open>Bus IDs\<close>

definition extract_bus_id :: "bytes \<Rightarrow> string" where
  "extract_bus_id b = from_utf8_lossy (until_nul b)"

definition is_valid_bus_id :: "string \<Rightarrow> bool" where
  "is_valid_bus_id bus_id =
     (case splitn2 CHR ''-'' bus_id of
        (bus_part, rest) \<Rightarrow>
          bus_part \<noteq> [] \<and> list_all is_ascii_digit bus_part \<and>
          (case rest of
             None \<Rightarrow> False
           | Some dev_part \<Rightarrow>
               dev_part \<noteq> [] \<and>
               list_all (\<lambda>segment. segment \<noteq> [] \<and> list_all is_ascii_digit segment)
                 (split_on CHR ''.'' dev_part)))"

section \<open>Handlers\<close>

definition handle_devlist ::
  "string list \<Rightarrow> ExportRegistry \<Rightarrow> sink \<Rightarrow> sink \<times> (unit, ServerError) result" where
  "handle_devlist order registry w =
     (case list_devices order registry of
        Ok devices \<Rightarrow>
          (case write_op_message w (RepDevlist \<lparr>devlist_status = 0, devlist_devices = devices\<rparr>) of
             (w', r) \<Rightarrow> (w', map_err Protocol r))
      | Err e \<Rightarrow> (w, Err e)
      | Panic \<Rightarrow> (w, Panic))"

definition handle_import ::
  "instant \<Rightarrow> ExportRegistry \<Rightarrow> sink \<Rightarrow> string
     \<Rightarrow> ExportRegistry \<times> sink \<times> ((ManagedDevice \<times> SessionId \<times> bool) option, ServerError) result" where
  "handle_import now registry w bus_id =
     (case try_acquire_ext now registry bus_id of
        (Ok (handle, proto_device, session_id, is_reconnect), registry') \<Rightarrow>
          (case write_op_message w
                  (RepImport \<lparr>import_status = 0, import_device = Some proto_device\<rparr>) of
             (w', r) \<Rightarrow>
               (registry', w',
                rbind (map_err Protocol r) (\<lambda>_. Ok (Some (handle, session_id, is_reconnect)))))
      | (_, registry') \<Rightarrow>
          (case write_op_message w (RepImport \<lparr>import_status = 1, import_device = None\<rparr>) of
             (w', r) \<Rightarrow> (registry', w', rbind (map_err Protocol r) (\<lambda>_. Ok None))))"

text \<open>The connection is closed, or it serves a device in the URB loop.\<close>

datatype outcome =
    Closed
  | Serving string SessionId ManagedDevice

text \<open>\<open>timed_out\<close>: the first message did not arrive within ten seconds.\<close>

definition handle_connection ::
  "bool \<Rightarrow> string list \<Rightarrow> instant \<Rightarrow> ExportRegistry \<Rightarrow> stream \<Rightarrow> sink
     \<Rightarrow> ExportRegistry \<times> stream \<times> sink \<times> outcome" where
  "handle_connection timed_out order now registry input w =
     (if timed_out then (registry, input, w, Closed)
      else case read_op_message input of
        Ok (msg, input') \<Rightarrow>
          (case msg of
             ReqDevlist _ \<Rightarrow> (registry, input', fst (handle_devlist order registry w), Closed)
           | ReqImport req \<Rightarrow>
               let bus_id = extract_bus_id (import_busid req) in
               if \<not> is_valid_bus_id bus_id
               then (registry, input',
                     fst (write_op_message w (RepImport \<lparr>import_status = 1, import_device = None\<rparr>)),
                     Closed)
               else (case handle_import now registry w bus_id of
                       (registry', w', Ok (Some (handle, session_id, _))) \<Rightarrow>
                         (registry', input', w', Serving bus_id session_id handle)
                     | (registry', w', _) \<Rightarrow> (registry', input', w', Closed))
           | _ \<Rightarrow> (registry, input', w, Closed))
      | _ \<Rightarrow> (registry, input, w, Closed))"

definition start_session :: "stream \<Rightarrow> sink \<Rightarrow> session" where
  "start_session input w = new_session input w"

definition finish_connection ::
  "instant \<Rightarrow> ExportRegistry \<Rightarrow> string \<Rightarrow> SessionId \<Rightarrow> ExportRegistry" where
  "finish_connection now registry bus_id session_id = release now registry bus_id session_id"

section \<open>The grammar of bus IDs\<close>

definition digits :: "string \<Rightarrow> bool" where
  "digits s \<longleftrightarrow> s \<noteq> [] \<and> list_all is_ascii_digit s"

definition bus_id_grammar :: "string \<Rightarrow> bool" where
  "bus_id_grammar s \<longleftrightarrow>
     (\<exists>bus segments. digits bus \<and> segments \<noteq> [] \<and> (\<forall>x \<in> set segments. digits x) \<and>
        s = bus @ ''-'' @ join_with ''.'' segments)"

lemma digit_not_sep: "is_ascii_digit c \<Longrightarrow> c \<noteq> CHR ''-'' \<and> c \<noteq> CHR ''.''"
  by (auto simp: is_ascii_digit_def)

lemma is_valid_bus_id_grammar: "is_valid_bus_id s \<longleftrightarrow> bus_id_grammar s"
proof
  assume v: "is_valid_bus_id s"
  obtain bus rest where sp: "splitn2 CHR ''-'' s = (bus, rest)" by (cases "splitn2 CHR ''-'' s")
  with v obtain dev where dev: "rest = Some dev" "digits bus" "dev \<noteq> []"
    "\<forall>x \<in> set (split_on CHR ''.'' dev). digits x"
    by (auto simp: is_valid_bus_id_def digits_def list_all_iff split: option.splits)
  with splitn2_Some [of "CHR ''-''" s bus dev] sp have "s = bus @ CHR ''-'' # dev" by simp
  then show "bus_id_grammar s"
    using dev join_split_on [of "CHR ''.''" dev]
    by (auto simp: bus_id_grammar_def intro!: exI [of _ bus] exI [of _ "split_on CHR ''.'' dev"])
next
  assume "bus_id_grammar s"
  then obtain bus segs where g: "digits bus" "segs \<noteq> []" "\<forall>x \<in> set segs. digits x"
    and s: "s = bus @ CHR ''-'' # join_with ''.'' segs"
    by (auto simp: bus_id_grammar_def)
  have ns: "CHR ''-'' \<notin> set bus" "\<And>x. x \<in> set segs \<Longrightarrow> CHR ''.'' \<notin> set x"
    using g digit_not_sep by (auto simp: digits_def list_all_iff)
  have sp: "splitn2 CHR ''-'' s = (bus, Some (join_with ''.'' segs))"
    unfolding s by (rule splitn2_append [OF ns(1)])
  have "join_with ''.'' segs \<noteq> []"
    using g(2,3) by (cases segs; cases "tl segs") (auto simp: digits_def)
  then show "is_valid_bus_id s"
    using g split_on_join [OF g(2) ns(2)]
    by (auto simp: is_valid_bus_id_def sp digits_def list_all_iff)
qed

section \<open>Bus IDs of enumerated devices\<close>

lemma digits_dec_string: "digits (dec_string n)"
  using dec_string_digits [of n] by (simp add: digits_def)

lemma length_dec_string: "n < 1000 \<Longrightarrow> length (dec_string n) \<le> 3"
  using dec_string_length [of n 2] by simp

lemma format_bus_id_eq:
  "format_bus_id b ps =
     dec_string (unat b) @ ''-'' @ join_with ''.'' (if ps = [] then [''0''] else map (dec_string \<circ> unat) ps)"
  by (cases ps; cases "tl ps") (auto simp: format_bus_id_def Let_def)

lemma format_bus_id_valid: "is_valid_bus_id (format_bus_id b ps)"
proof -
  have "digits ''0''" by (simp add: digits_def is_ascii_digit_def)
  then show ?thesis
    unfolding is_valid_bus_id_grammar bus_id_grammar_def format_bus_id_eq
    by (intro exI [of _ "dec_string (unat b)"] exI conjI) (auto simp: digits_dec_string)
qed

lemma length_join_with:
  "xs \<noteq> [] \<Longrightarrow> (\<And>x. x \<in> set xs \<Longrightarrow> length x \<le> k) \<Longrightarrow> length (join_with [c] xs) + 1 \<le> length xs * (k + 1)"
proof (induction xs)
  case (Cons x xs)
  have "length x \<le> k" using Cons.prems by simp
  then show ?case using Cons by (cases xs) fastforce+
qed simp

lemma length_format_bus_id:
  assumes "length ps \<le> 7"
  shows "length (format_bus_id b ps) < BUSID_SIZE"
proof -
  have "unat (w :: u8) < 256" for w using unsigned_less [of w] by simp
  then have u: "unat (w :: u8) < 1000" for w by (rule less_trans) simp
  let ?xs = "if ps = [] then [''0''] else map (dec_string \<circ> unat) ps"
  have "length (join_with ''.'' ?xs) + 1 \<le> length ?xs * (3 + 1)"
    by (rule length_join_with) (auto simp: length_dec_string u split: if_splits)
  moreover have "length ?xs \<le> 7" using assms by (cases ps) auto
  ultimately have "length (join_with ''.'' ?xs) \<le> 27"
    using mult_le_mono1 [of "length ?xs" 7 4] by simp
  then show ?thesis
    using length_dec_string [OF u, of b] unfolding format_bus_id_eq by (simp add: BUSID_SIZE_def)
qed

lemma set_join_with: "set (join_with sep xs) \<subseteq> set sep \<union> \<Union> (set ` set xs)"
  by (induction sep xs rule: join_with.induct) auto

lemma valid_bus_id_chars:
  assumes "is_valid_bus_id s" "c \<in> set s"
  shows "is_ascii_digit c \<or> c = CHR ''-'' \<or> c = CHR ''.''"
proof -
  obtain bus segs where "digits bus" "\<forall>x \<in> set segs. digits x"
    "s = bus @ ''-'' @ join_with ''.'' segs"
    using assms(1) unfolding is_valid_bus_id_grammar bus_id_grammar_def by blast
  then show ?thesis
    using assms(2) set_join_with [of "''.''" segs] by (fastforce simp: digits_def list_all_iff)
qed

lemma valid_bus_id_ascii: "is_valid_bus_id s \<Longrightarrow> list_all is_ascii s \<and> CHR 0x00 \<notin> set s"
  using valid_bus_id_chars [of s]
  by (force simp: list_all_iff is_ascii_def is_ascii_digit_def)

lemma lossy_ascii: "(\<And>b. b \<in> set bs \<Longrightarrow> b < 0x80) \<Longrightarrow> lossy_bytes bs = bs"
  by (induction bs) (auto simp: lossy_bytes.simps [of "_ # _"] lossy_bytes.simps [of "[]"]
    utf8_char_def byte_at_def)

lemma extract_padded_bus_id:
  assumes "list_all is_ascii s" "CHR 0x00 \<notin> set s"
  shows "extract_bus_id (as_bytes s @ replicate n 0) = s"
proof -
  have "lossy_bytes (as_bytes s) = as_bytes s"
    using assms(1) by (intro lossy_ascii) (auto simp: as_bytes_def list_all_iff byte_of_char_ascii)
  then show ?thesis by (simp add: extract_bus_id_def from_utf8_lossy_def until_nul_padded [OF assms(2)])
qed

section \<open>Properties\<close>

text \<open>
  C21: The bus IDs the server accepts in an import request are exactly the words of the
  pattern the code documents: digits, a dash, and one or more runs of digits separated by
  dots.
\<close>

theorem valid_bus_id_iff_grammar:
  "is_valid_bus_id s \<longleftrightarrow>
     (\<exists>bus segments. digits bus \<and> segments \<noteq> [] \<and> list_all digits segments \<and>
        s = bus @ ''-'' @ join_with ''.'' segments)"
  unfolding is_valid_bus_id_grammar bus_id_grammar_def list_all_iff by (rule refl)

text \<open>
  C22: Every device the server enumerates can be imported by name: its bus ID passes the
  validation of the import handler, and (on buses with at most seven tiers of ports, the USB
  limit) it fits the 32-byte field, so its wire descriptor exists and a client that sends the
  field back is understood as naming the same device.
\<close>

theorem enumerated_bus_ids_importable:
  assumes "enumerate_devices ctx (Inr devs) = Ok ds" and "d \<in> set ds"
    and "\<forall>dev \<in> set devs. \<forall>ps. rd_port_numbers dev = Inr ps \<longrightarrow> length ps \<le> 7"
  shows "is_valid_bus_id (ld_bus_id d) \<and>
         (\<exists>u. to_protocol_device d = Ok u \<and> extract_bus_id (busid u) = ld_bus_id d)"
proof -
  obtain dev where dev: "dev \<in> set devs" "local_device dev = Some d"
    using assms(1,2) by (auto simp: enumerate_devices_def map_filter_def split: sum.splits)
  let ?ps = "case rd_port_numbers dev of Inr ps \<Rightarrow> ps | Inl _ \<Rightarrow> []"
  have id: "ld_bus_id d = format_bus_id (rd_bus_number dev) ?ps"
    using dev(2) by (auto simp: local_device_def Let_def split: sum.splits)
  have len: "length (ld_bus_id d) < BUSID_SIZE"
    unfolding id using dev(1) assms(3) by (intro length_format_bus_id) (auto split: sum.split)
  have v: "is_valid_bus_id (ld_bus_id d)" unfolding id by (rule format_bus_id_valid)
  note asc = valid_bus_id_ascii [OF v]
  obtain u where u: "to_protocol_device d = Ok u"
    using len asc by (auto simp: to_protocol_device_def busid_from_str_def Let_def)
  then have "extract_bus_id (busid u) = ld_bus_id d"
    using to_protocol_device_Ok [OF u] asc by (simp add: extract_padded_bus_id)
  with u v show ?thesis by blast
qed

text \<open>A bus with one device on port 1.4 of bus 3, for the witness.\<close>

definition sample_bus :: "rusb_device list" where
  "sample_bus =
     [\<lparr>rd_descriptor = Inr \<lparr>desc_vendor_id = 0x0bda, desc_product_id = 0x8153, desc_class_code = 0,
        desc_sub_class_code = 0, desc_protocol_code = 0, desc_version = (1, 0, 0),
        desc_num_configurations = 1\<rparr>,
       rd_bus_number = 3, rd_address = 9, rd_port_numbers = Inr [1, 4], rd_speed = Speed_High,
       rd_open = Inl Rusb_Access, rd_active_config = Inl Rusb_NotFound, rd_config_0 = Inr []\<rparr>]"

theorem enumerated_bus_ids_importable_witness:
  "\<exists>d. enumerate_devices (Inr ()) (Inr sample_bus) = Ok [d] \<and> ld_bus_id d = ''3-1.4'' \<and>
       is_valid_bus_id (ld_bus_id d)"
proof -
  have id: "format_bus_id 3 [1, 4] = ''3-1.4''" by code_simp
  obtain d where d: "enumerate_devices (Inr ()) (Inr sample_bus) = Ok [d]" "ld_bus_id d = ''3-1.4''"
    by (auto simp: enumerate_devices_def sample_bus_def map_filter_def local_device_def id Let_def)
  moreover have "\<forall>dev \<in> set sample_bus. \<forall>ps. rd_port_numbers dev = Inr ps \<longrightarrow> length ps \<le> 7"
    by (simp add: sample_bus_def)
  ultimately show ?thesis using enumerated_bus_ids_importable [OF d(1), of d] by auto
qed

section \<open>Listing and importing\<close>

lemma write_op_message_unlimited:
  "room w = None \<Longrightarrow> write_op_message w m = (w\<lparr>sent := sent w @ OpMessage_encode m\<rparr>, Ok ())"
  by (simp add: write_op_message_def write_buf_def)

lemma read_op_sent:
  "OpMessage_ok m \<Longrightarrow>
     read_op_message \<lparr>avail = OpMessage_encode m @ rest, end_error = e\<rparr>
       = Ok (m, \<lparr>avail = rest, end_error = e\<rparr>)"
  using op_stream.read_encode [of m "\<lparr>avail = rest, end_error = e\<rparr>"] by (simp add: feed_def)

text \<open>A device that can be sent: its bus ID fits and it has at most 255 interfaces.\<close>

definition sendable :: "LocalUsbDevice \<Rightarrow> bool" where
  "sendable d \<longleftrightarrow> length (ld_bus_id d) < BUSID_SIZE \<and> list_all is_ascii (ld_bus_id d) \<and>
     length (ld_interfaces d) \<le> 255"

lemma sendable_Ok: "sendable d \<Longrightarrow> \<exists>u. to_protocol_device d = Ok u \<and> UsbDevice_full u"
proof -
  assume s: "sendable d"
  then obtain u where u: "to_protocol_device d = Ok u"
    by (auto simp: sendable_def to_protocol_device_def busid_from_str_def Let_def)
  then show ?thesis using to_protocol_device_full [OF u] s by (auto simp: sendable_def)
qed

lemma list_devices_Ok:
  assumes "\<forall>k \<in> set order. \<exists>e. reg_devices reg k = Some e \<and> sendable (ex_device e)"
  shows "\<exists>ds. list_devices order reg = Ok ds \<and> length ds = length order \<and>
    (\<forall>i < length order. to_protocol_device (ex_device (the (reg_devices reg (order ! i)))) = Ok (ds ! i)) \<and>
    (\<forall>d \<in> set ds. UsbDevice_full d)"
  using assms
proof (induction order)
  case (Cons k ks)
  obtain e where e: "reg_devices reg k = Some e" "sendable (ex_device e)" using Cons.prems by auto
  obtain u where u: "to_protocol_device (ex_device e) = Ok u" "UsbDevice_full u"
    using sendable_Ok [OF e(2)] by blast
  obtain ds where "list_devices ks reg = Ok ds" "length ds = length ks"
    "\<forall>i < length ks. to_protocol_device (ex_device (the (reg_devices reg (ks ! i)))) = Ok (ds ! i)"
    "\<forall>d \<in> set ds. UsbDevice_full d" using Cons by auto
  then show ?case using e u
    by (intro exI [of _ "u # ds"]) (auto simp: list_devices_def nth_Cons split: nat.split)
qed (simp add: list_devices_def)

text \<open>
  A client that asks for the device list receives it: the handler answers
  \<open>OP_REQ_DEVLIST\<close> with one descriptor for each exported device, in the order the registry
  yields them, and the client's reader decodes the reply to exactly that list. (At most 256
  devices, the bound the client enforces.)
\<close>

lemma devlist_reaches_client:
  assumes "read_op_message input = Ok (ReqDevlist q, input')"
    and "distinct order" and "set order = dom (reg_devices reg)" and "length order \<le> 256"
    and "\<forall>e \<in> ran (reg_devices reg). sendable (ex_device e)"
    and "room w = None" and "sent w = []"
  shows "\<exists>ds w'. handle_connection False order now reg input w = (reg, input', w', Closed) \<and>
    read_op_message \<lparr>avail = sent w', end_error = err\<rparr> =
      Ok (RepDevlist \<lparr>devlist_status = 0, devlist_devices = ds\<rparr>, \<lparr>avail = [], end_error = err\<rparr>) \<and>
    length ds = length order \<and>
    (\<forall>i < length order. to_protocol_device (ex_device (the (reg_devices reg (order ! i)))) = Ok (ds ! i))"
proof -
  have "\<forall>k \<in> set order. \<exists>e. reg_devices reg k = Some e \<and> sendable (ex_device e)"
    using assms(3,5) by (auto simp: ran_def)
  from list_devices_Ok [OF this] obtain ds where ds: "list_devices order reg = Ok ds"
    "length ds = length order"
    "\<forall>i < length order. to_protocol_device (ex_device (the (reg_devices reg (order ! i)))) = Ok (ds ! i)"
    "\<forall>d \<in> set ds. UsbDevice_full d" by blast
  let ?m = "RepDevlist \<lparr>devlist_status = 0, devlist_devices = ds\<rparr>"
  have "OpMessage_ok ?m"
    using ds(2,4) assms(4) by (simp add: OpRepDevlist_ok_def MAX_DEVICES_IN_DEVLIST_def)
  then show ?thesis
    using read_op_sent [of ?m "[]" err] ds assms(1,6,7)
    by (auto simp: handle_connection_def handle_devlist_def write_op_message_unlimited)
qed

lemma sample_sendable: "sendable (sample_device ''1-1'')"
  by (simp add: sendable_def sample_device_def BUSID_SIZE_def is_ascii_def)

lemma dom_sample_registry: "dom (reg_devices (sample_registry b)) = {b}"
  by (simp add: sample_registry_def bind_device_with_def new_registry_def with_session_timeout_def)

section \<open>Sessions and the connections that serve them\<close>

lemma acquire_sendable:
  assumes "registry_ok reg" "reg_devices reg b = Some e" "sendable (ex_device e)"
  shows "(\<exists>u. UsbDevice_full u \<and> to_protocol_device (ex_device e) = Ok u \<and> (\<forall>s. hold_of e \<noteq> Held s) \<and>
            fst (try_acquire_ext now reg b) =
              Ok (ex_handle e, u, reg_next_session_id reg,
                  case hold_of e of Grace _ d \<Rightarrow> now < d | _ \<Rightarrow> False)) \<or>
         (\<exists>s. hold_of e = Held s \<and> try_acquire_ext now reg b = (Err (DeviceInUse b), reg))"
proof (cases "\<exists>s. hold_of e = Held s")
  case True
  then show ?thesis using try_acquire_ext_held [OF assms(1), of b] assms(2) by (auto simp: hold_def)
next
  case False
  obtain u where u: "to_protocol_device (ex_device e) = Ok u" "UsbDevice_full u"
    using sendable_Ok [OF assms(3)] by blast
  have "ex_device (clear_session e) = ex_device e" "ex_handle (clear_session e) = ex_handle e"
    by (simp_all add: clear_session_def)
  then show ?thesis
    using False u assms(2) entry_ok_hold [OF registry_okD [OF assms(1,2)]]
    by (cases "hold_of e") (auto simp: try_acquire_ext_def acquire_entry_def Let_def)
qed

text \<open>What the descriptor of an import reply is after the wire: the device without interfaces.\<close>

lemma read_import_reply:
  assumes "UsbDevice_full u"
  shows "read_op_message \<lparr>avail = OpMessage_encode (RepImport \<lparr>import_status = 0, import_device = Some u\<rparr>),
      end_error = err\<rparr> =
    Ok (RepImport \<lparr>import_status = 0, import_device = Some (u\<lparr>interfaces := []\<rparr>)\<rparr>,
        \<lparr>avail = [], end_error = err\<rparr>)"
proof -
  let ?m = "RepImport \<lparr>import_status = 0, import_device = Some (u\<lparr>interfaces := []\<rparr>)\<rparr>"
  have "OpMessage_encode (RepImport \<lparr>import_status = 0, import_device = Some u\<rparr>) = OpMessage_encode ?m"
    by (simp add: OpRepImport_encode_def UsbDevice_encode_def)
  moreover have "OpMessage_ok ?m"
    using assms by (simp add: OpRepImport_ok_def UsbDevice_bare_def UsbDevice_full_def UsbDevice_ok_def)
  ultimately show ?thesis using read_op_sent [of ?m "[]" err] by simp
qed

text \<open>
  C23: The outcome of an import request for a bound device. If a session holds the device the
  client reads a reply with status 1, the registry is unchanged and the connection closes.
  Otherwise the client reads status 0 with the device's descriptor, the device is held by a
  fresh session, and the connection goes on to serve exactly that session. The descriptor
  arrives without its interfaces: an import reply does not carry them. (The device's descriptor can be
  sent, as that of every device found by enumeration.)
\<close>

theorem import_outcome:
  assumes "read_op_message input = Ok (ReqImport req, input')"
    and "extract_bus_id (import_busid req) = b" and "is_valid_bus_id b"
    and "registry_ok reg" and "reg_devices reg b = Some e" and "sendable (ex_device e)"
    and "room w = None" and "sent w = []"
  shows "\<exists>reg' w' oc. handle_connection False order now reg input w = (reg', input', w', oc) \<and>
    (case hold_of e of
       Held s \<Rightarrow> reg' = reg \<and> oc = Closed \<and>
         read_op_message \<lparr>avail = sent w', end_error = err\<rparr> =
           Ok (RepImport \<lparr>import_status = 1, import_device = None\<rparr>, \<lparr>avail = [], end_error = err\<rparr>)
     | _ \<Rightarrow> hold reg' = (hold reg)(b \<mapsto> Held (reg_next_session_id reg)) \<and>
         oc = Serving b (reg_next_session_id reg) (ex_handle e) \<and>
         (\<exists>u. to_protocol_device (ex_device e) = Ok u \<and>
            read_op_message \<lparr>avail = sent w', end_error = err\<rparr> =
              Ok (RepImport \<lparr>import_status = 0, import_device = Some (u\<lparr>interfaces := []\<rparr>)\<rparr>,
                  \<lparr>avail = [], end_error = err\<rparr>)))"
  using acquire_sendable [OF assms(4-6), of now]
proof (elim disjE exE conjE)
  fix u
  assume u: "UsbDevice_full u" "to_protocol_device (ex_device e) = Ok u" "\<forall>s. hold_of e \<noteq> Held s"
    and f: "fst (try_acquire_ext now reg b) = Ok (ex_handle e, u, reg_next_session_id reg,
       case hold_of e of Grace _ d \<Rightarrow> now < d | _ \<Rightarrow> False)"
  obtain reg' where acq: "try_acquire_ext now reg b = (Ok (ex_handle e, u, reg_next_session_id reg,
       case hold_of e of Grace _ d \<Rightarrow> now < d | _ \<Rightarrow> False), reg')"
    using f by (cases "try_acquire_ext now reg b") auto
  have "hold reg' = (hold reg)(b \<mapsto> Held (reg_next_session_id reg))"
    using hold_acquire [OF assms(4), of now b] acq u(3) assms(5)
    by (cases "hold_of e") (auto simp: hold_def fun_eq_iff)
  then show ?thesis
    using acq u assms(1-3,7,8) read_import_reply [OF u(1), of err]
    by (cases "hold_of e") (auto simp: handle_connection_def handle_import_def
      write_op_message_unlimited)
next
  fix s
  assume h: "hold_of e = Held s" and acq: "try_acquire_ext now reg b = (Err (DeviceInUse b), reg)"
  have "OpMessage_ok (RepImport \<lparr>import_status = 1, import_device = None\<rparr>)"
    by (simp add: OpRepImport_ok_def)
  from read_op_sent [OF this, of "[]" err] show ?thesis
    using h acq assms(1-3,7,8)
    by (auto simp: handle_connection_def handle_import_def write_op_message_unlimited)
qed

theorem import_outcome_witness:
  "\<exists>reg' w'. handle_connection False [''1-1''] 5 (sample_registry ''1-1'')
      \<lparr>avail = OpMessage_encode (ReqImport \<lparr>import_busid = as_bytes ''1-1'' @ replicate 29 0\<rparr>),
       end_error = UnexpectedEof\<rparr> \<lparr>sent = [], room = None\<rparr> =
      (reg', \<lparr>avail = [], end_error = UnexpectedEof\<rparr>, w', Serving ''1-1'' 1 (sample_managed ''1-1'')) \<and>
    hold reg' ''1-1'' = Some (Held 1)"
proof -
  let ?m = "ReqImport \<lparr>import_busid = as_bytes ''1-1'' @ replicate 29 0\<rparr>"
  have "OpMessage_ok ?m" by (simp add: OpReqImport_ok_def BUSID_SIZE_def)
  then have r: "read_op_message \<lparr>avail = OpMessage_encode ?m, end_error = UnexpectedEof\<rparr>
      = Ok (?m, \<lparr>avail = [], end_error = UnexpectedEof\<rparr>)"
    using read_op_sent [of ?m "[]" UnexpectedEof] by simp
  have v: "is_valid_bus_id ''1-1''" by code_simp
  have x: "extract_bus_id (import_busid \<lparr>import_busid = as_bytes ''1-1'' @ replicate 29 0\<rparr>) = ''1-1''"
    using extract_padded_bus_id [of "''1-1''" 29] valid_bus_id_ascii [OF v] by simp
  show ?thesis
    using import_outcome [OF r x v sample_registry_ok sample_entry(1), of "\<lparr>sent = [], room = None\<rparr>"
      "[''1-1'']" 5 UnexpectedEof] sample_sendable sample_entry(2) [of "''1-1''"]
    by (auto simp: hold_of_def)
qed

text \<open>
  C24: If the client goes away before the reply to its successful import is written, the
  handler returns without releasing: the connection is closed, but the device stays held by
  the session that was just created, and every later import is refused.
\<close>

theorem lost_import_reply_leaks_device:
  assumes "read_op_message input = Ok (ReqImport req, input')"
    and "extract_bus_id (import_busid req) = b" and "is_valid_bus_id b"
    and "registry_ok reg" and "reg_devices reg b = Some e" and "sendable (ex_device e)"
    and "hold_of e = Free" and "reg_next_session_id reg \<noteq> - 1" and "room w = Some 0"
  shows "\<exists>reg' w'. handle_connection False order now reg input w = (reg', input', w', Closed) \<and>
    hold reg' b = Some (Held (reg_next_session_id reg)) \<and>
    (\<forall>later. try_acquire_ext later reg' b = (Err (DeviceInUse b), reg'))"
proof -
  obtain u where u: "UsbDevice_full u"
    and f: "fst (try_acquire_ext now reg b) = Ok (ex_handle e, u, reg_next_session_id reg, False)"
    using acquire_sendable [OF assms(4-6), of now] assms(7) by auto
  obtain reg' where acq: "try_acquire_ext now reg b =
      (Ok (ex_handle e, u, reg_next_session_id reg, False), reg')"
    using f by (cases "try_acquire_ext now reg b") auto
  have h: "hold reg' b = Some (Held (reg_next_session_id reg))"
    using hold_acquire [OF assms(4), of now b] acq assms(5,7) by (simp add: hold_def)
  have ok: "registry_ok reg'" using registry_ok_acquire [OF assms(4,8), of now b] acq by simp
  have "OpMessage_encode (RepImport \<lparr>import_status = 0, import_device = Some u\<rparr>) \<noteq> []"
    by (simp add: OpRepImport_encode_def encode_op_header_def u16_to_be_bytes_def)
  then have "\<exists>w'. write_op_message w (RepImport \<lparr>import_status = 0, import_device = Some u\<rparr>)
      = (w', Err (Io BrokenPipe))"
    using assms(9) by (simp add: write_op_message_def write_buf_def write_all_def)
  then show ?thesis
    using assms(1-3) acq h try_acquire_ext_held [OF ok h]
    by (auto simp: handle_connection_def handle_import_def)
qed

theorem lost_import_reply_leaks_device_witness:
  "\<exists>reg' w'. handle_connection False [''1-1''] 5 (sample_registry ''1-1'')
      \<lparr>avail = OpMessage_encode (ReqImport \<lparr>import_busid = as_bytes ''1-1'' @ replicate 29 0\<rparr>),
       end_error = UnexpectedEof\<rparr> \<lparr>sent = [], room = Some 0\<rparr> =
      (reg', \<lparr>avail = [], end_error = UnexpectedEof\<rparr>, w', Closed) \<and>
    hold reg' ''1-1'' = Some (Held 1)"
proof -
  let ?m = "ReqImport \<lparr>import_busid = as_bytes ''1-1'' @ replicate 29 0\<rparr>"
  have "OpMessage_ok ?m" by (simp add: OpReqImport_ok_def BUSID_SIZE_def)
  then have r: "read_op_message \<lparr>avail = OpMessage_encode ?m, end_error = UnexpectedEof\<rparr>
      = Ok (?m, \<lparr>avail = [], end_error = UnexpectedEof\<rparr>)"
    using read_op_sent [of ?m "[]" UnexpectedEof] by simp
  have v: "is_valid_bus_id ''1-1''" by code_simp
  have x: "extract_bus_id (import_busid \<lparr>import_busid = as_bytes ''1-1'' @ replicate 29 0\<rparr>) = ''1-1''"
    using extract_padded_bus_id [of "''1-1''" 29] valid_bus_id_ascii [OF v] by simp
  show ?thesis
    using lost_import_reply_leaks_device [OF r x v sample_registry_ok sample_entry(1),
      of "\<lparr>sent = [], room = Some 0\<rparr>" "[''1-1'']" 5] sample_sendable sample_entry(2) [of "''1-1''"]
    by (auto simp: hold_of_def)
qed

end
