(* ===== verification/Server_Engine.thy ===== *)
theory Server_Engine
  imports Server_Connection
begin

text \<open>
  \<open>extender-server/src/engine.rs\<close>: the server that accepts connections and runs a task for each,
  over the one registry. The results of binding the listener, of building a TLS acceptor and of
  a TLS handshake are arguments. A task first handles the connection's request and then, after
  an import, serves URBs until its session ends; the tasks that serve are the field
  \<open>en_tasks\<close> with the device and session of each. URBs themselves do not touch the registry.
\<close>

section \<open>The engine\<close>

record ServerEngine =
  se_registry :: ExportRegistry
  se_tls_acceptor :: bool

definition bound_listener ::
  "(unit, io_error) result \<Rightarrow> (unit, io_error) result \<Rightarrow> (unit, ServerError) result" where
  "bound_listener bind_addr local_addr =
     rbind (map_err ListenerBind bind_addr) (\<lambda>_. map_err ListenerBind local_addr)"

definition ServerEngine_new ::
  "(unit, io_error) result \<Rightarrow> (unit, io_error) result \<Rightarrow> (ServerEngine, ServerError) result" where
  "ServerEngine_new bind_addr local_addr =
     rbind (bound_listener bind_addr local_addr) (\<lambda>_.
     Ok \<lparr>se_registry = new_registry, se_tls_acceptor = False\<rparr>)"

definition new_with_session_timeout ::
  "(unit, io_error) result \<Rightarrow> (unit, io_error) result \<Rightarrow> nat \<Rightarrow> (ServerEngine, ServerError) result" where
  "new_with_session_timeout bind_addr local_addr secs =
     rbind (bound_listener bind_addr local_addr) (\<lambda>_.
     Ok \<lparr>se_registry = with_session_timeout secs, se_tls_acceptor = False\<rparr>)"

definition new_tls ::
  "(unit, ServerError) result \<Rightarrow> (unit, io_error) result \<Rightarrow> (unit, io_error) result
     \<Rightarrow> (ServerEngine, ServerError) result" where
  "new_tls acceptor bind_addr local_addr =
     rbind acceptor (\<lambda>_. rbind (bound_listener bind_addr local_addr) (\<lambda>_.
     Ok \<lparr>se_registry = new_registry, se_tls_acceptor = True\<rparr>))"

definition new_tls_with_session_timeout ::
  "(unit, ServerError) result \<Rightarrow> (unit, io_error) result \<Rightarrow> (unit, io_error) result \<Rightarrow> nat
     \<Rightarrow> (ServerEngine, ServerError) result" where
  "new_tls_with_session_timeout acceptor bind_addr local_addr secs =
     rbind acceptor (\<lambda>_. rbind (bound_listener bind_addr local_addr) (\<lambda>_.
     Ok \<lparr>se_registry = with_session_timeout secs, se_tls_acceptor = True\<rparr>))"

definition from_parts_tls :: "ExportRegistry \<Rightarrow> bool \<Rightarrow> ServerEngine" where
  "from_parts_tls registry tls_acceptor = \<lparr>se_registry = registry, se_tls_acceptor = tls_acceptor\<rparr>"

definition from_parts :: "ExportRegistry \<Rightarrow> ServerEngine" where
  "from_parts registry = \<lparr>se_registry = registry, se_tls_acceptor = False\<rparr>"

section \<open>Connections\<close>

record conn =
  cn_stream :: "stream \<times> sink"
  cn_handshake :: "(stream \<times> sink, unit) result"
  cn_timed_out :: bool
  cn_order :: "string list"

definition connection_task ::
  "bool \<Rightarrow> instant \<Rightarrow> conn \<Rightarrow> ExportRegistry \<Rightarrow> ExportRegistry \<times> outcome" where
  "connection_task tls_acceptor now c registry =
     (if tls_acceptor
      then case cn_handshake c of
             Ok (input, w) \<Rightarrow>
               (case handle_connection (cn_timed_out c) (cn_order c) now registry input w of
                  (registry', _, _, out) \<Rightarrow> (registry', out))
           | _ \<Rightarrow> (registry, Closed)
      else case cn_stream c of
             (input, w) \<Rightarrow>
               (case handle_connection (cn_timed_out c) (cn_order c) now registry input w of
                  (registry', _, _, out) \<Rightarrow> (registry', out)))"

record engine =
  en_now :: instant
  en_server :: ServerEngine
  en_tasks :: "nat \<rightharpoonup> string \<times> SessionId"
  en_accepting :: bool

definition start_engine :: "ServerEngine \<Rightarrow> engine" where
  "start_engine server = \<lparr>en_now = 0, en_server = server, en_tasks = Map.empty, en_accepting = True\<rparr>"

datatype engine_event =
    Accept nat conn
  | AcceptFailed
  | SessionEnds nat
  | Registry reg_event
  | Shutdown

text \<open>What the rest of the daemon does with the registry: it binds, unbinds, and time passes.\<close>

fun external :: "reg_event \<Rightarrow> bool" where
  "external Tick = True"
| "external (Bind _ _ _) = True"
| "external (Unbind _) = True"
| "external (Poll _ _) = True"
| "external (Expire _ _) = True"
| "external _ = False"

definition accept_task :: "nat \<Rightarrow> conn \<Rightarrow> engine \<Rightarrow> engine" where
  "accept_task i c st =
     (case connection_task (se_tls_acceptor (en_server st)) (en_now st) c (se_registry (en_server st)) of
        (reg, out) \<Rightarrow>
          st\<lparr>en_server := (en_server st)\<lparr>se_registry := reg\<rparr>,
             en_tasks := (case out of Serving b s _ \<Rightarrow> (en_tasks st)(i \<mapsto> (b, s)) | Closed \<Rightarrow> en_tasks st)\<rparr>)"

inductive engine_step :: "engine \<Rightarrow> engine_event \<Rightarrow> engine \<Rightarrow> bool" where
  accepted: "en_accepting st \<Longrightarrow> en_tasks st i = None \<Longrightarrow> engine_step st (Accept i c) (accept_task i c st)"
| accept_failed: "en_accepting st \<Longrightarrow> engine_step st AcceptFailed st"
| ended: "en_tasks st i = Some (b, s) \<Longrightarrow>
    engine_step st (SessionEnds i)
      (st\<lparr>en_server := (en_server st)\<lparr>se_registry := finish_connection (en_now st) (se_registry (en_server st)) b s\<rparr>,
          en_tasks := (en_tasks st)(i := None)\<rparr>)"
| registry: "external e \<Longrightarrow> reg_step (en_now st, se_registry (en_server st)) e (now', reg) \<Longrightarrow>
    engine_step st (Registry e) (st\<lparr>en_now := now', en_server := (en_server st)\<lparr>se_registry := reg\<rparr>\<rparr>)"
| shutdown: "engine_step st Shutdown (st\<lparr>en_accepting := False\<rparr>)"

inductive engine_run :: "engine \<Rightarrow> engine_event list \<Rightarrow> engine \<Rightarrow> bool" where
  start: "engine_run st [] st"
| step: "engine_run st evs st' \<Longrightarrow> engine_step st' ev st'' \<Longrightarrow> engine_run st (evs @ [ev]) st''"

section \<open>What a connection does to the registry\<close>

lemma handle_connection_registry:
  assumes "handle_connection timed_out order now reg input w = (reg', input', w', out)"
  shows "out = Closed \<and> reg' = reg \<or>
    (\<exists>b. reg' = snd (try_acquire_ext now reg b) \<and>
       (\<forall>b' s h. out = Serving b' s h \<longrightarrow> b' = b \<and> (\<exists>u r. fst (try_acquire_ext now reg b) = Ok (h, u, s, r))))"
proof -
  have "\<exists>b. reg' = snd (try_acquire_ext now reg b) \<and>
       (\<forall>b' s h. out = Serving b' s h \<longrightarrow> b' = b \<and> (\<exists>u r. fst (try_acquire_ext now reg b) = Ok (h, u, s, r)))"
    if m: "read_op_message input = Ok (ReqImport req, i)" "is_valid_bus_id (extract_bus_id (import_busid req))"
      "\<not> timed_out" for req i
  proof (cases "try_acquire_ext now reg (extract_bus_id (import_busid req))")
    case (Pair r reg1)
    then show ?thesis
      using assms m by (intro exI [of _ "extract_bus_id (import_busid req)"])
        (auto simp: handle_connection_def handle_import_def Let_def rbind_def map_err_def
          split: result.splits prod.splits option.splits)
  qed
  moreover have "out = Closed \<and> reg' = reg"
    if "\<And>req i. read_op_message input = Ok (ReqImport req, i) \<Longrightarrow>
        is_valid_bus_id (extract_bus_id (import_busid req)) \<Longrightarrow> timed_out"
    using assms that by (auto simp: handle_connection_def Let_def
      split: if_splits result.splits prod.splits OpMessage.splits)
  ultimately show ?thesis by blast
qed

lemma acquired:
  assumes "registry_ok reg" "fst (try_acquire_ext now reg b) = Ok (h, u, s, r)"
  shows "s = reg_next_session_id reg" "hold (snd (try_acquire_ext now reg b)) = (hold reg)(b \<mapsto> Held s)"
    "\<forall>s'. hold reg b \<noteq> Some (Held s')"
proof -
  obtain e where e: "reg_devices reg b = Some e"
    using assms(2) by (auto simp: try_acquire_ext_def split: option.splits)
  note st = entry_ok_hold [OF registry_okD [OF assms(1) e]]
  show s: "s = reg_next_session_id reg" and free: "\<forall>s'. hold reg b \<noteq> Some (Held s')"
    using assms(2) e st
    by (cases "hold_of e"; auto simp: try_acquire_ext_def acquire_entry_def hold_def Let_def rbind_def
      split: result.splits if_splits)+
  show "hold (snd (try_acquire_ext now reg b)) = (hold reg)(b \<mapsto> Held s)"
    using hold_acquire [OF assms(1), of now b] e free s
    by (cases "hold_of e") (auto simp: hold_def fun_eq_iff)
qed

lemma acquire_keeps_held:
  assumes "registry_ok reg" "hold reg b' = Some (Held s)"
  shows "hold (snd (try_acquire_ext now reg b)) b' = Some (Held s)"
  using hold_acquire [OF assms(1), of now b] assms(2) by auto

lemma external_keeps_held:
  assumes "reg_step (now, reg) e (now', reg')" "external e" "\<forall>b. e \<noteq> Unbind b" "hold reg b = Some (Held s)"
  shows "hold reg' b = Some (Held s)"
  using assms by (auto simp: hold_bind hold_expire)

section \<open>One session per device\<close>

definition engine_ok :: "nat \<Rightarrow> engine \<Rightarrow> bool" where
  "engine_ok n st \<longleftrightarrow>
     (let reg = se_registry (en_server st) in
      registry_ok reg \<and> unat (reg_next_session_id reg) \<le> Suc n \<and>
      (\<forall>i b s. en_tasks st i = Some (b, s) \<longrightarrow> hold reg b = Some (Held s)) \<and>
      (\<forall>i j b b' s. en_tasks st i = Some (b, s) \<longrightarrow> en_tasks st j = Some (b', s) \<longrightarrow> i = j))"

lemma held_below_counter:
  assumes "registry_ok reg" "hold reg b = Some (Held s)"
  shows "s < reg_next_session_id reg"
proof -
  obtain e where e: "reg_devices reg b = Some e" "hold_of e = Held s"
    using assms(2) by (auto simp: hold_def)
  have "ex_active_session e = Some s" using entry_ok_hold(1) [OF registry_okD [OF assms(1) e(1)]] e(2) by simp
  then show ?thesis using assms(1) e(1) by (auto simp: registry_ok_def)
qed

lemma engine_ok_accept:
  assumes "engine_ok n st" "n < 2 ^ 64 - 2" "en_tasks st i = None"
  shows "engine_ok (Suc n) (accept_task i c st)"
proof -
  let ?reg = "se_registry (en_server st)"
  obtain reg out where t: "connection_task (se_tls_acceptor (en_server st)) (en_now st) c ?reg = (reg, out)"
    by (cases "connection_task (se_tls_acceptor (en_server st)) (en_now st) c ?reg")
  have ok: "registry_ok ?reg" "unat (reg_next_session_id ?reg) \<le> Suc n"
    "\<And>i b s. en_tasks st i = Some (b, s) \<Longrightarrow> hold ?reg b = Some (Held s)"
    "\<And>i j b b' s. en_tasks st i = Some (b, s) \<Longrightarrow> en_tasks st j = Some (b', s) \<Longrightarrow> i = j"
    using assms(1) by (auto simp: engine_ok_def Let_def)
  have "out = Closed \<and> reg = ?reg \<or> (\<exists>b. reg = snd (try_acquire_ext (en_now st) ?reg b) \<and>
      (\<forall>b' s h. out = Serving b' s h \<longrightarrow> b' = b \<and> (\<exists>u r. fst (try_acquire_ext (en_now st) ?reg b) = Ok (h, u, s, r))))"
    using t handle_connection_registry
    by (auto simp: connection_task_def split: if_splits result.splits prod.splits)
  then consider "out = Closed" "reg = ?reg"
    | b where "reg = snd (try_acquire_ext (en_now st) ?reg b)" "out = Closed"
    | b s h u r where "reg = snd (try_acquire_ext (en_now st) ?reg b)" "out = Serving b s h"
        "fst (try_acquire_ext (en_now st) ?reg b) = Ok (h, u, s, r)"
    by (cases out) auto
  then show ?thesis
  proof cases
    case 1
    then show ?thesis using t ok by (auto simp: accept_task_def engine_ok_def Let_def)
  next
    case (2 b)
    then show ?thesis
      using t ok registry_ok_counted_step [OF reg_step.acquire ok(1,2) assms(2), of "en_now st" b]
        acquire_keeps_held [OF ok(1)]
      by (auto simp: accept_task_def engine_ok_def Let_def)
  next
    case (3 b s h u r)
    have held: "hold reg b = Some (Held s)" "s = reg_next_session_id ?reg"
      using acquired [OF ok(1) 3(3)] 3(1) by simp_all
    have fresh: "en_tasks st j \<noteq> Some (b', s)" for j b'
      using held_below_counter [OF ok(1) ok(3), of j b' s] held(2) by auto
    show ?thesis
      using t 3 ok assms(3) held(1) fresh acquire_keeps_held [OF ok(1)]
        registry_ok_counted_step [OF reg_step.acquire ok(1,2) assms(2), of "en_now st" b]
      by (auto simp: accept_task_def engine_ok_def Let_def)
  qed
qed

lemma engine_ok_ended:
  assumes "engine_ok n st" "n < 2 ^ 64 - 2" "en_tasks st i = Some (b, s)"
  shows "engine_ok (Suc n) (st\<lparr>en_server := (en_server st)\<lparr>se_registry :=
      finish_connection (en_now st) (se_registry (en_server st)) b s\<rparr>, en_tasks := (en_tasks st)(i := None)\<rparr>)"
proof -
  let ?reg = "se_registry (en_server st)"
  have ok: "registry_ok ?reg" "unat (reg_next_session_id ?reg) \<le> Suc n"
    "\<And>i b s. en_tasks st i = Some (b, s) \<Longrightarrow> hold ?reg b = Some (Held s)"
    "\<And>i j b b' s. en_tasks st i = Some (b, s) \<Longrightarrow> en_tasks st j = Some (b', s) \<Longrightarrow> i = j"
    using assms(1) by (auto simp: engine_ok_def Let_def)
  have "hold (release (en_now st) ?reg b s) b' = Some (Held s')"
    if j: "en_tasks st j = Some (b', s')" "j \<noteq> i" for j b' s'
  proof -
    have "b' \<noteq> b" using ok(3) [OF j(1)] ok(3) [OF assms(3)] ok(4) [OF j(1)] assms(3) j(2) by auto
    then show ?thesis using hold_release [OF ok(1)] ok(3) [OF j(1)] by simp
  qed
  then show ?thesis
    using ok registry_ok_counted_step [OF reg_step.release ok(1,2) assms(2), of "en_now st" b s]
    by (auto simp: engine_ok_def finish_connection_def Let_def)
qed

lemma engine_ok_step:
  assumes "engine_step st ev st'" "engine_ok n st" "n < 2 ^ 64 - 2" "\<forall>b. ev \<noteq> Registry (Unbind b)"
  shows "engine_ok (Suc n) st'"
  using assms(1)
proof cases
  case (registry e now' reg)
  then show ?thesis
    using assms registry_ok_counted_step [OF registry(4), of n] external_keeps_held [OF registry(4,3)]
    by (auto simp: engine_ok_def Let_def simp del: reg_step_cases)
next
  case (accepted i c)
  then show ?thesis using engine_ok_accept [OF assms(2,3)] by simp
next
  case (ended i b s)
  then show ?thesis using engine_ok_ended [OF assms(2,3)] by simp
qed (use assms(2) in \<open>auto simp: engine_ok_def Let_def\<close>)

lemma engine_run_ok:
  assumes "engine_run st0 evs st" "engine_ok 0 st0" "length evs < 2 ^ 64 - 2"
    and "\<forall>b. Registry (Unbind b) \<notin> set evs"
  shows "engine_ok (length evs) st"
  using assms
proof (induction rule: engine_run.induct)
  case (step st evs st' ev st'')
  then show ?case using engine_ok_step [of st' ev st'' "length evs"] by auto
qed simp

lemma engine_ok_start:
  "se_registry server = with_session_timeout secs \<Longrightarrow> engine_ok 0 (start_engine server)"
  by (simp add: engine_ok_def start_engine_def registry_ok_new) (simp add: with_session_timeout_def)

text \<open>With a TLS acceptor, a connection whose handshake fails is never served.\<close>

lemma failed_handshake_closed:
  "cn_handshake c = Err u \<Longrightarrow> connection_task True now c reg = (reg, Closed)"
  by (simp add: connection_task_def)

text \<open>
  C39: A device is served by at most one connection at a time. Whatever connections arrive and
  end, in whatever order, while devices are bound, sessions expire and the server is told to
  stop: two tasks that serve the same device are the same task, and the registry records its
  session as the holder. (Runs in which a device is unbound are left out, since unbinding a device
  that is being served leaves its session running. Fewer than \<open>2 ^ 64 - 2\<close> events happen.)
\<close>

theorem one_session_per_device:
  assumes "engine_run (start_engine server) evs st" and "se_registry server = with_session_timeout secs"
    and "length evs < 2 ^ 64 - 2" and "\<forall>b. Registry (Unbind b) \<notin> set evs"
    and "en_tasks st i = Some (b, s)" and "en_tasks st j = Some (b, s')"
  shows "i = j \<and> s = s' \<and> hold (se_registry (en_server st)) b = Some (Held s)"
proof -
  have "engine_ok (length evs) st"
    using engine_run_ok [OF assms(1) engine_ok_start [OF assms(2)] assms(3,4)] .
  then have held: "\<And>i b s. en_tasks st i = Some (b, s) \<Longrightarrow> hold (se_registry (en_server st)) b = Some (Held s)"
    and unique: "\<And>i j b b' s. en_tasks st i = Some (b, s) \<Longrightarrow> en_tasks st j = Some (b', s) \<Longrightarrow> i = j"
    unfolding engine_ok_def Let_def by blast+
  have "s = s'" using held [OF assms(5)] held [OF assms(6)] by simp
  then show ?thesis using unique [OF assms(5)] assms(6) held [OF assms(5)] by blast
qed

section \<open>A server with one device\<close>

definition import_conn :: conn where
  "import_conn =
     \<lparr>cn_stream = (received (OpMessage_encode (ReqImport \<lparr>import_busid = as_bytes ''1-1'' @ replicate 29 0\<rparr>)),
        empty_sink), cn_handshake = Err (), cn_timed_out = False, cn_order = []\<rparr>"

lemma import_conn_served:
  assumes "registry_ok reg" "reg_devices reg ''1-1'' = Some e" "sendable (ex_device e)" "hold_of e = Free"
  shows "connection_task False now import_conn reg =
    (snd (try_acquire_ext now reg ''1-1''), Serving ''1-1'' (reg_next_session_id reg) (ex_handle e))"
proof -
  let ?m = "ReqImport \<lparr>import_busid = as_bytes ''1-1'' @ replicate 29 0\<rparr>"
  have "OpMessage_ok ?m" by (simp add: OpReqImport_ok_def BUSID_SIZE_def)
  then have r: "read_op_message (received (OpMessage_encode ?m)) = Ok (?m, received [])"
    using read_op_sent [of ?m "[]" UnexpectedEof] by simp
  have v: "is_valid_bus_id ''1-1''" by code_simp
  have x: "extract_bus_id (as_bytes ''1-1'' @ replicate 29 0) = ''1-1''"
    using extract_padded_bus_id [of "''1-1''" 29] valid_bus_id_ascii [OF v] by simp
  obtain u where "fst (try_acquire_ext now reg ''1-1'') = Ok (ex_handle e, u, reg_next_session_id reg, False)"
    using acquire_sendable [OF assms(1-3), of now] assms(4) by auto
  then show ?thesis
    using r v x by (cases "try_acquire_ext now reg ''1-1''")
      (simp add: connection_task_def import_conn_def handle_connection_def handle_import_def
        write_op_message_unlimited)
qed

definition bind_event :: engine_event where
  "bind_event = Registry (Bind ''1-1'' (sample_device ''1-1'') (sample_managed ''1-1''))"

definition bound_engine :: "engine \<Rightarrow> engine" where
  "bound_engine st = st\<lparr>en_server := (en_server st)\<lparr>se_registry := snd (bind_device_with
     (se_registry (en_server st)) ''1-1'' (sample_device ''1-1'') (sample_managed ''1-1''))\<rparr>\<rparr>"

lemma bind_step: "engine_step st bind_event (bound_engine st)"
  unfolding bind_event_def bound_engine_def
  using engine_step.registry [OF _ reg_step.bind, of "''1-1''" "sample_device ''1-1''" "sample_managed ''1-1''" st]
  by simp

lemma import_after_bind:
  assumes "registry_ok (se_registry (en_server st))" "reg_devices (se_registry (en_server st)) ''1-1'' = None"
    and "\<not> se_tls_acceptor (en_server st)"
  shows "en_tasks (accept_task i import_conn (bound_engine st)) =
      (en_tasks st)(i \<mapsto> (''1-1'', reg_next_session_id (se_registry (en_server st))))"
proof -
  let ?reg = "snd (bind_device_with (se_registry (en_server st)) ''1-1'' (sample_device ''1-1'') (sample_managed ''1-1''))"
  have reg: "registry_ok ?reg" "reg_next_session_id ?reg = reg_next_session_id (se_registry (en_server st))"
    using registry_ok_bind [OF assms(1)] assms(2) by (simp_all add: bind_device_with_def)
  obtain e where e: "reg_devices ?reg ''1-1'' = Some e" "ex_device e = sample_device ''1-1''" "hold_of e = Free"
    using assms(2) by (simp add: bind_device_with_def hold_of_def domIff)
  show ?thesis
    using import_conn_served [OF reg(1) e(1) _ e(3), of "en_now st"] sample_sendable e(2) assms(3) reg(2)
    by (simp add: accept_task_def bound_engine_def)
qed

text \<open>The device is bound and a connection imports it.\<close>

lemma served_device:
  defines "init \<equiv> start_engine (from_parts (with_session_timeout 30))"
  defines "st \<equiv> accept_task 0 import_conn (bound_engine init)"
  shows "engine_run init [bind_event, Accept 0 import_conn] st" "en_tasks st = [0 \<mapsto> (''1-1'', 1)]"
    "registry_ok (se_registry (en_server st))" "en_accepting st" "\<not> se_tls_acceptor (en_server st)"
proof -
  have reg: "se_registry (en_server init) = with_session_timeout 30" "\<not> se_tls_acceptor (en_server init)"
    "reg_devices (with_session_timeout 30) = Map.empty" "reg_next_session_id (with_session_timeout 30) = 1"
    "en_tasks init = Map.empty"
    by (simp_all add: init_def start_engine_def from_parts_def with_session_timeout_def)
  show "en_tasks st = [0 \<mapsto> (''1-1'', 1)]"
    using import_after_bind [of init 0] registry_ok_new [of 30] by (simp add: reg st_def)
  have "engine_step (bound_engine init) (Accept 0 import_conn) st"
    unfolding st_def by (rule engine_step.accepted) (simp_all add: bound_engine_def init_def start_engine_def)
  then show run: "engine_run init [bind_event, Accept 0 import_conn] st"
    using engine_run.step [OF engine_run.step [OF engine_run.start bind_step]] by simp
  have "engine_ok 0 init" unfolding init_def by (rule engine_ok_start) (simp add: from_parts_def)
  from engine_run_ok [OF run this] show "registry_ok (se_registry (en_server st))"
    by (simp add: engine_ok_def Let_def bind_event_def)
  show "en_accepting st" "\<not> se_tls_acceptor (en_server st)"
    using reg(2) by (simp_all add: st_def accept_task_def bound_engine_def init_def start_engine_def split: prod.split)
qed

theorem one_session_per_device_witness:
  "\<exists>st. engine_run (start_engine (from_parts (with_session_timeout 30))) [bind_event, Accept 0 import_conn] st \<and>
     en_tasks st 0 = Some (''1-1'', 1) \<and> hold (se_registry (en_server st)) ''1-1'' = Some (Held 1)"
proof -
  note run = served_device(1) and t = served_device(2)
  show ?thesis
    using one_session_per_device [OF run, of 30 0 "''1-1''" 1 0 1] run t
    by (intro exI conjI) (simp_all add: from_parts_def bind_event_def)
qed

text \<open>
  When the device is unbound while it is served, the session goes on; bound again, the device is
  given to a second connection.
\<close>

lemma unbind_allows_second_session:
  "\<exists>st evs. engine_run (start_engine (from_parts (with_session_timeout 30))) evs st \<and>
     en_tasks st 0 = Some (''1-1'', 1) \<and> (\<exists>s. en_tasks st 1 = Some (''1-1'', s))"
proof -
  define st where "st = accept_task 0 import_conn
    (bound_engine (start_engine (from_parts (with_session_timeout 30))))"
  note served = served_device [folded st_def]
  define st2 where "st2 = st\<lparr>en_server := (en_server st)\<lparr>se_registry :=
    snd (unbind_device (se_registry (en_server st)) ''1-1'')\<rparr>\<rparr>"
  have unbind: "engine_step st (Registry (Unbind ''1-1'')) st2"
    using engine_step.registry [OF _ reg_step.unbind, of "''1-1''" st] by (simp add: st2_def)
  have reg: "registry_ok (se_registry (en_server st2))" "reg_devices (se_registry (en_server st2)) ''1-1'' = None"
    using registry_ok_unbind [OF served(3)] by (simp_all add: st2_def unbind_device_def split: option.split)
  have tasks: "en_tasks (accept_task 1 import_conn (bound_engine st2)) =
      [0 \<mapsto> (''1-1'', 1), 1 \<mapsto> (''1-1'', reg_next_session_id (se_registry (en_server st2)))]"
    using import_after_bind [OF reg, of 1] served(2,5) by (simp add: st2_def)
  have "engine_step (bound_engine st2) (Accept 1 import_conn) (accept_task 1 import_conn (bound_engine st2))"
    by (rule engine_step.accepted) (use served(2,4) in \<open>simp_all add: bound_engine_def st2_def\<close>)
  from engine_run.step [OF engine_run.step [OF engine_run.step [OF served(1) unbind] bind_step] this]
  have "\<exists>evs. engine_run (start_engine (from_parts (with_session_timeout 30))) evs
      (accept_task 1 import_conn (bound_engine st2))" by blast
  moreover have "en_tasks (accept_task 1 import_conn (bound_engine st2)) 0 = Some (''1-1'', 1)"
    "\<exists>s. en_tasks (accept_task 1 import_conn (bound_engine st2)) 1 = Some (''1-1'', s)"
    unfolding tasks by simp_all
  ultimately show ?thesis by blast
qed

end
