(* ===== verification/Net_Tls.thy ===== *)
theory Net_Tls
  imports Server_Device Client_Conn
begin

text \<open>
  How the two ends configure TLS: \<open>extender-server/src/tls.rs\<close> and \<open>extender-client/src/tls.rs\<close>.
  Opening a file, the PEM parser and the checks of \<open>rustls\<close> are the record \<open>pki\<close>: its fields say
  what they answer. A configuration is modelled by what it contains, the certificates shown,
  the roots trusted and whether the other side has to show a certificate.
\<close>

section \<open>Certificates and keys\<close>

datatype 'k pem_item = Pkcs1Key 'k | Pkcs8Key 'k | Sec1Key 'k | OtherItem

datatype 'k PrivateKeyDer = Pkcs1 'k | Pkcs8 'k | Sec1 'k

text \<open>
  \<open>pk_certs\<close> and \<open>pk_items\<close> are the items that the readers of the PEM crate yield one by one, each
  of which may be an error.
\<close>

record ('c, 'k) pki =
  pk_open :: "string \<Rightarrow> (bytes, string) result"
  pk_certs :: "bytes \<Rightarrow> ('c, string) result list"
  pk_items :: "bytes \<Rightarrow> ('k pem_item, string) result list"
  pk_add_root :: "'c \<Rightarrow> (unit, string) result"
  pk_verifier :: "'c list \<Rightarrow> (unit, string) result"
  pk_identity :: "'c list \<Rightarrow> 'k PrivateKeyDer \<Rightarrow> (unit, string) result"
  pk_server_name :: "string \<Rightarrow> (string, string) result"

definition load_certs_as ::
  "(string \<Rightarrow> 'e) \<Rightarrow> ('c, 'k) pki \<Rightarrow> string \<Rightarrow> ('c list, 'e) result" where
  "load_certs_as err pki fname =
     rbind (map_err (\<lambda>e. err (''failed to open cert file '' @ fname @ '': '' @ e)) (pk_open pki fname)) (\<lambda>file.
     rbind (map_err (\<lambda>e. err (''failed to parse certs from '' @ fname @ '': '' @ e))
              (rmap (\<lambda>r. r) (pk_certs pki file))) (\<lambda>certs.
     if certs = [] then Err (err (''no certificates found in '' @ fname)) else Ok certs))"

fun first_key ::
  "(string \<Rightarrow> 'e) \<Rightarrow> string \<Rightarrow> ('k pem_item, string) result list \<Rightarrow> ('k PrivateKeyDer, 'e) result" where
  "first_key err fname [] = Err (err (''no private key found in '' @ fname))"
| "first_key err fname (r # rs) =
     rbind (map_err (\<lambda>e. err (''failed to parse key from '' @ fname @ '': '' @ e)) r) (\<lambda>item.
     case item of
       Pkcs1Key key \<Rightarrow> Ok (Pkcs1 key)
     | Pkcs8Key key \<Rightarrow> Ok (Pkcs8 key)
     | Sec1Key key \<Rightarrow> Ok (Sec1 key)
     | OtherItem \<Rightarrow> first_key err fname rs)"

definition load_private_key_as ::
  "(string \<Rightarrow> 'e) \<Rightarrow> ('c, 'k) pki \<Rightarrow> string \<Rightarrow> ('k PrivateKeyDer, 'e) result" where
  "load_private_key_as err pki fname =
     rbind (map_err (\<lambda>e. err (''failed to open key file '' @ fname @ '': '' @ e)) (pk_open pki fname)) (\<lambda>file.
     first_key err fname (pk_items pki file))"

fun add_roots ::
  "(string \<Rightarrow> 'e) \<Rightarrow> ('c, 'k) pki \<Rightarrow> 'c list \<Rightarrow> 'c list \<Rightarrow> ('c list, 'e) result" where
  "add_roots err pki root_store [] = Ok root_store"
| "add_roots err pki root_store (cert # certs) =
     rbind (map_err (\<lambda>e. err (''failed to add CA certificate: '' @ e)) (pk_add_root pki cert)) (\<lambda>_.
     add_roots err pki (root_store @ [cert]) certs)"

section \<open>The server\<close>

record TlsServerConfig =
  ts_cert_path :: string
  ts_key_path :: string
  ts_ca_path :: "string option"

record ('c, 'k) acceptor =
  ta_certs :: "'c list"
  ta_key :: "'k PrivateKeyDer"
  ta_client_roots :: "'c list option"
  ta_alpn :: "string list"

definition server_load_certs :: "('c, 'k) pki \<Rightarrow> string \<Rightarrow> ('c list, ServerError) result" where
  "server_load_certs = load_certs_as Tls"

definition server_load_private_key :: "('c, 'k) pki \<Rightarrow> string \<Rightarrow> ('k PrivateKeyDer, ServerError) result" where
  "server_load_private_key = load_private_key_as Tls"

definition build_acceptor :: "('c, 'k) pki \<Rightarrow> TlsServerConfig \<Rightarrow> (('c, 'k) acceptor, ServerError) result" where
  "build_acceptor pki cfg =
     rbind (server_load_certs pki (ts_cert_path cfg)) (\<lambda>certs.
     rbind (server_load_private_key pki (ts_key_path cfg)) (\<lambda>key.
     rbind (case ts_ca_path cfg of
              Some ca_path \<Rightarrow>
                rbind (server_load_certs pki ca_path) (\<lambda>ca_certs.
                rbind (add_roots Tls pki [] ca_certs) (\<lambda>root_store.
                rbind (map_err (\<lambda>e. Tls (''failed to build client verifier: '' @ e)) (pk_verifier pki root_store)) (\<lambda>_.
                rbind (map_err (\<lambda>e. Tls (''invalid server TLS config: '' @ e)) (pk_identity pki certs key)) (\<lambda>_.
                Ok \<lparr>ta_certs = certs, ta_key = key, ta_client_roots = Some root_store, ta_alpn = []\<rparr>))))
            | None \<Rightarrow>
                rbind (map_err (\<lambda>e. Tls (''invalid server TLS config: '' @ e)) (pk_identity pki certs key)) (\<lambda>_.
                Ok \<lparr>ta_certs = certs, ta_key = key, ta_client_roots = None, ta_alpn = []\<rparr>)) (\<lambda>server_config.
     Ok (server_config\<lparr>ta_alpn := [''usbip'']\<rparr>))))"

section \<open>The client\<close>

record TlsClientConfig =
  tk_ca_path :: "string option"
  tk_client_cert_path :: "string option"
  tk_client_key_path :: "string option"
  tk_server_name :: "string option"

definition with_ca :: "string \<Rightarrow> TlsClientConfig" where
  "with_ca ca_path =
     \<lparr>tk_ca_path = Some ca_path, tk_client_cert_path = None, tk_client_key_path = None, tk_server_name = None\<rparr>"

record ('c, 'k) connector =
  tn_roots :: "'c list"
  tn_identity :: "('c list \<times> 'k PrivateKeyDer) option"

definition client_load_certs :: "('c, 'k) pki \<Rightarrow> string \<Rightarrow> ('c list, ClientError) result" where
  "client_load_certs = load_certs_as Client_Tls"

definition client_load_private_key :: "('c, 'k) pki \<Rightarrow> string \<Rightarrow> ('k PrivateKeyDer, ClientError) result" where
  "client_load_private_key = load_private_key_as Client_Tls"

definition build_connector ::
  "('c, 'k) pki \<Rightarrow> TlsClientConfig \<Rightarrow> (('c, 'k) connector, ClientError) result" where
  "build_connector pki cfg =
     rbind (case tk_ca_path cfg of
              Some ca_path \<Rightarrow>
                rbind (client_load_certs pki ca_path) (\<lambda>certs. add_roots Client_Tls pki [] certs)
            | None \<Rightarrow> Ok []) (\<lambda>root_store.
     case (tk_client_cert_path cfg, tk_client_key_path cfg) of
       (Some cert_path, Some key_path) \<Rightarrow>
         rbind (client_load_certs pki cert_path) (\<lambda>certs.
         rbind (client_load_private_key pki key_path) (\<lambda>key.
         rbind (map_err (\<lambda>e. Client_Tls (''invalid client auth config: '' @ e)) (pk_identity pki certs key)) (\<lambda>_.
         Ok \<lparr>tn_roots = root_store, tn_identity = Some (certs, key)\<rparr>)))
     | _ \<Rightarrow> Ok \<lparr>tn_roots = root_store, tn_identity = None\<rparr>)"

definition server_name :: "('c, 'k) pki \<Rightarrow> TlsClientConfig \<Rightarrow> (string, ClientError) result" where
  "server_name pki cfg =
     (let name = (case tk_server_name cfg of Some n \<Rightarrow> n | None \<Rightarrow> ''localhost'') in
      map_err (\<lambda>e. Client_Tls (''invalid server name '' @ CHR 0x27 # name @ [CHR 0x27] @ '': '' @ e))
        (pk_server_name pki name))"

section \<open>What a configuration contains\<close>

lemma load_certs_Ok:
  "load_certs_as err pki fname = Ok certs \<longleftrightarrow>
     certs \<noteq> [] \<and> (\<exists>file. pk_open pki fname = Ok file \<and> pk_certs pki file = map Ok certs)"
proof -
  have "rmap (\<lambda>r. r) rs = Ok cs \<longleftrightarrow> rs = map Ok cs" for rs :: "('a, string) result list" and cs
    by (auto simp: rmap_eq_Ok list_all2_conv_all_nth intro: nth_equalityI)
  then show ?thesis by (auto simp: load_certs_as_def rbind_eq_Ok)
qed

text \<open>The key that is loaded is the first one of the file, whatever precedes it.\<close>

fun key_of :: "'k pem_item \<Rightarrow> 'k PrivateKeyDer option" where
  "key_of (Pkcs1Key k) = Some (Pkcs1 k)"
| "key_of (Pkcs8Key k) = Some (Pkcs8 k)"
| "key_of (Sec1Key k) = Some (Sec1 k)"
| "key_of OtherItem = None"

lemma first_key_iff:
  "first_key err fname rs = Ok key \<longleftrightarrow>
     (\<exists>n item. rs = replicate n (Ok OtherItem) @ Ok item # drop (Suc n) rs \<and> key_of item = Some key)"
proof (induction err fname rs rule: first_key.induct)
  case (2 err fname r rs)
  have skip: "(\<exists>n item. Ok OtherItem # rs = replicate n (Ok OtherItem) @ Ok item # drop (Suc n) (Ok OtherItem # rs) \<and>
        key_of item = Some key) \<longleftrightarrow>
      (\<exists>n item. rs = replicate n (Ok OtherItem) @ Ok item # drop (Suc n) rs \<and> key_of item = Some key)" (is "?L \<longleftrightarrow> ?R")
  proof
    assume ?L
    then obtain n item where "Ok OtherItem # rs = replicate n (Ok OtherItem) @ Ok item # drop (Suc n) (Ok OtherItem # rs)"
      "key_of item = Some key" by blast
    then show ?R by (cases n) auto
  next
    assume ?R
    then obtain n item where "rs = replicate n (Ok OtherItem) @ Ok item # drop (Suc n) rs" "key_of item = Some key"
      by blast
    then show ?L by (intro exI [of _ "Suc n"] exI [of _ item]) simp
  qed
  have other: "(\<exists>n item. r # rs = replicate n (Ok OtherItem) @ Ok item # drop (Suc n) (r # rs) \<and>
      key_of item = Some key) \<longleftrightarrow> (\<exists>item. r = Ok item \<and> key_of item = Some key)" if "r \<noteq> Ok OtherItem"
  proof
    assume "\<exists>n item. r # rs = replicate n (Ok OtherItem) @ Ok item # drop (Suc n) (r # rs) \<and> key_of item = Some key"
    then obtain n item where "r # rs = replicate n (Ok OtherItem) @ Ok item # drop (Suc n) (r # rs)"
      "key_of item = Some key" by blast
    then show "\<exists>item. r = Ok item \<and> key_of item = Some key" using that by (cases n) auto
  qed (auto intro!: exI [of _ 0])
  show ?case
  proof (cases r)
    case (Ok item)
    then show ?thesis using 2 skip other by (cases item) (auto simp: map_err_def)
  next
    case (Err e)
    then show ?thesis using other by (simp add: map_err_def)
  next
    case Panic
    then show ?thesis using other by (simp add: map_err_def)
  qed
qed simp

lemma add_roots_Ok:
  "add_roots err pki store certs = Ok store' \<longleftrightarrow>
     store' = store @ certs \<and> (\<forall>c \<in> set certs. pk_add_root pki c = Ok ())"
  by (induction err pki store certs rule: add_roots.induct) (auto simp: rbind_eq_Ok)

text \<open>
  A server with a CA file accepts only clients that show a certificate under one of the CAs of the
  file, and there is at least one; without it, it asks for none. Both show the certificates of
  the certificate file.
\<close>

lemma acceptor_authenticates:
  assumes "build_acceptor pki cfg = Ok acc"
  shows "ta_client_roots acc = None \<longleftrightarrow> ts_ca_path cfg = None"
    and "ts_ca_path cfg = Some ca \<Longrightarrow> \<exists>roots. ta_client_roots acc = Some roots \<and> roots \<noteq> [] \<and>
      server_load_certs pki ca = Ok roots"
    and "server_load_certs pki (ts_cert_path cfg) = Ok (ta_certs acc)"
    and "server_load_private_key pki (ts_key_path cfg) = Ok (ta_key acc)" and "ta_alpn acc = [''usbip'']"
  using assms
  by (cases "ts_ca_path cfg"; auto simp: build_acceptor_def rbind_eq_Ok add_roots_Ok server_load_certs_def load_certs_Ok)+

text \<open>
  A client that was given a CA file trusts exactly its certificates. Without one it trusts nobody:
  its store of roots is empty, not the store of the system. Half a client identity is dropped.
\<close>

lemma connector_trust:
  assumes "build_connector pki cfg = Ok con"
  shows "tk_ca_path cfg = None \<Longrightarrow> tn_roots con = []"
    and "tk_ca_path cfg = Some ca \<Longrightarrow> client_load_certs pki ca = Ok (tn_roots con) \<and> tn_roots con \<noteq> []"
    and "tn_identity con \<noteq> None \<longleftrightarrow> tk_client_cert_path cfg \<noteq> None \<and> tk_client_key_path cfg \<noteq> None"
  using assms
  by (cases "tk_ca_path cfg"; cases "tk_client_cert_path cfg"; cases "tk_client_key_path cfg";
      auto simp: build_connector_def rbind_eq_Ok add_roots_Ok client_load_certs_def load_certs_Ok)+

text \<open>
  Both ends that read the same CA file hold the same roots: the client trusts what the server asks
  of its clients, as with the files that \<open>extender tls-gen\<close> writes.
\<close>

lemma same_ca_same_roots:
  assumes "build_acceptor pki scfg = Ok acc" "build_connector pki ccfg = Ok con"
    and "ts_ca_path scfg = Some ca" "tk_ca_path ccfg = Some ca"
  shows "ta_client_roots acc = Some (tn_roots con)"
  using acceptor_authenticates(2) [OF assms(1,3)] connector_trust(2) [OF assms(2,4)]
  by (auto simp: server_load_certs_def client_load_certs_def load_certs_Ok) (metis result.inject(1) map_injective inj_def)

end
