(* ===== verification/Daemon_Run.thy ===== *)
theory Daemon_Run
  imports Daemon_Api Server_Engine Net_Tls
begin

text \<open>
  Starting and stopping the daemon: \<open>extender-daemon/src/privileges.rs\<close> (the PID file, dropping privileges on
  Linux), \<open>lib.rs\<close> (\<open>Daemon::run\<close> up to the point where the servers run),
  \<open>signals.rs\<close>, and \<open>extender-cli/src/commands/daemon.rs\<close> (options of the command line). The file system is a map
  from paths to contents; the operating system's answers (is a process running, may a file be
  removed or created, users and groups, binding a socket) are arguments. Creating the PID file
  is also split into the steps at which another process can come in between.
\<close>

section \<open>The PID file\<close>

datatype PrivilegeError =
    Priv_Io io_error
  | PidFileStale string u32
  | DropFailed string

type_synonym files = "string \<rightharpoonup> string"

record sys =
  sy_kill :: "i32 \<Rightarrow> bool"
  sy_remove :: "(unit, io_error) result"
  sy_parent :: "(unit, io_error) result"
  sy_create :: "(unit, io_error) result"
  sy_write :: "(unit, string \<times> io_error) result"

definition is_process_running :: "sys \<Rightarrow> u32 \<Rightarrow> bool" where
  "is_process_running sys pid = sy_kill sys pid"

definition parse_pid :: "string \<Rightarrow> u32 option" where
  "parse_pid content = map_option word_of_nat (from_str_radix 32 10 (trim content))"

text \<open>
  The steps of \<open>create_pid_file\<close>: look at an existing file, remove it when it is stale, make the
  directory, create the file, write the number. \<open>create_new\<close> fails when the file exists; a failed
  write leaves what was written before it.
\<close>

datatype pid_check = NoFile | Stale | Alive u32

text \<open>A file that cannot be read counts as one whose content is no number.\<close>

definition check_pid_file :: "sys \<Rightarrow> string \<Rightarrow> files \<Rightarrow> pid_check" where
  "check_pid_file sys file fs =
     (case fs file of
        None \<Rightarrow> NoFile
      | Some content \<Rightarrow>
          (case parse_pid content of
             Some old_pid \<Rightarrow> if is_process_running sys old_pid then Alive old_pid else Stale
           | None \<Rightarrow> Stale))"

definition remove_stale :: "sys \<Rightarrow> string \<Rightarrow> files \<Rightarrow> (unit, PrivilegeError) result \<times> files" where
  "remove_stale sys file fs =
     (if fs file = None then (Err (Priv_Io OtherIo), fs)
      else case sy_remove sys of
        Ok _ \<Rightarrow> (Ok (), fs(file := None))
      | Err e \<Rightarrow> (Err (Priv_Io e), fs)
      | Panic \<Rightarrow> (Panic, fs))"

definition write_pid :: "sys \<Rightarrow> u32 \<Rightarrow> string \<Rightarrow> files \<Rightarrow> (unit, PrivilegeError) result \<times> files" where
  "write_pid sys pid file fs =
     (case map_err Priv_Io (sy_parent sys) of
        Err e \<Rightarrow> (Err e, fs)
      | Panic \<Rightarrow> (Panic, fs)
      | Ok _ \<Rightarrow>
          if fs file \<noteq> None then (Err (PidFileStale file 0), fs)
          else case sy_create sys of
            Ok _ \<Rightarrow>
              (case sy_write sys of
                 Ok _ \<Rightarrow> (Ok (), fs(file \<mapsto> dec_string (unat pid) @ [CHR 0x0A]))
               | Err (part, e) \<Rightarrow> (Err (Priv_Io e), fs(file \<mapsto> part))
               | Panic \<Rightarrow> (Panic, fs))
          | Err e \<Rightarrow> (Err (Priv_Io e), fs)
          | Panic \<Rightarrow> (Panic, fs))"

definition create_pid_file :: "sys \<Rightarrow> u32 \<Rightarrow> string \<Rightarrow> files \<Rightarrow> (unit, PrivilegeError) result \<times> files" where
  "create_pid_file sys pid file fs =
     (case check_pid_file sys file fs of
        Alive old_pid \<Rightarrow> (Err (PidFileStale file old_pid), fs)
      | Stale \<Rightarrow>
          (case remove_stale sys file fs of
             (Ok _, fs') \<Rightarrow> write_pid sys pid file fs'
           | r \<Rightarrow> r)
      | NoFile \<Rightarrow> write_pid sys pid file fs)"

definition remove_pid_file :: "sys \<Rightarrow> u32 \<Rightarrow> string \<Rightarrow> files \<Rightarrow> files" where
  "remove_pid_file sys pid file fs =
     (case fs file of
        None \<Rightarrow> fs
      | Some content \<Rightarrow>
          if parse_pid content = Some pid \<and> sy_remove sys = Ok () then fs(file := None) else fs)"

section \<open>Dropping privileges\<close>

record accounts =
  ac_group :: "string \<Rightarrow> (u32 option, string) result"
  ac_user :: "string \<Rightarrow> (u32 option, string) result"
  ac_setgid :: "u32 \<Rightarrow> (unit, string) result"
  ac_setuid :: "u32 \<Rightarrow> (unit, string) result"

definition become ::
  "string \<Rightarrow> string \<Rightarrow> (string \<Rightarrow> (u32 option, string) result) \<Rightarrow> (u32 \<Rightarrow> (unit, string) result) \<Rightarrow> string
     \<Rightarrow> (unit, PrivilegeError) result" where
  "become kind call lookup assign name =
     (case lookup name of
        Ok (Some n) \<Rightarrow> map_err (\<lambda>e. DropFailed (call @ ''('' @ dec_string (unat n) @ ''): '' @ e)) (assign n)
      | Ok None \<Rightarrow> Err (DropFailed (kind @ '' '' @ quoted name @ '' not found''))
      | Err e \<Rightarrow> Err (DropFailed (''failed to look up '' @ kind @ '' '' @ quoted name @ '': '' @ e))
      | Panic \<Rightarrow> Panic)"

definition drop_privileges :: "accounts \<Rightarrow> string \<Rightarrow> string \<Rightarrow> (unit, PrivilegeError) result" where
  "drop_privileges ac user grp =
     rbind (become ''group'' ''setgid'' (ac_group ac) (ac_setgid ac) grp) (\<lambda>_.
     become ''user'' ''setuid'' (ac_user ac) (ac_setuid ac) user)"

section \<open>Starting up\<close>

record cli_overrides =
  ov_port :: "u16 option"
  ov_listen :: "string option"
  ov_socket :: "string option"
  ov_log_level :: "string option"
  ov_tls_cert :: "string option"
  ov_tls_key :: "string option"

definition set_some :: "('a \<Rightarrow> Config \<Rightarrow> Config) \<Rightarrow> 'a option \<Rightarrow> Config \<Rightarrow> Config" where
  "set_some f v cfg = (case v of Some x \<Rightarrow> f x cfg | None \<Rightarrow> cfg)"

definition daemon_config ::
  "bool \<Rightarrow> env \<Rightarrow> (string \<Rightarrow> (string, io_error) result) \<Rightarrow> (string \<Rightarrow> (Config, string) result)
     \<Rightarrow> string option \<Rightarrow> string option \<Rightarrow> cli_overrides \<Rightarrow> Config" where
  "daemon_config is_root env read_to_string toml user_config_path config_path ov =
     (let loaded = load is_root env read_to_string toml user_config_path;
          config = (case config_path of
                      Some p \<Rightarrow> (case load_file read_to_string toml p of Some cfg \<Rightarrow> cfg | None \<Rightarrow> loaded)
                    | None \<Rightarrow> loaded);
          config = set_some (\<lambda>p. cfg_server_update (sc_port_update (\<lambda>_. p))) (ov_port ov) config;
          config = set_some (\<lambda>a. cfg_server_update (sc_listen_address_update (\<lambda>_. a))) (ov_listen ov) config;
          config = set_some (\<lambda>s. cfg_daemon_update (dc_socket_path_update (\<lambda>_. s))) (ov_socket ov) config;
          config = set_some (\<lambda>l. cfg_daemon_update (dc_log_level_update (\<lambda>_. l))) (ov_log_level ov) config;
          config = set_some (\<lambda>c. cfg_server_update (sc_tls_cert_update (\<lambda>_. Some c))) (ov_tls_cert ov) config
      in set_some (\<lambda>k. cfg_server_update (sc_tls_key_update (\<lambda>_. Some k))) (ov_tls_key ov) config)"

text \<open>Whether the command warns that the traffic will be unencrypted.\<close>

definition warns_unencrypted :: "Config \<Rightarrow> bool" where
  "warns_unencrypted config =
     (let listen_addr = sc_listen_address (cfg_server config);
          has_tls = sc_tls_cert (cfg_server config) \<noteq> None \<and> sc_tls_key (cfg_server config) \<noteq> None
      in listen_addr \<noteq> ''127.0.0.1'' \<and> listen_addr \<noteq> ''::1'' \<and> listen_addr \<noteq> ''localhost'' \<and> \<not> has_tls)"

definition tls_config :: "Config \<Rightarrow> TlsServerConfig option" where
  "tls_config config =
     (case (sc_tls_cert (cfg_server config), sc_tls_key (cfg_server config)) of
        (Some cert, Some key) \<Rightarrow>
          Some \<lparr>ts_cert_path = cert, ts_key_path = key, ts_ca_path = tc_ca (cfg_tls config)\<rparr>
      | _ \<Rightarrow> None)"

record net =
  nt_parse_addr :: "string \<Rightarrow> (SocketAddr, string) result"
  nt_bind :: "SocketAddr \<Rightarrow> (unit, io_error) result"
  nt_local_addr :: "(unit, io_error) result"

definition start_server :: "('c, 'k) pki \<Rightarrow> net \<Rightarrow> Config \<Rightarrow> SocketAddr \<Rightarrow> ServerEngine option" where
  "start_server pki nt config addr =
     (let secs = unat (sc_session_timeout_secs (cfg_server config)) in
      case tls_config config of
        Some tls_cfg \<Rightarrow>
          (case new_tls_with_session_timeout (rbind (build_acceptor pki tls_cfg) (\<lambda>_. Ok ()))
                  (nt_bind nt addr) (nt_local_addr nt) secs of
             Ok engine \<Rightarrow> Some engine | _ \<Rightarrow> None)
      | None \<Rightarrow>
          (case new_with_session_timeout (nt_bind nt addr) (nt_local_addr nt) secs of
             Ok engine \<Rightarrow> Some engine | _ \<Rightarrow> None))"

definition daemon_registry :: "Config \<Rightarrow> ServerEngine option \<Rightarrow> ExportRegistry" where
  "daemon_registry config server_engine =
     (case server_engine of
        Some engine \<Rightarrow> se_registry engine
      | None \<Rightarrow> with_session_timeout (unat (sc_session_timeout_secs (cfg_server config))))"

definition ends_with :: "string \<Rightarrow> string \<Rightarrow> bool" where
  "ends_with suffix s = (length suffix \<le> length s \<and> drop (length s - length suffix) s = suffix)"

text \<open>\<open>parent\<close> is \<open>Path::parent\<close> of the standard library on the path of the socket.\<close>

definition pid_file_path :: "(string \<Rightarrow> string option) \<Rightarrow> Config \<Rightarrow> string" where
  "pid_file_path parent config =
     (if ends_with ''/extender.pid'' (dc_pid_file (cfg_daemon config))
      then (case parent (dc_socket_path (cfg_daemon config)) of Some d \<Rightarrow> d | None \<Rightarrow> ''/tmp'') @ ''/extender.pid''
      else dc_pid_file (cfg_daemon config))"

datatype DaemonError = Daemon_Privilege PrivilegeError | Daemon_Addr string

definition start_daemon ::
  "sys \<Rightarrow> accounts \<Rightarrow> ('c, 'p) pki \<Rightarrow> net \<Rightarrow> (string \<Rightarrow> string option) \<Rightarrow> u32 \<Rightarrow> Config \<Rightarrow> 'k \<Rightarrow> files
     \<Rightarrow> (ServerEngine option \<times> 'k ApiState, DaemonError) result \<times> files" where
  "start_daemon sys ac pki nt parent pid config k fs =
     (case create_pid_file sys pid (pid_file_path parent config) fs of
        (r, fs') \<Rightarrow>
          (rbind (map_err Daemon_Privilege r) (\<lambda>_.
           rbind (case (dc_drop_user (cfg_daemon config), dc_drop_group (cfg_daemon config)) of
                    (Some user, Some grp) \<Rightarrow> map_err Daemon_Privilege (drop_privileges ac user grp)
                  | _ \<Rightarrow> Ok ()) (\<lambda>_.
           rbind (map_err Daemon_Addr (nt_parse_addr nt
                    (sc_listen_address (cfg_server config) @ '':'' @ dec_string (unat (sc_port (cfg_server config))))))
             (\<lambda>addr.
              let server_engine = start_server pki nt config addr in
              Ok (server_engine, ApiState_new (daemon_registry config server_engine) (cfg_security config) k)))),
           fs'))"

definition stop_daemon :: "sys \<Rightarrow> (string \<Rightarrow> string option) \<Rightarrow> u32 \<Rightarrow> Config \<Rightarrow> files \<Rightarrow> files" where
  "stop_daemon sys parent pid config fs = remove_pid_file sys pid (pid_file_path parent config) fs"

text \<open>
  The signal handler: the events that its \<open>select\<close> sees, in order, and what it has done to the
  shutdown token and how often it has called \<open>on_reload\<close>. \<open>Cancelled\<close> is a shutdown from elsewhere.
\<close>

datatype signal_event = SigTerm | SigInt | SigHup | Cancelled

fun signal_loop :: "signal_event list \<Rightarrow> bool \<times> nat" where
  "signal_loop [] = (False, 0)"
| "signal_loop (SigTerm # _) = (True, 0)"
| "signal_loop (SigInt # _) = (True, 0)"
| "signal_loop (SigHup # evs) = (case signal_loop evs of (shutdown, reloads) \<Rightarrow> (shutdown, Suc reloads))"
| "signal_loop (Cancelled # _) = (False, 0)"

text \<open>The callback: the new configuration is only logged, \<open>self.config\<close> stays.\<close>

definition reload_config :: "Config \<Rightarrow> Config \<Rightarrow> Config \<times> string" where
  "reload_config config new_config =
     (config, ''new log level: '' @ dc_log_level (cfg_daemon new_config) @ '', socket: '' @
        dc_socket_path (cfg_daemon config))"

section \<open>The API socket\<close>

text \<open>
  \<open>run_api_server\<close> on Unix: a socket file that is in the way is removed, binding makes a new one, and
  shutdown removes it. The loop starts a task per connection; the requests of a connection are
  \<open>Daemon_Api\<close>.
\<close>

record sock =
  so_remove :: "(unit, io_error) result"
  so_bind :: "(unit, io_error) result"
  so_chmod :: "(unit, io_error) result"
  so_unlink :: bool

definition bind_api_socket :: "sock \<Rightarrow> string \<Rightarrow> files \<Rightarrow> (unit, io_error) result \<times> files" where
  "bind_api_socket so socket_path fs =
     (case (if fs socket_path \<noteq> None then so_remove so else Ok ()) of
        Err e \<Rightarrow> (Err e, fs)
      | Panic \<Rightarrow> (Panic, fs)
      | Ok _ \<Rightarrow>
          (let fs1 = fs(socket_path := None) in
           case so_bind so of
             Err e \<Rightarrow> (Err e, fs1)
           | Panic \<Rightarrow> (Panic, fs1)
           | Ok _ \<Rightarrow> (so_chmod so, fs1(socket_path \<mapsto> []))))"

datatype api_event = Api_accepted | Api_accept_failed | Api_cancelled

text \<open>The number of connections that were given a task, and whether the loop has ended.\<close>

fun api_loop :: "api_event list \<Rightarrow> nat \<times> bool" where
  "api_loop [] = (0, False)"
| "api_loop (Api_accepted # evs) = (case api_loop evs of (n, ended) \<Rightarrow> (Suc n, ended))"
| "api_loop (Api_accept_failed # evs) = api_loop evs"
| "api_loop (Api_cancelled # evs) = (0, True)"

definition run_api_server ::
  "sock \<Rightarrow> string \<Rightarrow> api_event list \<Rightarrow> files \<Rightarrow> ((nat \<times> bool, io_error) result \<times> files)" where
  "run_api_server so socket_path evs fs =
     (case bind_api_socket so socket_path fs of
        (Err e, fs') \<Rightarrow> (Err e, fs')
      | (Panic, fs') \<Rightarrow> (Panic, fs')
      | (Ok _, fs') \<Rightarrow>
          (case api_loop evs of
             (n, ended) \<Rightarrow> (Ok (n, ended), if ended \<and> so_unlink so then fs'(socket_path := None) else fs')))"

section \<open>The PID file keeps a second daemon out\<close>

lemma parse_digits_append:
  "parse_digits r a (s @ t) = Option.bind (parse_digits r a s) (\<lambda>b. parse_digits r b t)"
  by (induction r a s rule: parse_digits.induct) (auto split: option.splits)

lemma hex_digit_decimal: "d < 10 \<Longrightarrow> hex_digit (char_of (48 + d)) = Some d"
  by (simp add: hex_digit_def Let_def)

lemma parse_digits_dec_string: "parse_digits 10 0 (dec_string n) = Some n"
proof (induction n rule: less_induct)
  case (less n)
  show ?case
  proof (cases "n < 10")
    case True
    then show ?thesis by (subst dec_string.simps) (simp add: hex_digit_decimal)
  next
    case False
    then have "parse_digits 10 0 (dec_string (n div 10)) = Some (n div 10)" by (intro less) simp
    then show ?thesis
      using False by (subst dec_string.simps) (simp add: parse_digits_append hex_digit_decimal)
  qed
qed

lemma dec_string_chars: "c \<in> set (dec_string n) \<Longrightarrow> graphic c \<and> c \<noteq> CHR ''+''"
  using digits_dec_string [of n] by (auto simp: digits_def list_all_iff is_ascii_digit_def graphic_def)

lemma trim_newline:
  assumes "\<forall>c \<in> set s. graphic c" "s \<noteq> []"
  shows "trim (s @ [CHR 0x0A]) = s"
proof -
  let ?ws = "map from_bytes white_space" and ?rs = "map (rev \<circ> from_bytes) white_space"
  have start: "trim_start (s @ [CHR 0x0A]) = s @ [CHR 0x0A]"
    using white_space_not_graphic assms unfolding trim_start_def by (intro trim_by_graphic) auto
  obtain rest where ws: "white_space = [0x09] # [0x0A] # rest" by (simp add: white_space_def)
  have "from_bytes [0x09] = [CHR 0x09]" "from_bytes [0x0A] = [CHR 0x0A]" by code_simp+
  then have "find (\<lambda>p. p \<noteq> [] \<and> starts_with p (CHR 0x0A # rev s)) ?rs = Some [CHR 0x0A]"
    by (simp add: ws starts_with_def)
  moreover have "trim_by ?rs (rev s) = rev s"
    using white_space_not_graphic assms by (intro trim_by_graphic) (auto simp: hd_rev)
  ultimately have "trim_by ?rs (CHR 0x0A # rev s) = rev s" by (subst trim_by.simps) simp
  then show ?thesis by (simp add: trim_def start trim_end_def)
qed

lemma from_str_radix_unsigned:
  "s \<noteq> [] \<Longrightarrow> hd s \<noteq> CHR ''+'' \<Longrightarrow> from_str_radix w r s =
     (case parse_digits r 0 s of None \<Rightarrow> None | Some n \<Rightarrow> if n < 2 ^ w then Some n else None)"
  by (cases s) (simp_all add: from_str_radix_def)

lemma from_str_radix_dec_string:
  assumes "n < 2 ^ w"
  shows "from_str_radix w 10 (dec_string n) = Some n"
proof -
  have ne: "dec_string n \<noteq> []" by (subst dec_string.simps) simp
  then have "hd (dec_string n) \<noteq> CHR ''+''" using dec_string_chars hd_in_set by blast
  then show ?thesis using ne assms by (simp add: from_str_radix_unsigned parse_digits_dec_string)
qed

lemma from_str_radix_word: "from_str_radix LENGTH('a) 10 (dec_string (unat (w :: 'a::len word))) = Some (unat w)"
  by (rule from_str_radix_dec_string) (rule unsigned_less)

lemma parse_pid_written: "parse_pid (dec_string (unat pid) @ [CHR 0x0A]) = Some pid"
proof -
  have "dec_string n \<noteq> []" for n by (subst dec_string.simps) simp
  then have "trim (dec_string (unat pid) @ [CHR 0x0A]) = dec_string (unat pid)"
    using dec_string_chars by (intro trim_newline) auto
  then show ?thesis using from_str_radix_word [of pid] by (simp add: parse_pid_def)
qed

lemma create_pid_file_Ok:
  assumes "create_pid_file sys pid file fs = (Ok (), fs')"
  shows "fs' = fs(file \<mapsto> dec_string (unat pid) @ [CHR 0x0A])"
  using assms
  by (auto simp: create_pid_file_def write_pid_def remove_stale_def map_err_def
    split: pid_check.splits result.splits if_splits)

lemma second_daemon_refused:
  assumes "create_pid_file sys pid file fs = (Ok (), fs')" "is_process_running sys' pid"
  shows "create_pid_file sys' pid' file fs' = (Err (PidFileStale file pid), fs')"
  using create_pid_file_Ok [OF assms(1)] assms(2)
  by (simp add: create_pid_file_def check_pid_file_def parse_pid_written)

lemma stop_removes_own_pid_file:
  assumes "create_pid_file sys pid file fs = (Ok (), fs')"
  shows "sy_remove sys' = Ok () \<Longrightarrow> remove_pid_file sys' pid file fs' = fs'(file := None)"
    and "pid' \<noteq> pid \<Longrightarrow> remove_pid_file sys' pid' file fs' = fs'"
  using create_pid_file_Ok [OF assms] by (auto simp: remove_pid_file_def parse_pid_written)

text \<open>
  The check and the removal of a stale file are not one step. Two daemons that start at the same
  time over a stale file can both succeed: the second removes the file the first has just made.
\<close>

lemma pid_file_race:
  assumes "check_pid_file sys file fs = Stale" "sy_remove sys = Ok ()" "sy_parent sys = Ok ()" "sy_create sys = Ok ()"
    "sy_write sys = Ok ()"
  shows "\<exists>fs1 fs2 fs3 fs4. check_pid_file sys file fs = Stale \<and> remove_stale sys file fs = (Ok (), fs1) \<and>
    write_pid sys pid file fs1 = (Ok (), fs2) \<and> remove_stale sys file fs2 = (Ok (), fs3) \<and>
    write_pid sys pid' file fs3 = (Ok (), fs4)"
  using assms by (auto simp: check_pid_file_def remove_stale_def write_pid_def split: option.splits)

section \<open>What the configuration decides\<close>

text \<open>Without both a certificate and a key the server speaks plain TCP, whatever \<open>require_tls\<close> says.\<close>

lemma plain_without_certificate:
  assumes "sc_tls_cert (cfg_server config) = None \<or> sc_tls_key (cfg_server config) = None"
    and "start_server pki nt config addr = Some engine"
  shows "\<not> se_tls_acceptor engine"
  using assms by (auto simp: start_server_def tls_config_def new_with_session_timeout_def rbind_eq_Ok Let_def
    split: option.splits result.splits)

lemma tls_with_certificate:
  assumes "sc_tls_cert (cfg_server config) = Some cert" "sc_tls_key (cfg_server config) = Some key"
    and "start_server pki nt config addr = Some engine"
  shows "se_tls_acceptor engine \<and> (\<exists>acc. build_acceptor pki
    \<lparr>ts_cert_path = cert, ts_key_path = key, ts_ca_path = tc_ca (cfg_tls config)\<rparr> = Ok acc)"
  using assms by (auto simp: start_server_def tls_config_def new_tls_with_session_timeout_def rbind_eq_Ok Let_def
    split: option.splits result.splits)

text \<open>A server reached from other hosts without TLS is never started without the warning.\<close>

lemma plain_server_warned:
  assumes "start_server pki nt config addr = Some engine" "\<not> se_tls_acceptor engine"
    and "sc_listen_address (cfg_server config) \<notin> {''127.0.0.1'', ''::1'', ''localhost''}"
  shows "warns_unencrypted config"
  using tls_with_certificate [of config _ _ pki nt addr engine] assms
  by (cases "sc_tls_cert (cfg_server config)"; cases "sc_tls_key (cfg_server config)")
     (auto simp: warns_unencrypted_def Let_def)

text \<open>
  The daemon starts with an empty registry that the API and the USB/IP server share, and with the
  access list of the configuration.
\<close>

lemma server_registry:
  assumes "start_server pki nt config addr = Some engine"
  shows "se_registry engine = with_session_timeout (unat (sc_session_timeout_secs (cfg_server config)))"
  using assms by (auto simp: start_server_def new_tls_with_session_timeout_def new_with_session_timeout_def
    rbind_eq_Ok Let_def split: option.splits result.splits)

lemma daemon_starts_empty:
  assumes "start_daemon sys ac pki nt parent pid config k fs = (Ok (engine, st), fs')"
  shows "api_registry st = with_session_timeout (unat (sc_session_timeout_secs (cfg_server config)))"
    and "\<And>e. engine = Some e \<Longrightarrow> se_registry e = api_registry st"
    and "api_security st = cfg_security config"
proof -
  obtain addr where e: "engine = start_server pki nt config addr"
    and st: "st = ApiState_new (daemon_registry config engine) (cfg_security config) k"
    using assms by (auto simp: start_daemon_def rbind_eq_Ok Let_def split: prod.splits)
  show "api_registry st = with_session_timeout (unat (sc_session_timeout_secs (cfg_server config)))"
    "\<And>e. engine = Some e \<Longrightarrow> se_registry e = api_registry st" "api_security st = cfg_security config"
    using e st server_registry [of pki nt config addr]
    by (auto simp: daemon_registry_def ApiState_new_def split: option.splits)
qed

text \<open>
  A socket file left behind is no obstacle, failed accepts do not end the loop, and no connection
  after the shutdown is served; a clean end leaves every other file as it was.
\<close>

lemma api_loop_cancelled:
  assumes "Api_cancelled \<notin> set evs"
  shows "api_loop (evs @ Api_cancelled # later) = (length (filter (\<lambda>e. e = Api_accepted) evs), True)"
  using assms by (induction evs rule: api_loop.induct) simp_all

lemma api_server_runs:
  assumes "so_remove so = Ok ()" "so_bind so = Ok ()" "so_chmod so = Ok ()" "so_unlink so"
    and "Api_cancelled \<notin> set evs"
  shows "run_api_server so socket_path (evs @ Api_cancelled # later) fs =
    (Ok (length (filter (\<lambda>e. e = Api_accepted) evs), True), fs(socket_path := None))"
  using assms(1-4) by (auto simp: api_loop_cancelled [OF assms(5)] run_api_server_def bind_api_socket_def Let_def)

text \<open>The first signal to stop stops the daemon, after every reload request before it and none after.\<close>

lemma signal_loop_stops:
  assumes "stop \<in> {SigTerm, SigInt}"
  shows "signal_loop (replicate n SigHup @ stop # evs) = (True, n)"
  using assms by (induction n) auto

end
