(* ===== verification/Client_Discover.thy ===== *)
theory Client_Discover
  imports Client_Vhci "HOL-Library.List_Lexorder" "HOL-Library.Char_ord"
begin

text \<open>
  \<open>extender-client/src/discover.rs\<close>: finding servers on the local network. On Linux the events of
  the crate \<open>mdns-sd\<close> are an argument, the list of what was received before the deadline; on
  macOS the output of the program \<open>dns-sd\<close> is, and so is name resolution. An address is its
  text, with a flag for IPv4 where the code asks for it.
\<close>

section \<open>Servers\<close>

record DiscoveredServer =
  sv_hostname :: string
  sv_addr :: SocketAddr
  sv_version :: string
  sv_device_count :: u32

section \<open>Events of the network (Linux)\<close>

record service_info =
  si_fullname :: string
  si_port :: u16
  si_version :: "string option"
  si_devices :: "string option"
  si_addresses :: "string list"

text \<open>\<open>Resolved\<close> is a resolved service; every other event and every error of the receiver is ignored.\<close>

datatype service_event = Resolved service_info | OtherEvent

definition parse_u32 :: "string \<Rightarrow> u32 option" where
  "parse_u32 s = map_option word_of_nat (from_str_radix 32 10 s)"

definition service_servers :: "(string \<Rightarrow> u16 \<Rightarrow> SocketAddr) \<Rightarrow> service_info \<Rightarrow> DiscoveredServer list" where
  "service_servers socket_addr info =
     (let version = (case si_version info of Some v \<Rightarrow> v | None \<Rightarrow> ''unknown'');
          device_count = (case Option.bind (si_devices info) parse_u32 of Some n \<Rightarrow> n | None \<Rightarrow> 0)
      in map (\<lambda>addr. \<lparr>sv_hostname = si_fullname info, sv_addr = socket_addr addr (si_port info),
                      sv_version = version, sv_device_count = device_count\<rparr>) (si_addresses info))"

fun collect_servers :: "(string \<Rightarrow> u16 \<Rightarrow> SocketAddr) \<Rightarrow> service_event list \<Rightarrow> DiscoveredServer list" where
  "collect_servers f [] = []"
| "collect_servers f (Resolved info # evs) = service_servers f info @ collect_servers f evs"
| "collect_servers f (OtherEvent # evs) = collect_servers f evs"

text \<open>\<open>Vec::dedup_by\<close>: of consecutive elements that agree the first is kept.\<close>

fun dedup_by :: "('a \<Rightarrow> 'a \<Rightarrow> bool) \<Rightarrow> 'a list \<Rightarrow> 'a list" where
  "dedup_by same [] = []"
| "dedup_by same [x] = [x]"
| "dedup_by same (x # y # xs) = (if same y x then dedup_by same (x # xs) else x # dedup_by same (y # xs))"

definition discover_servers_mdns ::
  "(unit, string) result \<Rightarrow> (unit, string) result \<Rightarrow> (string \<Rightarrow> u16 \<Rightarrow> SocketAddr) \<Rightarrow> service_event list
     \<Rightarrow> DiscoveredServer list" where
  "discover_servers_mdns daemon browse socket_addr events =
     (if daemon \<noteq> Ok () then []
      else if browse \<noteq> Ok () then []
      else dedup_by (\<lambda>a b. sv_addr a = sv_addr b)
             (sort_key sv_addr (collect_servers socket_addr events)))"

section \<open>Output of \<open>dns-sd\<close> (macOS)\<close>

function replace_all :: "string \<Rightarrow> string \<Rightarrow> string \<Rightarrow> string" where
  "replace_all pat rep s =
     (case s of
        [] \<Rightarrow> []
      | c # cs \<Rightarrow>
          if pat \<noteq> [] \<and> starts_with pat s then rep @ replace_all pat rep (drop (length pat) s)
          else c # replace_all pat rep cs)"
  by pat_completeness auto
termination
  by (relation "measure (\<lambda>(pat, rep, s). length s)") (auto simp: length_greater_0_conv)

fun contains :: "string \<Rightarrow> string \<Rightarrow> bool" where
  "contains pat [] = (pat = [])"
| "contains pat (c # cs) = (starts_with pat (c # cs) \<or> contains pat cs)"

text \<open>\<open>str::split\<close> with a string, and only its first part.\<close>

fun before :: "string \<Rightarrow> string \<Rightarrow> string" where
  "before pat [] = []"
| "before pat (c # cs) = (if starts_with pat (c # cs) then [] else c # before pat cs)"

definition trim_end_matches :: "char \<Rightarrow> string \<Rightarrow> string" where
  "trim_end_matches c s = rev (dropWhile (\<lambda>x. x = c) (rev s))"

definition strip_prefix :: "string \<Rightarrow> string \<Rightarrow> string option" where
  "strip_prefix p s = (if starts_with p s then Some (drop (length p) s) else None)"

definition unescape :: "string \<Rightarrow> string" where
  "unescape s =
     replace_all [CHR 0x5C] []
       (replace_all (CHR 0x5C # ''.'') ''.''
         (replace_all (CHR 0x5C # ''032'') '' '' s))"

record sd_record =
  sd_name :: string
  sd_port :: u16
  sd_host :: string
  sd_version :: string
  sd_devices :: u32

definition no_record :: sd_record where
  "no_record = \<lparr>sd_name = [], sd_port = 0, sd_host = [], sd_version = [], sd_devices = 0\<rparr>"

definition srv_line :: "string \<Rightarrow> sd_record \<Rightarrow> sd_record" where
  "srv_line line r =
     (let parts = split_whitespace line in
      if length parts \<ge> 6
      then r\<lparr>sd_name := unescape (before ''._usbip'' (parts ! 0)),
             sd_port := (case from_str_radix 16 10 (parts ! 4) of Some p \<Rightarrow> word_of_nat p | None \<Rightarrow> 3240),
             sd_host := trim_end_matches (CHR ''.'') (parts ! 5)\<rparr>
      else r)"

definition txt_part :: "string \<Rightarrow> sd_record \<Rightarrow> sd_record" where
  "txt_part part r =
     (case strip_prefix ''version='' part of
        Some val \<Rightarrow> r\<lparr>sd_version := val\<rparr>
      | None \<Rightarrow>
          (case strip_prefix ''devices='' part of
             Some val \<Rightarrow> r\<lparr>sd_devices := (case parse_u32 val of Some n \<Rightarrow> n | None \<Rightarrow> 0)\<rparr>
           | None \<Rightarrow> r))"

definition preferred :: "(bool \<times> SocketAddr) list \<Rightarrow> SocketAddr option" where
  "preferred addrs =
     (case find fst addrs of
        Some (_, a) \<Rightarrow> Some a
      | None \<Rightarrow> (case addrs of [] \<Rightarrow> None | (_, a) # _ \<Rightarrow> Some a))"

definition finish_record ::
  "(string \<Rightarrow> ((bool \<times> SocketAddr) list, io_error) result) \<Rightarrow> sd_record \<Rightarrow> DiscoveredServer list
     \<Rightarrow> sd_record \<times> DiscoveredServer list" where
  "finish_record resolve r servers =
     (if sd_host r \<noteq> [] \<and> sd_port r > 0
      then (no_record,
            case resolve (sd_host r @ '':'' @ dec_string (unat (sd_port r))) of
              Ok addrs \<Rightarrow>
                (case preferred addrs of
                   Some addr \<Rightarrow>
                     if list_ex (\<lambda>s. sv_hostname s = sd_name r) servers then servers
                     else servers @ [\<lparr>sv_hostname = sd_name r, sv_addr = addr, sv_version = sd_version r,
                                      sv_device_count = sd_devices r\<rparr>]
                 | None \<Rightarrow> servers)
            | _ \<Rightarrow> servers)
      else (r, servers))"

fun sd_lines ::
  "(string \<Rightarrow> ((bool \<times> SocketAddr) list, io_error) result) \<Rightarrow> string list \<Rightarrow> sd_record
     \<Rightarrow> DiscoveredServer list \<Rightarrow> DiscoveredServer list" where
  "sd_lines resolve [] r servers = servers"
| "sd_lines resolve (raw # rest) r servers =
     (let line = trim raw in
      if contains ''SRV'' line then sd_lines resolve rest (srv_line line r) servers
      else if contains ''TXT'' line
      then (case finish_record resolve (fold txt_part (split_on (CHR 0x22) line) r) servers of
              (r', servers') \<Rightarrow> sd_lines resolve rest r' servers')
      else sd_lines resolve rest r servers)"

definition parse_dns_sd_output ::
  "(string \<Rightarrow> ((bool \<times> SocketAddr) list, io_error) result) \<Rightarrow> string \<Rightarrow> DiscoveredServer list" where
  "parse_dns_sd_output resolve out = sd_lines resolve (str_lines out) no_record []"

text \<open>
  Starting \<open>dns-sd\<close> and, once the timeout is over and it was stopped, its output when there is one.
\<close>

definition BROWSE_SERVICE_TYPE :: string where "BROWSE_SERVICE_TYPE = ''_usbip._tcp''"

definition discover_servers_macos ::
  "(string \<Rightarrow> ((bool \<times> SocketAddr) list, io_error) result) \<Rightarrow> (string list \<Rightarrow> (bytes option, io_error) result)
     \<Rightarrow> DiscoveredServer list" where
  "discover_servers_macos resolve dns_sd =
     (case dns_sd [''-Z'', BROWSE_SERVICE_TYPE, ''local''] of
        Ok (Some out) \<Rightarrow> parse_dns_sd_output resolve (from_utf8_lossy out)
      | _ \<Rightarrow> [])"

section \<open>Each server once\<close>

lemma dedup_by_subset: "set (dedup_by same xs) \<subseteq> set xs"
  by (induction same xs rule: dedup_by.induct) auto

lemma dedup_sorted:
  assumes "sorted (map f xs)"
  shows "distinct (map f (dedup_by (\<lambda>a b. f a = f b) xs)) \<and> f ` set (dedup_by (\<lambda>a b. f a = f b) xs) = f ` set xs"
  using assms
proof (induction "\<lambda>a b. f a = f b" xs rule: dedup_by.induct)
  case (3 x y xs)
  show ?case
  proof (cases "f y = f x")
    case True
    then show ?thesis using 3 by auto
  next
    case False
    then have less: "f x < f z" if "z \<in> set (y # xs)" for z
      using 3(3) that by (auto simp: less_le_trans le_neq_trans)
    have "f x \<notin> f ` set (dedup_by (\<lambda>a b. f a = f b) (y # xs))"
      using less dedup_by_subset [of "\<lambda>a b. f a = f b" "y # xs"] by fastforce
    then show ?thesis using 3(2) [OF False] 3(3) False by auto
  qed
qed simp_all

lemma discovered_once:
  "distinct (map sv_addr (discover_servers_mdns (Ok ()) (Ok ()) f evs)) \<and>
   sv_addr ` set (discover_servers_mdns (Ok ()) (Ok ()) f evs) = sv_addr ` set (collect_servers f evs)"
  using dedup_sorted [of sv_addr "sort_key sv_addr (collect_servers f evs)"]
  by (simp add: discover_servers_mdns_def)

text \<open>On macOS a name is listed once.\<close>

lemma finish_record_distinct:
  "distinct (map sv_hostname servers) \<Longrightarrow> distinct (map sv_hostname (snd (finish_record resolve r servers)))"
  by (auto simp: finish_record_def list_ex_iff split: result.splits option.splits)

lemma named_once: "distinct (map sv_hostname (parse_dns_sd_output resolve out))"
proof -
  have "distinct (map sv_hostname servers) \<Longrightarrow> distinct (map sv_hostname (sd_lines resolve ls r servers))" for ls r servers
    by (induction resolve ls r servers rule: sd_lines.induct)
       (simp_all add: Let_def finish_record_distinct case_prod_unfold)
  then show ?thesis by (simp add: parse_dns_sd_output_def)
qed

lemma macos_named_once: "distinct (map sv_hostname (discover_servers_macos resolve dns_sd))"
  by (simp add: discover_servers_macos_def named_once split: result.split option.split)

end
