(* ===== verification/Daemon_Mdns.thy ===== *)
theory Daemon_Mdns
  imports Daemon_Run Client_Discover
begin

text \<open>
  \<open>extender-daemon/src/mdns.rs\<close>: announcing the server on the local network, and what the other
  side (\<open>Client_Discover\<close>) makes of it. The announcement is what is handed to the crate \<open>mdns-sd\<close>
  on Linux and, as arguments, to the program \<open>dns-sd\<close> on macOS. The name of the host and the
  answers of both are arguments.
\<close>

section \<open>The announcement\<close>

definition SERVICE_TYPE :: string where "SERVICE_TYPE = ''_usbip._tcp''"

definition get_hostname :: "string option \<Rightarrow> string" where
  "get_hostname gethostname = (case gethostname of Some h \<Rightarrow> h | None \<Rightarrow> ''extender'')"

record service =
  sr_type :: string
  sr_instance :: string
  sr_host :: string
  sr_port :: u16
  sr_properties :: "(string \<times> string) list"

text \<open>The number of devices, when the lock of the registry is free.\<close>

definition device_count :: "string list option \<Rightarrow> nat" where
  "device_count try_read = (case try_read of Some keys \<Rightarrow> length keys | None \<Rightarrow> 0)"

definition announced_service :: "string \<Rightarrow> u16 \<Rightarrow> nat \<Rightarrow> service" where
  "announced_service hostname port num_devices =
     \<lparr>sr_type = SERVICE_TYPE @ ''.local.'', sr_instance = ''Extender on '' @ hostname,
      sr_host = hostname @ ''.local.'', sr_port = port,
      sr_properties = [(''version'', CARGO_PKG_VERSION), (''devices'', dec_string num_devices)]\<rparr>"

record mdns_sd =
  ms_daemon :: "(unit, string) result"
  ms_service :: "service \<Rightarrow> (string, string) result"
  ms_register :: "service \<Rightarrow> (unit, string) result"

record MdnsAdvertiser =
  md_hostname :: string
  md_fullname :: string

text \<open>The advertiser and the service that it has registered.\<close>

definition MdnsAdvertiser_new ::
  "mdns_sd \<Rightarrow> string option \<Rightarrow> u16 \<Rightarrow> string list option \<Rightarrow> (MdnsAdvertiser \<times> service, string) result" where
  "MdnsAdvertiser_new mdns gethostname port try_read =
     (let hostname = get_hostname gethostname;
          service = announced_service hostname port (device_count try_read)
      in rbind (ms_daemon mdns) (\<lambda>_.
         rbind (ms_service mdns service) (\<lambda>fullname.
         rbind (ms_register mdns service) (\<lambda>_.
         Ok (\<lparr>md_hostname = hostname, md_fullname = fullname\<rparr>, service)))))"

definition dns_sd_args :: "string option \<Rightarrow> u16 \<Rightarrow> string list option \<Rightarrow> string list" where
  "dns_sd_args gethostname port try_read =
     [''-R'', ''Extender on '' @ get_hostname gethostname, SERVICE_TYPE, ''local'', dec_string (unat port),
      ''version='' @ CARGO_PKG_VERSION, ''devices='' @ dec_string (device_count try_read)]"

text \<open>\<open>update_device_count\<close> leaves the announcement as it is.\<close>

definition update_device_count :: "u32 \<Rightarrow> service \<Rightarrow> service" where
  "update_device_count num_devices service = service"

text \<open>
  \<open>Daemon::run\<close>: the service is announced when the configuration says so; a failure is logged and
  the daemon goes on.
\<close>

definition start_mdns ::
  "mdns_sd \<Rightarrow> string option \<Rightarrow> Config \<Rightarrow> string list option \<Rightarrow> (MdnsAdvertiser \<times> service) option" where
  "start_mdns mdns gethostname config try_read =
     (if dc_mdns_enabled (cfg_daemon config)
      then case MdnsAdvertiser_new mdns gethostname (sc_port (cfg_server config)) try_read of
             Ok a \<Rightarrow> Some a | _ \<Rightarrow> None
      else None)"

section \<open>What the other side finds\<close>

text \<open>What \<open>mdns-sd\<close> reports of a service at some addresses: its port and its properties.\<close>

definition resolved :: "string \<Rightarrow> service \<Rightarrow> string list \<Rightarrow> service_info" where
  "resolved fullname service addrs =
     \<lparr>si_fullname = fullname, si_port = sr_port service,
      si_version = map_of (sr_properties service) ''version'',
      si_devices = map_of (sr_properties service) ''devices'', si_addresses = addrs\<rparr>"

lemma parse_dec_string:
  assumes "n < 2 ^ 32"
  shows "parse_u32 (dec_string n) = Some (word_of_nat n)"
  by (simp add: parse_u32_def from_str_radix_dec_string [OF assms])

text \<open>
  A server that is announced is found at each of its addresses and at its port, with its version
  and the number of devices at the time of the announcement.
\<close>

lemma announced_is_discovered:
  assumes "start_mdns mdns gethostname config (Some keys) = Some (adv, service)" "length keys < 2 ^ 32"
  shows "service_servers f (resolved (md_fullname adv) service addrs) =
    map (\<lambda>a. \<lparr>sv_hostname = md_fullname adv, sv_addr = f a (sc_port (cfg_server config)),
              sv_version = CARGO_PKG_VERSION, sv_device_count = word_of_nat (length keys)\<rparr>) addrs"
proof -
  have s: "service = announced_service (md_hostname adv) (sc_port (cfg_server config)) (length keys)"
    using assms(1) by (auto simp: start_mdns_def MdnsAdvertiser_new_def rbind_eq_Ok Let_def device_count_def
      split: if_splits result.splits)
  show ?thesis using assms(2) by (simp add: s service_servers_def resolved_def announced_service_def parse_dec_string)
qed

text \<open>
  The announcement is made before the first device can be bound and never updated: every server
  announces no devices.
\<close>

lemma announced_count_zero:
  assumes "start_daemon sys ac pki nt parent pid config k fs = (Ok (engine, st), fs')"
    and "start_mdns mdns gethostname config (Some keys) = Some (adv, service)"
    and "distinct keys" "set keys = dom (reg_devices (api_registry st))"
  shows "map_of (sr_properties service) ''devices'' = Some ''0''"
proof -
  have "set keys = {}"
    using daemon_starts_empty(1) [OF assms(1)] assms(4) by (simp add: with_session_timeout_def)
  moreover have "dec_string 0 = ''0''" by code_simp
  ultimately show ?thesis
    using assms(2) by (auto simp: start_mdns_def MdnsAdvertiser_new_def rbind_eq_Ok Let_def device_count_def
      announced_service_def split: if_splits result.splits)
qed

text \<open>
  On macOS a line is taken for an SRV record when it contains these letters anywhere: a server on a
  host whose name contains them is not listed, since its TXT record is passed over.
\<close>

definition srv_host_lines :: "string list" where
  "srv_host_lines =
     [''Extender'' @ [CHR 0x5C] @ ''032on'' @ [CHR 0x5C] @ ''032SRV1._usbip._tcp.local.  SRV  0 0 3240 SRV1.local.'',
      ''Extender'' @ [CHR 0x5C] @ ''032on'' @ [CHR 0x5C] @ ''032SRV1._usbip._tcp.local.  TXT  '' @
        [CHR 0x22] @ ''version=0.1.0'' @ [CHR 0x22] @ '' '' @ [CHR 0x22] @ ''devices=1'' @ [CHR 0x22]]"

lemma srv_host_not_listed:
  "sd_lines resolve srv_host_lines no_record [] = []"
proof -
  have "trim s = s \<and> contains ''SRV'' s" if "s \<in> set srv_host_lines" for s
    using that by (auto simp: srv_host_lines_def graphic_def starts_with_def intro!: trim_graphic_ends)
  then have "\<forall>s \<in> set srv_host_lines. contains ''SRV'' (trim s)" by simp
  then show ?thesis by (simp add: srv_host_lines_def)
qed

end
