(* ===== verification/End_To_End.thy ===== *)
theory End_To_End
  imports Server_Connection Client_Remote
begin

text \<open>
  The client's exchanges against the server's handler: the bytes one side writes are the bytes
  the other reads. A connection has two directions; each side's run is given the bytes the other
  side's run produced.
\<close>

text \<open>
  Every device of the registry can be sent, and is registered under its own bus ID, which is a
  valid one. (Devices found by enumeration are bound this way.)
\<close>

definition announced :: "ExportRegistry \<Rightarrow> bool" where
  "announced reg \<longleftrightarrow>
     (\<forall>b e. reg_devices reg b = Some e \<longrightarrow>
        ld_bus_id (ex_device e) = b \<and> is_valid_bus_id b \<and> sendable (ex_device e))"

lemma announcedD:
  assumes "announced reg" "reg_devices reg b = Some e"
  shows "ld_bus_id (ex_device e) = b" "is_valid_bus_id b" "sendable (ex_device e)"
    "list_all is_ascii b" "CHR 0x00 \<notin> set b" "length b < BUSID_SIZE"
  using assms valid_bus_id_ascii [of b] unfolding announced_def sendable_def by blast+

lemma protocol_device_remote:
  assumes "announced reg" "reg_devices reg b = Some e" "to_protocol_device (ex_device e) = Ok u"
  shows "rd_busid (RemoteDevice_from u) = b" "id_vendor u = ld_vendor_id (ex_device e)"
    "id_product u = ld_product_id (ex_device e)" "speed u = ld_speed (ex_device e)"
    "device_id u = push_bit 16 (ucast (ld_bus_number (ex_device e))) OR ucast (ld_device_address (ex_device e))"
proof -
  note b = announcedD [OF assms(1,2)]
  have "busid u = as_bytes b @ replicate (BUSID_SIZE - length b) 0"
    using assms(3) b by (auto simp: to_protocol_device_def rbind_eq_Ok busid_from_str_Ok Let_def)
  then show "rd_busid (RemoteDevice_from u) = b"
    using busid_string_padded [OF b(4,5)] by (simp add: RemoteDevice_from_def)
qed (use assms(3) in \<open>auto simp: to_protocol_device_def rbind_eq_Ok Let_def device_id_def\<close>)

section \<open>Listing\<close>

lemma list_exchange:
  assumes "announced reg" "set order \<subseteq> dom (reg_devices reg)" "length order \<le> 256"
  obtains w' ds where
    "handle_connection False order now reg (received (sent (fst (devlist_exchange r empty_sink)))) empty_sink
       = (reg, received [], w', Closed)"
    "devlist_exchange (received (sent w')) empty_sink = (fst (devlist_exchange r empty_sink), Ok ds)"
    "map rd_busid ds = order"
    "\<And>i. i < length order \<Longrightarrow> \<exists>u. to_protocol_device (ex_device (the (reg_devices reg (order ! i)))) = Ok u \<and>
       ds ! i = RemoteDevice_from u"
proof -
  have "\<forall>k \<in> set order. \<exists>e. reg_devices reg k = Some e \<and> sendable (ex_device e)"
    using assms(1,2) by (auto simp: announced_def)
  from list_devices_Ok [OF this] obtain us where us: "list_devices order reg = Ok us"
    "length us = length order"
    "\<forall>i < length order. to_protocol_device (ex_device (the (reg_devices reg (order ! i)))) = Ok (us ! i)"
    "\<forall>d \<in> set us. UsbDevice_full d" by blast
  let ?m = "RepDevlist \<lparr>devlist_status = 0, devlist_devices = us\<rparr>"
  have "OpMessage_ok ?m" using us(2,4) assms(3) by (simp add: OpRepDevlist_ok_def MAX_DEVICES_IN_DEVLIST_def)
  then have reply: "read_op_message (received (OpMessage_encode ?m)) = Ok (?m, received [])"
    using read_op_sent [of ?m "[]" UnexpectedEof] by simp
  have request: "read_op_message (received (OpMessage_encode (ReqDevlist OpReqDevlist)))
      = Ok (ReqDevlist OpReqDevlist, received [])"
    using read_op_sent [of "ReqDevlist OpReqDevlist" "[]" UnexpectedEof] by simp
  have ids: "map rd_busid (map RemoteDevice_from us) = order"
  proof (rule nth_equalityI)
    show "map rd_busid (map RemoteDevice_from us) ! i = order ! i"
      if "i < length (map rd_busid (map RemoteDevice_from us))" for i
    proof -
      have i: "i < length order" using that us(2) by simp
      then obtain e where e: "reg_devices reg (order ! i) = Some e" using assms(2) nth_mem by blast
      then have "to_protocol_device (ex_device e) = Ok (us ! i)" using us(3) i by (metis option.sel)
      then show ?thesis using protocol_device_remote(1) [OF assms(1) e] us(2) i by simp
    qed
  qed (simp add: us(2))
  show ?thesis
    by (rule that [of "empty_sink\<lparr>sent := OpMessage_encode ?m\<rparr>" "map RemoteDevice_from us"])
       (use us reply request ids in \<open>auto simp: handle_connection_def handle_devlist_def
          devlist_exchange_def write_op_message_unlimited\<close>)
qed

section \<open>Importing\<close>

lemma import_exchange_served:
  assumes "announced reg" "registry_ok reg" "reg_devices reg b = Some e" "\<forall>s. hold_of e \<noteq> Held s"
  obtains reg' w' dev cw where
    "handle_connection False order now reg (received (sent cw)) empty_sink
       = (reg', received [], w', Serving b (reg_next_session_id reg) (ex_handle e))"
    "hold reg' = (hold reg)(b \<mapsto> Held (reg_next_session_id reg))"
    "import_exchange b (received (sent w')) empty_sink = Ok (dev, received [], cw)"
    "\<exists>u. to_protocol_device (ex_device e) = Ok u \<and> dev = u\<lparr>interfaces := []\<rparr>"
proof -
  note b = announcedD [OF assms(1,3)]
  obtain u where u: "UsbDevice_full u" "to_protocol_device (ex_device e) = Ok u"
    and f: "fst (try_acquire_ext now reg b) = Ok (ex_handle e, u, reg_next_session_id reg,
       case hold_of e of Grace _ d \<Rightarrow> now < d | _ \<Rightarrow> False)"
    using acquire_sendable [OF assms(2,3) b(3), of now] assms(4) by auto
  obtain reg' where acq: "try_acquire_ext now reg b = (Ok (ex_handle e, u, reg_next_session_id reg,
       case hold_of e of Grace _ d \<Rightarrow> now < d | _ \<Rightarrow> False), reg')"
    using f by (cases "try_acquire_ext now reg b") auto
  have h: "hold reg' = (hold reg)(b \<mapsto> Held (reg_next_session_id reg))"
    using hold_acquire [OF assms(2), of now b] acq assms(3,4)
    by (cases "hold_of e") (auto simp: hold_def fun_eq_iff)
  let ?id = "as_bytes b @ replicate (BUSID_SIZE - length b) 0"
  let ?q = "ReqImport \<lparr>import_busid = ?id\<rparr>"
  have wire: "busid_from_str b = Ok ?id" using b by (simp add: busid_from_str_Ok)
  have x: "extract_bus_id ?id = b" using extract_padded_bus_id [OF b(4,5)] .
  have "OpMessage_ok ?q" using b(6) by (simp add: OpReqImport_ok_def)
  then have request: "read_op_message (received (OpMessage_encode ?q)) = Ok (?q, received [])"
    using read_op_sent [of ?q "[]" UnexpectedEof] by simp
  show ?thesis
    by (rule that [of "empty_sink\<lparr>sent := OpMessage_encode ?q\<rparr>" reg'
          "empty_sink\<lparr>sent := OpMessage_encode (RepImport \<lparr>import_status = 0, import_device = Some u\<rparr>)\<rparr>"
          "u\<lparr>interfaces := []\<rparr>"])
       (use acq h b(2) u x wire request read_import_reply [OF u(1), of UnexpectedEof] in
         \<open>auto simp: handle_connection_def handle_import_def import_exchange_def write_op_message_unlimited\<close>)
qed

section \<open>Finding a device and importing it\<close>

text \<open>A listed device that no session holds can be imported under the bus ID the listing gave.\<close>

lemma import_listed:
  assumes "registry_ok reg" "announced reg" "reg_devices reg (rd_busid d) = Some e"
    and "to_protocol_device (ex_device e) = Ok u" "d = RemoteDevice_from u"
    and "\<forall>s. hold reg (rd_busid d) \<noteq> Some (Held s)"
  shows "\<exists>reg' w'' dev cw e. reg_devices reg (rd_busid d) = Some e \<and>
      handle_connection False order now reg (received (sent cw)) empty_sink
        = (reg', received [], w'', Serving (rd_busid d) (reg_next_session_id reg) (ex_handle e)) \<and>
      hold reg' = (hold reg)(rd_busid d \<mapsto> Held (reg_next_session_id reg)) \<and>
      import_exchange (rd_busid d) (received (sent w'')) empty_sink = Ok (dev, received [], cw) \<and>
      id_vendor dev = rd_id_vendor d \<and> id_product dev = rd_id_product d \<and> speed dev = rd_speed d \<and>
      device_id dev = push_bit 16 (ucast (ld_bus_number (ex_device e))) OR
        ucast (ld_device_address (ex_device e))"
proof -
  have "\<forall>s. hold_of e \<noteq> Held s" using assms(3,6) by (simp add: hold_def)
  from import_exchange_served [OF assms(2,1,3) this, where order = order and now = now]
  obtain reg' w'' dev cw where r: "handle_connection False order now reg (received (sent cw)) empty_sink
       = (reg', received [], w'', Serving (rd_busid d) (reg_next_session_id reg) (ex_handle e))"
    "hold reg' = (hold reg)(rd_busid d \<mapsto> Held (reg_next_session_id reg))"
    "import_exchange (rd_busid d) (received (sent w'')) empty_sink = Ok (dev, received [], cw)"
    "\<exists>u. to_protocol_device (ex_device e) = Ok u \<and> dev = u\<lparr>interfaces := []\<rparr>" .
  have dev: "dev = u\<lparr>interfaces := []\<rparr>" using r(4) assms(4) by auto
  have "id_vendor dev = rd_id_vendor d" "id_product dev = rd_id_product d"
    "speed dev = rd_speed d" "device_id dev = device_id u"
    using dev assms(5) by (simp_all add: RemoteDevice_from_def device_id_def)
  then show ?thesis
    using assms(3) r(1-3) protocol_device_remote(5) [OF assms(2-4)]
    by (intro exI [of _ reg'] exI [of _ w''] exI [of _ dev] exI [of _ cw] exI [of _ e]) simp
qed

text \<open>
  C31: Discovery and import across the wire. The server's handler answers the bytes of the
  client's listing request so that the client obtains one entry per exported device, under its
  bus ID. For each entry whose device no session holds, the client's import exchange with the
  bus ID from the list, answered by the same handler, succeeds: the server then serves a fresh
  session of exactly that device, and the client has its vendor, product, speed and the device
  id that the server's bus and device numbers give. (At most 256 devices are exported, each under its
  own valid bus ID and with a descriptor that can be sent.)
\<close>

theorem discover_then_import:
  assumes "registry_ok reg" and "announced reg"
    and "set order = dom (reg_devices reg)" and "length order \<le> 256"
  shows "\<exists>request w' ds.
    handle_connection False order now reg (received request) empty_sink = (reg, received [], w', Closed) \<and>
    fst (devlist_exchange (received (sent w')) empty_sink) = empty_sink\<lparr>sent := request\<rparr> \<and>
    list_remote_devices addr (Connected (received (sent w')) empty_sink) = Ok ds \<and>
    map rd_busid ds = order \<and>
    (\<forall>d \<in> set ds. (\<forall>s. hold reg (rd_busid d) \<noteq> Some (Held s)) \<longrightarrow>
      (\<exists>reg' w'' dev cw e. reg_devices reg (rd_busid d) = Some e \<and>
         handle_connection False order now reg (received (sent cw)) empty_sink
           = (reg', received [], w'', Serving (rd_busid d) (reg_next_session_id reg) (ex_handle e)) \<and>
         hold reg' = (hold reg)(rd_busid d \<mapsto> Held (reg_next_session_id reg)) \<and>
         import_exchange (rd_busid d) (received (sent w'')) empty_sink = Ok (dev, received [], cw) \<and>
         id_vendor dev = rd_id_vendor d \<and> id_product dev = rd_id_product d \<and> speed dev = rd_speed d \<and>
         device_id dev = push_bit 16 (ucast (ld_bus_number (ex_device e))) OR
           ucast (ld_device_address (ex_device e))))"
proof -
  let ?cw = "fst (devlist_exchange (received []) empty_sink)"
  have cw: "fst (devlist_exchange r empty_sink) = empty_sink\<lparr>sent := sent ?cw\<rparr>" for r
    by (simp add: devlist_exchange_def write_op_message_unlimited)
  have "set order \<subseteq> dom (reg_devices reg)" using assms(3) by simp
  from list_exchange [OF assms(2) this assms(4), where now = now and r = "received []"]
  obtain w' ds where l: "handle_connection False order now reg (received (sent ?cw)) empty_sink
       = (reg, received [], w', Closed)"
    "devlist_exchange (received (sent w')) empty_sink = (?cw, Ok ds)" "map rd_busid ds = order"
    "\<And>i. i < length order \<Longrightarrow> \<exists>u. to_protocol_device (ex_device (the (reg_devices reg (order ! i)))) = Ok u \<and>
       ds ! i = RemoteDevice_from u" by blast
  have "\<exists>e u. reg_devices reg (rd_busid d) = Some e \<and> to_protocol_device (ex_device e) = Ok u \<and>
      d = RemoteDevice_from u" if d: "d \<in> set ds" for d
  proof -
    obtain i where i: "i < length ds" "d = ds ! i" using d by (auto simp: in_set_conv_nth)
    then have b: "i < length order" "order ! i = rd_busid d" using l(3) by auto
    obtain e where e: "reg_devices reg (rd_busid d) = Some e"
      using b assms(3) nth_mem [OF b(1)] by auto
    show ?thesis using l(4) [OF b(1)] b(2) e i(2) by auto
  qed
  note listed = this import_listed [OF assms(1,2), of _ _ _ order now]
  show ?thesis
  proof (intro exI [of _ "sent ?cw"] exI [of _ w'] exI [of _ ds] conjI ballI impI)
    fix d assume d: "d \<in> set ds" "\<forall>s. hold reg (rd_busid d) \<noteq> Some (Held s)"
    obtain e u where "reg_devices reg (rd_busid d) = Some e" "to_protocol_device (ex_device e) = Ok u"
      "d = RemoteDevice_from u" using listed(1) [OF d(1)] by blast
    from listed(2) [OF this d(2)] show "\<exists>reg' w'' dev cw e. reg_devices reg (rd_busid d) = Some e \<and>
      handle_connection False order now reg (received (sent cw)) empty_sink
        = (reg', received [], w'', Serving (rd_busid d) (reg_next_session_id reg) (ex_handle e)) \<and>
      hold reg' = (hold reg)(rd_busid d \<mapsto> Held (reg_next_session_id reg)) \<and>
      import_exchange (rd_busid d) (received (sent w'')) empty_sink = Ok (dev, received [], cw) \<and>
      id_vendor dev = rd_id_vendor d \<and> id_product dev = rd_id_product d \<and> speed dev = rd_speed d \<and>
      device_id dev = push_bit 16 (ucast (ld_bus_number (ex_device e))) OR
        ucast (ld_device_address (ex_device e))" .
  qed (use l cw [of "received (sent w')"] in \<open>simp_all add: list_remote_devices_def tcp_connect_def\<close>)
qed

theorem discover_then_import_witness:
  "\<exists>request w' ds reg' w'' dev cw.
    handle_connection False [''1-1''] 5 (sample_registry ''1-1'') (received request) empty_sink
      = (sample_registry ''1-1'', received [], w', Closed) \<and>
    list_remote_devices ''srv'' (Connected (received (sent w')) empty_sink) = Ok ds \<and>
    map rd_busid ds = [''1-1''] \<and>
    handle_connection False [''1-1''] 5 (sample_registry ''1-1'') (received (sent cw)) empty_sink
      = (reg', received [], w'', Serving ''1-1'' 1 (sample_managed ''1-1'')) \<and>
    import_exchange ''1-1'' (received (sent w'')) empty_sink = Ok (dev, received [], cw)"
proof -
  have v: "is_valid_bus_id ''1-1''" by code_simp
  have a: "announced (sample_registry ''1-1'')"
    using v sample_sendable
    by (auto simp: announced_def sample_registry_def bind_device_with_def new_registry_def
      with_session_timeout_def sample_device_def split: if_splits)
  note e = sample_entry [of "''1-1''"]
  have free: "\<forall>s. hold (sample_registry ''1-1'') ''1-1'' \<noteq> Some (Held s)"
    using e by (simp add: hold_def hold_of_def)
  let ?reg = "sample_registry ''1-1''"
  have dom: "set [''1-1''] = dom (reg_devices ?reg)" using dom_sample_registry by simp
  have len: "length [''1-1''] \<le> 256" by simp
  show ?thesis
    using discover_then_import [OF sample_registry_ok a dom len, of 5 "''srv''"]
    apply (elim exE conjE)
    subgoal premises l for request w' ds
    proof -
      obtain d where d: "d \<in> set ds" "rd_busid d = ''1-1''" using l(4) by (cases ds) auto
      then obtain reg' w'' dev cw where
        "handle_connection False [''1-1''] 5 ?reg (received (sent cw)) empty_sink
           = (reg', received [], w'', Serving ''1-1'' 1 (sample_managed ''1-1''))"
        "import_exchange ''1-1'' (received (sent w'')) empty_sink = Ok (dev, received [], cw)"
        using l(5) [rule_format, OF d(1)] free e by auto
      then show ?thesis
        using l(1,3,4)
        by (intro exI [of _ request] exI [of _ w'] exI [of _ ds] exI [of _ reg'] exI [of _ w'']
            exI [of _ dev] exI [of _ cw]) simp
    qed
    done
qed

end
