(* ===== verification/Cli.thy ===== *)
theory Cli
  imports Daemon_Mdns End_To_End
begin

text \<open>
  The command line tool: \<open>extender-cli/src/output.rs\<close> (what is printed), \<open>commands/*.rs\<close> and
  \<open>main.rs\<close> (which command does what). A command returns the lines it has printed with its
  result. The calls of the daemon are those of \<open>Daemon_Api\<close> over the connection that the socket
  gives; what \<open>serde_json\<close> makes of values and texts, address parsing and the network are the
  record \<open>shell\<close>. How \<open>clap\<close> parses the command line is not modelled: \<open>Cli\<close> is its result.
\<close>

section \<open>Output\<close>

datatype OutputFormat = Human | Json | Quiet

record ImportedDeviceInfo =
  im_port :: u32
  im_host :: string
  im_remote_bus_id :: string
  im_vendor_id :: u16
  im_product_id :: u16
  im_speed :: UsbSpeed

definition ImportedDeviceInfo_to_value :: "ImportedDeviceInfo \<Rightarrow> json" where
  "ImportedDeviceInfo_to_value d = json_object
     [(''port'', json_uint (im_port d)), (''host'', JString (im_host d)),
      (''remote_bus_id'', JString (im_remote_bus_id d)), (''vendor_id'', json_uint (im_vendor_id d)),
      (''product_id'', json_uint (im_product_id d)), (''speed'', UsbSpeed_to_value (im_speed d))]"

record serde =
  sd_devices_text :: "DeviceInfo list \<Rightarrow> (string, string) result"
  sd_exported_text :: "ExportedDeviceInfo list \<Rightarrow> (string, string) result"
  sd_imported_text :: "ImportedDeviceInfo list \<Rightarrow> (string, string) result"
  sd_pretty :: "json \<Rightarrow> (string, string) result"
  sd_compact :: "json \<Rightarrow> string"
  sd_to_devices :: "json \<Rightarrow> (DeviceInfo list, string) result"
  sd_to_exported :: "json \<Rightarrow> (ExportedDeviceInfo list, string) result"
  sd_to_status :: "json \<Rightarrow> (DaemonStatus, string) result"

fun speed_str :: "UsbSpeed \<Rightarrow> string" where
  "speed_str Low = ''1.5 Mbps''"
| "speed_str Full = ''12 Mbps''"
| "speed_str High = ''480 Mbps''"
| "speed_str Super = ''5 Gbps''"
| "speed_str SuperPlus = ''10 Gbps''"
| "speed_str UnknownSpeed = ''unknown''"

definition vid_pid :: "u16 \<Rightarrow> u16 \<Rightarrow> string" where
  "vid_pid vendor_id product_id = hex4 vendor_id @ '':'' @ hex4 product_id"

text \<open>
  The format \<open>{:<n}\<close>: blanks up to a width that counts characters, not bytes. A row of a table is
  its cells with a blank in between.
\<close>

definition pad :: "nat \<Rightarrow> string \<Rightarrow> string" where
  "pad n s = s @ replicate (n - length (str_chars s)) (CHR '' '')"

fun row :: "(nat \<times> string) list \<Rightarrow> string" where
  "row [] = []"
| "row [(n, s)] = pad n s"
| "row ((n, s) # cells) = pad n s @ '' '' @ row cells"

text \<open>\<open>unwrap\<close> of a text: an error is a panic.\<close>

definition unwrap_text :: "(string, string) result \<Rightarrow> (string list, 'e) result" where
  "unwrap_text r = (case r of Ok s \<Rightarrow> Ok [s] | _ \<Rightarrow> Panic)"

definition unwrap_or_dash :: "string option \<Rightarrow> string" where
  "unwrap_or_dash s = (case s of Some t \<Rightarrow> t | None \<Rightarrow> ''-'')"

definition device_row :: "DeviceInfo \<Rightarrow> string" where
  "device_row d =
     row [(12, di_bus_id d), (10, vid_pid (di_vendor_id d) (di_product_id d)),
          (20, unwrap_or_dash (di_manufacturer d)), (20, unwrap_or_dash (di_product d)),
          (10, speed_str (di_speed d)), (6, if di_is_bound d then ''yes'' else ''no'')]"

definition print_devices :: "serde \<Rightarrow> DeviceInfo list \<Rightarrow> OutputFormat \<Rightarrow> (string list, 'e) result" where
  "print_devices serde devices fmt =
     (case fmt of
        Json \<Rightarrow> unwrap_text (sd_devices_text serde devices)
      | Quiet \<Rightarrow> Ok (map di_bus_id devices)
      | Human \<Rightarrow>
          if devices = [] then Ok [''No devices found.'']
          else Ok (row [(12, ''BUS ID''), (10, ''VID:PID''), (20, ''MANUFACTURER''), (20, ''PRODUCT''),
                        (10, ''SPEED''), (6, ''BOUND'')] #
                   replicate 80 (CHR ''-'') # map device_row devices))"

definition exported_row :: "ExportedDeviceInfo \<Rightarrow> string" where
  "exported_row d =
     row [(12, ei_bus_id d), (10, vid_pid (ei_vendor_id d) (ei_product_id d)),
          (20, unwrap_or_dash (ei_manufacturer d)), (20, unwrap_or_dash (ei_product d)),
          (10, speed_str (ei_speed d)), (8, dec_string (unat (ei_num_clients d)))]"

definition print_exported_devices ::
  "serde \<Rightarrow> ExportedDeviceInfo list \<Rightarrow> OutputFormat \<Rightarrow> (string list, 'e) result" where
  "print_exported_devices serde devices fmt =
     (case fmt of
        Json \<Rightarrow> unwrap_text (sd_exported_text serde devices)
      | Quiet \<Rightarrow> Ok (map ei_bus_id devices)
      | Human \<Rightarrow>
          if devices = [] then Ok [''No exported devices.'']
          else Ok (row [(12, ''BUS ID''), (10, ''VID:PID''), (20, ''MANUFACTURER''), (20, ''PRODUCT''),
                        (10, ''SPEED''), (8, ''CLIENTS'')] #
                   replicate 82 (CHR ''-'') # map exported_row devices))"

definition imported_row :: "ImportedDeviceInfo \<Rightarrow> string" where
  "imported_row d =
     row [(6, dec_string (unat (im_port d))), (20, im_host d), (12, im_remote_bus_id d),
          (10, vid_pid (im_vendor_id d) (im_product_id d)), (10, speed_str (im_speed d))]"

definition print_imported_devices ::
  "serde \<Rightarrow> ImportedDeviceInfo list \<Rightarrow> OutputFormat \<Rightarrow> (string list, 'e) result" where
  "print_imported_devices serde devices fmt =
     (case fmt of
        Json \<Rightarrow> unwrap_text (sd_imported_text serde devices)
      | Quiet \<Rightarrow> Ok (map (\<lambda>d. dec_string (unat (im_port d))) devices)
      | Human \<Rightarrow>
          if devices = [] then Ok [''No imported devices.'']
          else Ok (row [(6, ''PORT''), (20, ''HOST''), (12, ''REMOTE BUS''), (10, ''VID:PID''), (10, ''SPEED'')] #
                   replicate 60 (CHR ''-'') # map imported_row devices))"

definition print_status ::
  "serde \<Rightarrow> DaemonStatus \<Rightarrow> ExportedDeviceInfo list \<Rightarrow> ImportedDeviceInfo list \<Rightarrow> OutputFormat
     \<Rightarrow> (string list, 'e) result" where
  "print_status serde status exported imported fmt =
     (case fmt of
        Json \<Rightarrow>
          unwrap_text (sd_pretty serde (json_object
            [(''status'', DaemonStatus_to_value status),
             (''exported_devices'', JArray (map ExportedDeviceInfo_to_value exported)),
             (''imported_devices'', JArray (map ImportedDeviceInfo_to_value imported))]))
      | Quiet \<Rightarrow>
          Ok [''exported='' @ dec_string (unat (ds_exported_devices status)) @
              '' imported='' @ dec_string (unat (ds_imported_devices status)) @
              '' connections='' @ dec_string (unat (ds_active_connections status))]
      | Human \<Rightarrow>
          rbind (print_exported_devices serde exported Human) (\<lambda>exported_lines.
          rbind (print_imported_devices serde imported Human) (\<lambda>imported_lines.
          Ok ([''Daemon Status'', replicate 40 (CHR ''=''),
               ''Version:            '' @ ds_version status,
               ''Uptime:             '' @ dec_string (unat (ds_uptime_secs status)) @ ''s'',
               ''Exported devices:   '' @ dec_string (unat (ds_exported_devices status)),
               ''Imported devices:   '' @ dec_string (unat (ds_imported_devices status)),
               ''Active connections: '' @ dec_string (unat (ds_active_connections status)),
               [], ''Exported Devices'', replicate 40 (CHR ''-'')] @ exported_lines @
              [[], ''Imported Devices'', replicate 40 (CHR ''-'')] @ imported_lines))))"

definition print_ok :: "serde \<Rightarrow> string \<Rightarrow> OutputFormat \<Rightarrow> string list" where
  "print_ok serde msg fmt =
     (case fmt of
        Json \<Rightarrow> [sd_compact serde (json_object [(''status'', JString ''ok''), (''message'', JString msg)])]
      | Quiet \<Rightarrow> []
      | Human \<Rightarrow> [msg])"

section \<open>Commands\<close>

datatype CmdError =
    Cmd_Client CliError
  | Cmd_Json string
  | Cmd_Addr string
  | Cmd_Remote ClientError
  | Cmd_Daemon DaemonError
  | Cmd_Io string

text \<open>\<open>sh_call\<close> is what connecting to the socket gives for the call of a method.\<close>

record shell =
  sh_codec :: rpc_text
  sh_serde :: serde
  sh_call :: "string \<Rightarrow> ApiMethod \<Rightarrow> (stream \<times> sink, io_error) result"
  sh_parse_addr :: "string \<Rightarrow> (SocketAddr, string) result"
  sh_tcp :: "SocketAddr \<Rightarrow> tcp"
  sh_tls :: "TlsClientConfig \<Rightarrow> (unit, ClientError) result"
  sh_handshake :: "TlsClientConfig \<Rightarrow> SocketAddr \<Rightarrow> (stream \<times> sink, string) result"
  sh_discover :: "u64 \<Rightarrow> DiscoveredServer list"
  sh_ip :: "SocketAddr \<Rightarrow> string"
  sh_port :: "SocketAddr \<Rightarrow> u16"

type_synonym command = "(string list, CmdError) result"

definition daemon_call :: "shell \<Rightarrow> string \<Rightarrow> ApiMethod \<Rightarrow> (json, CmdError) result" where
  "daemon_call sh socket_path m =
     map_err Cmd_Client (snd (call_daemon (sh_codec sh) m (sh_call sh socket_path m)))"

definition DEFAULT_PORT :: u16 where "DEFAULT_PORT = 3240"

definition unwrap_port :: "u16 option \<Rightarrow> u16" where
  "unwrap_port port = (case port of Some p \<Rightarrow> p | None \<Rightarrow> DEFAULT_PORT)"

definition remote_device_info :: "RemoteDevice \<Rightarrow> DeviceInfo" where
  "remote_device_info d =
     \<lparr>di_bus_id = rd_busid d, di_vendor_id = rd_id_vendor d, di_product_id = rd_id_product d,
      di_manufacturer = None, di_product = None, di_device_class = rd_device_class d,
      di_speed = (if rd_speed d = 1 then Low else if rd_speed d = 2 then Full else if rd_speed d = 3 then High
                  else if rd_speed d = 5 then Super else UnknownSpeed),
      di_is_bound = False\<rparr>"

definition list_run ::
  "shell \<Rightarrow> string \<Rightarrow> OutputFormat \<Rightarrow> bool \<Rightarrow> string option \<Rightarrow> u16 option \<Rightarrow> bool \<Rightarrow> string option \<Rightarrow> command" where
  "list_run sh socket_path fmt loc remote port tls tls_ca =
     (case remote of
        Some host \<Rightarrow>
          rbind (map_err Cmd_Addr (sh_parse_addr sh (host @ '':'' @ dec_string (unat (unwrap_port port))))) (\<lambda>addr.
          rbind (map_err Cmd_Remote
                   (if tls
                    then let tls_config = \<lparr>tk_ca_path = tls_ca, tk_client_cert_path = None,
                                           tk_client_key_path = None, tk_server_name = Some host\<rparr>
                         in list_remote_devices_tls addr (sh_tcp sh addr) (sh_tls sh tls_config)
                              (sh_handshake sh tls_config addr)
                    else list_remote_devices addr (sh_tcp sh addr))) (\<lambda>remote_devices.
          print_devices (sh_serde sh) (map remote_device_info remote_devices) fmt))
      | None \<Rightarrow>
          rbind (daemon_call sh socket_path ListLocalDevices) (\<lambda>result.
          rbind (map_err Cmd_Json (sd_to_devices (sh_serde sh) result)) (\<lambda>devices.
          print_devices (sh_serde sh) devices fmt)))"

definition run_bind :: "shell \<Rightarrow> string \<Rightarrow> OutputFormat \<Rightarrow> string \<Rightarrow> command" where
  "run_bind sh socket_path fmt bus_id =
     rbind (daemon_call sh socket_path (BindDevice bus_id)) (\<lambda>_.
     Ok (print_ok (sh_serde sh) (''Device '' @ bus_id @ '' exported successfully.'') fmt))"

definition run_unbind :: "shell \<Rightarrow> string \<Rightarrow> OutputFormat \<Rightarrow> string \<Rightarrow> command" where
  "run_unbind sh socket_path fmt bus_id =
     rbind (daemon_call sh socket_path (UnbindDevice bus_id)) (\<lambda>_.
     Ok (print_ok (sh_serde sh) (''Device '' @ bus_id @ '' unexported successfully.'') fmt))"

definition run_attach ::
  "shell \<Rightarrow> string \<Rightarrow> OutputFormat \<Rightarrow> string \<Rightarrow> string \<Rightarrow> u16 option \<Rightarrow> bool \<Rightarrow> command" where
  "run_attach sh socket_path fmt host bus_id port auto_reconnect =
     rbind (daemon_call sh socket_path (AttachDevice host (unwrap_port port) bus_id)) (\<lambda>_.
     Ok (print_ok (sh_serde sh)
       (''Attached '' @ bus_id @ '' from '' @ host @ '':'' @ dec_string (unat (unwrap_port port)) @ ''.'' @
        (if auto_reconnect then '' (auto-reconnect enabled)'' else [])) fmt))"

definition run_detach :: "shell \<Rightarrow> string \<Rightarrow> OutputFormat \<Rightarrow> u32 \<Rightarrow> command" where
  "run_detach sh socket_path fmt vhci_port =
     rbind (daemon_call sh socket_path (DetachDevice vhci_port)) (\<lambda>_.
     Ok (print_ok (sh_serde sh) (''Detached device on port '' @ dec_string (unat vhci_port) @ ''.'') fmt))"

definition status_run :: "shell \<Rightarrow> string \<Rightarrow> OutputFormat \<Rightarrow> command" where
  "status_run sh socket_path fmt =
     rbind (daemon_call sh socket_path GetStatus) (\<lambda>status_val.
     rbind (map_err Cmd_Json (sd_to_status (sh_serde sh) status_val)) (\<lambda>status.
     rbind (daemon_call sh socket_path ListExportedDevices) (\<lambda>exported_val.
     rbind (map_err Cmd_Json (sd_to_exported (sh_serde sh) exported_val)) (\<lambda>exported.
     print_status (sh_serde sh) status exported [] fmt))))"

definition server_value :: "shell \<Rightarrow> DiscoveredServer \<Rightarrow> json" where
  "server_value sh s = json_object
     [(''hostname'', JString (sv_hostname s)), (''address'', JString (sh_ip sh (sv_addr s))),
      (''port'', json_uint (sh_port sh (sv_addr s))), (''version'', JString (sv_version s)),
      (''device_count'', json_uint (sv_device_count s))]"

definition server_row :: "shell \<Rightarrow> DiscoveredServer \<Rightarrow> string" where
  "server_row sh s =
     row [(30, sv_hostname s), (20, sh_ip sh (sv_addr s)), (6, dec_string (unat (sh_port sh (sv_addr s)))),
          (10, sv_version s), (8, dec_string (unat (sv_device_count s)))]"

definition discover_run :: "shell \<Rightarrow> OutputFormat \<Rightarrow> u64 option \<Rightarrow> command" where
  "discover_run sh fmt timeout_secs =
     (let servers = sh_discover sh (case timeout_secs of Some t \<Rightarrow> t | None \<Rightarrow> 3) in
      case fmt of
        Json \<Rightarrow>
          rbind (map_err Cmd_Json (sd_pretty (sh_serde sh) (JArray (map (server_value sh) servers)))) (\<lambda>s. Ok [s])
      | Quiet \<Rightarrow>
          Ok (map (\<lambda>s. sh_ip sh (sv_addr s) @ '':'' @ dec_string (unat (sh_port sh (sv_addr s)))) servers)
      | Human \<Rightarrow>
          if servers = [] then Ok [''No Extender servers found.'']
          else Ok (row [(30, ''HOSTNAME''), (20, ''ADDRESS''), (6, ''PORT''), (10, ''VERSION''), (8, ''DEVICES'')] #
                   replicate 76 (CHR ''-'') # map (server_row sh) servers))"

section \<open>Generating certificates\<close>

datatype key_usage = KeyCertSign | CrlSign
datatype extended_key_usage = ServerAuth | ClientAuth

record CertificateParams =
  cp_names :: "string list"
  cp_is_ca :: bool
  cp_common_name :: string
  cp_organization :: string
  cp_key_usages :: "key_usage list"
  cp_extended_key_usages :: "extended_key_usage list"

text \<open>
  The crate \<open>rcgen\<close>: the nth key pair made, whether the names are acceptable, and the certificate
  for parameters and a key signed with a key. \<open>gn_write\<close> is whether a file can be written.
\<close>

record 'k generator =
  gn_key :: "nat \<Rightarrow> ('k, string) result"
  gn_names :: "string list \<Rightarrow> (unit, string) result"
  gn_sign :: "CertificateParams \<Rightarrow> 'k \<Rightarrow> 'k \<Rightarrow> (string, string) result"
  gn_key_pem :: "'k \<Rightarrow> string"
  gn_mkdir :: "string \<Rightarrow> (unit, string) result"
  gn_write :: "string \<Rightarrow> (unit, string) result"

text \<open>A file that was written: its content, and whether it was restricted to its owner.\<close>

type_synonym written = "(string \<times> string \<times> bool) list"

definition write_pem ::
  "'k generator \<Rightarrow> string \<Rightarrow> string \<Rightarrow> string \<Rightarrow> written \<Rightarrow> (written, string) result" where
  "write_pem gen dir file_name content disk =
     rbind (gn_write gen (dir @ ''/'' @ file_name)) (\<lambda>_.
     Ok (disk @ [(dir @ ''/'' @ file_name, content, contains ''key'' file_name)]))"

definition ca_params :: CertificateParams where
  "ca_params =
     \<lparr>cp_names = [''Extender CA''], cp_is_ca = True, cp_common_name = ''Extender CA'', cp_organization = ''Extender'',
      cp_key_usages = [KeyCertSign, CrlSign], cp_extended_key_usages = []\<rparr>"

definition server_params :: CertificateParams where
  "server_params =
     \<lparr>cp_names = [''localhost'', ''127.0.0.1''], cp_is_ca = False, cp_common_name = ''Extender Server'',
      cp_organization = ''Extender'', cp_key_usages = [], cp_extended_key_usages = [ServerAuth]\<rparr>"

definition client_params :: CertificateParams where
  "client_params =
     \<lparr>cp_names = [''extender-client''], cp_is_ca = False, cp_common_name = ''Extender Client'',
      cp_organization = ''Extender'', cp_key_usages = [], cp_extended_key_usages = [ClientAuth]\<rparr>"

definition generate ::
  "'k generator \<Rightarrow> string \<Rightarrow> nat \<Rightarrow> CertificateParams \<Rightarrow> ('k \<Rightarrow> 'k) \<Rightarrow> string \<Rightarrow> string \<Rightarrow> written
     \<Rightarrow> ('k \<times> written, string) result" where
  "generate gen dir n params issuer cert_file key_file disk =
     rbind (gn_key gen n) (\<lambda>key_pair.
     rbind (gn_names gen (cp_names params)) (\<lambda>_.
     rbind (gn_sign gen params key_pair (issuer key_pair)) (\<lambda>cert.
     rbind (write_pem gen dir cert_file cert disk) (\<lambda>disk1.
     rbind (write_pem gen dir key_file (gn_key_pem gen key_pair) disk1) (\<lambda>disk2.
     Ok (key_pair, disk2))))))"

text \<open>\<open>config_dir\<close> is the configuration directory of the user, when there is one.\<close>

definition tls_gen_run :: "'k generator \<Rightarrow> string option \<Rightarrow> string option \<Rightarrow> (written, string) result" where
  "tls_gen_run gen config_dir output_dir =
     (let dir = (case output_dir of
                   Some d \<Rightarrow> d
                 | None \<Rightarrow> (case config_dir of Some c \<Rightarrow> c | None \<Rightarrow> ''/tmp'') @ ''/extender/tls'')
      in rbind (gn_mkdir gen dir) (\<lambda>_.
         rbind (generate gen dir 0 ca_params (\<lambda>k. k) ''ca.pem'' ''ca-key.pem'' []) (\<lambda>(ca_key_pair, disk).
         rbind (generate gen dir 1 server_params (\<lambda>_. ca_key_pair) ''server-cert.pem'' ''server-key.pem'' disk) (\<lambda>(_, disk).
         rbind (generate gen dir 2 client_params (\<lambda>_. ca_key_pair) ''client-cert.pem'' ''client-key.pem'' disk) (\<lambda>(_, disk).
         Ok disk)))))"

section \<open>The program\<close>

datatype Command =
    List bool "string option" "u16 option" bool "string option"
  | Bind_cmd string
  | Unbind_cmd string
  | Attach string string "u16 option" bool bool
  | Detach u32
  | Discover "u64 option"
  | Status
  | Daemon "string option" cli_overrides
  | TlsGen "string option"
  | Version

record Cli =
  cl_socket :: string
  cl_format :: OutputFormat
  cl_command :: Command

definition default_socket_path :: "bool \<Rightarrow> env \<Rightarrow> string" where
  "default_socket_path is_root env =
     (if is_root then ''/var/run/extender.sock''
      else (case env ''XDG_RUNTIME_DIR'' of Some d \<Rightarrow> d | None \<Rightarrow> ''/tmp'') @ ''/extender.sock'')"

text \<open>
  The two commands that do not return lines are arguments: \<open>daemon\<close> stands for the daemon
  (\<open>Daemon_Run\<close>) until it has stopped, \<open>tls_gen\<close> for \<open>tls_gen_run\<close>, whose messages go to the
  standard error.
\<close>

definition run ::
  "shell \<Rightarrow> (string option \<Rightarrow> cli_overrides \<Rightarrow> (unit, CmdError) result) \<Rightarrow> (string option \<Rightarrow> (written, string) result)
     \<Rightarrow> Cli \<Rightarrow> command" where
  "run sh daemon tls_gen cli =
     (case cl_command cli of
        List loc remote port tls tls_ca \<Rightarrow> list_run sh (cl_socket cli) (cl_format cli) loc remote port tls tls_ca
      | Bind_cmd b \<Rightarrow> run_bind sh (cl_socket cli) (cl_format cli) b
      | Unbind_cmd b \<Rightarrow> run_unbind sh (cl_socket cli) (cl_format cli) b
      | Attach remote b port reconnect no_reconnect \<Rightarrow>
          run_attach sh (cl_socket cli) (cl_format cli) remote b port (reconnect \<and> \<not> no_reconnect)
      | Detach port \<Rightarrow> run_detach sh (cl_socket cli) (cl_format cli) port
      | Discover timeout \<Rightarrow> discover_run sh (cl_format cli) timeout
      | Status \<Rightarrow> status_run sh (cl_socket cli) (cl_format cli)
      | Daemon config overrides \<Rightarrow> rbind (daemon config overrides) (\<lambda>_. Ok [])
      | TlsGen output \<Rightarrow> rbind (map_err Cmd_Io (tls_gen output)) (\<lambda>_. Ok [])
      | Version \<Rightarrow> Ok [''extender '' @ CARGO_PKG_VERSION])"

text \<open>What the process prints and its exit status; a panic of a Rust program gives 101.\<close>

definition main_result :: "command \<Rightarrow> string list \<times> nat" where
  "main_result result = (case result of Ok out \<Rightarrow> (out, 0) | Err _ \<Rightarrow> ([], 1) | Panic \<Rightarrow> ([], 101))"

section \<open>What the commands show\<close>

text \<open>The tool and the daemon look for the same socket unless told otherwise.\<close>

lemma default_sockets_agree:
  "default_socket_path is_root env = dc_socket_path (DaemonConfig_default is_root env)"
  by (simp add: default_socket_path_def DaemonConfig_default_def default_daemon_paths_def Let_def)

lemma daemon_call_Ok:
  "daemon_call sh sock m = Ok v \<longleftrightarrow> snd (call_daemon (sh_codec sh) m (sh_call sh sock m)) = Ok v"
  by (simp add: daemon_call_def)

text \<open>
  A command that changes something at the daemon reports success, with status 0, exactly when the
  daemon has answered without an error.
\<close>

lemma success_means_answered:
  "(\<exists>out. run_bind sh sock fmt b = Ok out) \<longleftrightarrow> (\<exists>v. daemon_call sh sock (BindDevice b) = Ok v)"
  "(\<exists>out. run_unbind sh sock fmt b = Ok out) \<longleftrightarrow> (\<exists>v. daemon_call sh sock (UnbindDevice b) = Ok v)"
  "(\<exists>out. run_attach sh sock fmt host b port rc = Ok out) \<longleftrightarrow>
     (\<exists>v. daemon_call sh sock (AttachDevice host (unwrap_port port) b) = Ok v)"
  "(\<exists>out. run_detach sh sock fmt n = Ok out) \<longleftrightarrow> (\<exists>v. daemon_call sh sock (DetachDevice n) = Ok v)"
  by (auto simp: run_bind_def run_unbind_def run_attach_def run_detach_def rbind_eq_Ok)

text \<open>The options for reconnecting change one message and nothing else.\<close>

lemma reconnect_only_printed:
  "run_attach sh sock Quiet host b port rc = run_attach sh sock Quiet host b port rc'"
  by (simp add: run_attach_def print_ok_def)

text \<open>
  \<open>extender list -r host\<close> against a server, over TCP or TLS, whose answer is the bytes \<open>bs\<close>: the devices
  are those exported, in the order of the server, and each can then be given to attach.
\<close>

definition connects :: "shell \<Rightarrow> SocketAddr \<Rightarrow> bool \<Rightarrow> TlsClientConfig \<Rightarrow> bytes \<Rightarrow> bool" where
  "connects sh addr tls config bs \<longleftrightarrow>
     (if tls then (\<exists>r w. sh_tcp sh addr = Connected r w) \<and> sh_tls sh config = Ok () \<and>
                  sh_handshake sh config addr = Ok (received bs, empty_sink)
      else sh_tcp sh addr = Connected (received bs) empty_sink)"

lemma device_row_starts: "\<exists>rest. device_row d = di_bus_id d @ rest"
  by (simp add: device_row_def pad_def)

lemma list_remote_lists_exports:
  assumes "announced reg" "set order \<subseteq> dom (reg_devices reg)" "length order \<le> 256"
    and "sh_parse_addr sh (host @ '':'' @ dec_string (unat (unwrap_port port))) = Ok addr"
    and "connects sh addr tls \<lparr>tk_ca_path = ca, tk_client_cert_path = None, tk_client_key_path = None,
           tk_server_name = Some host\<rparr> (sent w')"
    and "handle_connection False order now reg (received (sent (fst (devlist_exchange (received []) empty_sink)))) empty_sink
       = (reg', r', w', fin)"
  obtains devices where "length devices = length order"
    "\<And>i e. i < length order \<Longrightarrow> reg_devices reg (order ! i) = Some e \<Longrightarrow>
       di_bus_id (devices ! i) = order ! i \<and> di_vendor_id (devices ! i) = ld_vendor_id (ex_device e) \<and>
       di_product_id (devices ! i) = ld_product_id (ex_device e)"
    "\<And>sock fmt loc. list_run sh sock fmt loc (Some host) port tls ca = print_devices (sh_serde sh) devices fmt"
    "reg' = reg" "fin = Closed"
proof -
  obtain w1 ds where ex: "handle_connection False order now reg
      (received (sent (fst (devlist_exchange (received []) empty_sink)))) empty_sink = (reg, received [], w1, Closed)"
    "devlist_exchange (received (sent w1)) empty_sink = (fst (devlist_exchange (received []) empty_sink), Ok ds)"
    "map rd_busid ds = order"
    "\<And>i. i < length order \<Longrightarrow> \<exists>u. to_protocol_device (ex_device (the (reg_devices reg (order ! i)))) = Ok u \<and>
       ds ! i = RemoteDevice_from u"
    by (rule list_exchange [OF assms(1-3), where now = now and r = "received []"]) blast
  have w1: "w1 = w'" "reg' = reg" "fin = Closed" using ex(1) assms(6) by simp_all
  have len: "length ds = length order" using ex(3) by (metis length_map)
  let ?devices = "map remote_device_info ds"
  have dev: "di_bus_id (?devices ! i) = order ! i \<and> di_vendor_id (?devices ! i) = ld_vendor_id (ex_device e) \<and>
       di_product_id (?devices ! i) = ld_product_id (ex_device e)"
    if i: "i < length order" and e: "reg_devices reg (order ! i) = Some e" for i e
  proof -
    obtain u where u: "to_protocol_device (ex_device e) = Ok u" "ds ! i = RemoteDevice_from u"
      using ex(4) [OF i] e by auto
    show ?thesis
      using protocol_device_remote(1-3) [OF assms(1) e u(1)] u(2) i len
      by (simp add: remote_device_info_def) (simp add: RemoteDevice_from_def)
  qed
  have "list_run sh sock fmt loc (Some host) port tls ca = print_devices (sh_serde sh) ?devices fmt" for sock fmt loc
    using assms(4,5) ex(2) w1(1)
    by (auto simp: list_run_def connects_def list_remote_devices_def list_remote_devices_tls_def tcp_connect_def
      rbind_def map_err_def Let_def split: if_splits)
  with that [of ?devices] dev len w1(2,3) show thesis by simp
qed

text \<open>
  The certificates that are generated name \<open>localhost\<close> and \<open>127.0.0.1\<close> only, and of the files exactly
  the three with the keys are restricted to their owner.
\<close>

lemma generated_files:
  assumes "tls_gen_run gen config_dir (Some dir) = Ok disk"
  shows "map fst disk = map (\<lambda>f. dir @ ''/'' @ f) [''ca.pem'', ''ca-key.pem'', ''server-cert.pem'', ''server-key.pem'',
      ''client-cert.pem'', ''client-key.pem'']"
    and "map (snd \<circ> snd) disk = [False, True, False, True, False, True]"
    and "\<exists>k ca cert. gn_key gen 1 = Ok k \<and> gn_key gen 0 = Ok ca \<and> gn_sign gen server_params k ca = Ok cert \<and>
      (dir @ ''/server-cert.pem'', cert, False) \<in> set disk"
  using assms by (auto simp: tls_gen_run_def generate_def write_pem_def rbind_eq_Ok starts_with_def)

end
