(* ===== verification/Daemon_Windows.thy ===== *)
theory Daemon_Windows
  imports Cli
begin

text \<open>
  The daemon and the tool on Windows: the parts of \<open>extender-daemon\<close> (\<open>api_server.rs\<close>, \<open>config.rs\<close>,
  \<open>signals.rs\<close>, \<open>privileges.rs\<close>, \<open>mdns.rs\<close>) and of \<open>extender-cli\<close> (\<open>client.rs\<close>, \<open>main.rs\<close>) that differ
  there. Instead of a socket file there is a TCP port of the loopback address, and the setting
  \<open>socket_path\<close> holds its number. Shown: both ends come to the same address whatever the setting is,
  and the PID file does not keep a second daemon out.
\<close>

section \<open>Definitions\<close>

definition DEFAULT_API_PORT :: u16 where "DEFAULT_API_PORT = 9241"

definition parse_api_port :: "string \<Rightarrow> u16" where
  "parse_api_port socket_path =
     (case from_str_radix 16 10 socket_path of Some n \<Rightarrow> word_of_nat n | None \<Rightarrow> DEFAULT_API_PORT)"

text \<open>\<open>tcp_bind\<close> is what binding a listener to an address gives, \<open>dial\<close> connecting; the loop is the one on Unix.\<close>

definition run_api_server_windows ::
  "(string \<Rightarrow> (unit, io_error) result) \<Rightarrow> string \<Rightarrow> api_event list \<Rightarrow> (nat \<times> bool, io_error) result" where
  "run_api_server_windows tcp_bind socket_path evs =
     (let port = parse_api_port socket_path;
          addr = ''127.0.0.1:'' @ dec_string (unat port)
      in rbind (tcp_bind addr) (\<lambda>_. Ok (api_loop evs)))"

definition connect_to_daemon_windows ::
  "(string \<Rightarrow> (stream \<times> sink, io_error) result) \<Rightarrow> string \<Rightarrow> (stream \<times> sink, CliError) result" where
  "connect_to_daemon_windows dial socket_path =
     (let port = (case from_str_radix 16 10 socket_path of Some n \<Rightarrow> word_of_nat n | None \<Rightarrow> (9241 :: u16));
          addr = ''127.0.0.1:'' @ dec_string (unat port)
      in map_err ConnectionFailed (dial addr))"

definition default_daemon_paths_windows :: "env \<Rightarrow> string \<times> string" where
  "default_daemon_paths_windows env =
     (let appdata = (case env ''APPDATA'' of
                       Some d \<Rightarrow> d
                     | None \<Rightarrow> ''C:'' @ [CHR 0x5C] @ ''Users'' @ [CHR 0x5C] @ ''Public'')
      in (''9241'', appdata @ [CHR 0x5C] @ ''Extender'' @ [CHR 0x5C] @ ''extender.pid''))"

definition default_socket_path_windows :: string where
  "default_socket_path_windows = ''9241''"

definition get_hostname_windows :: "env \<Rightarrow> string" where
  "get_hostname_windows env = (case env ''COMPUTERNAME'' of Some h \<Rightarrow> h | None \<Rightarrow> ''extender'')"

text \<open>
  Ctrl+C, here \<open>SigInt\<close>, is the only signal; the other two do not exist. The answer is whether the
  handler has asked for the shutdown.
\<close>

fun signal_loop_windows :: "signal_event list \<Rightarrow> bool" where
  "signal_loop_windows [] = False"
| "signal_loop_windows (SigInt # _) = True"
| "signal_loop_windows (Cancelled # _) = False"
| "signal_loop_windows (_ # evs) = signal_loop_windows evs"

text \<open>No process counts as running.\<close>

definition windows_sys :: "sys \<Rightarrow> sys" where
  "windows_sys sys = sys\<lparr>sy_kill := (\<lambda>_. False)\<rparr>"

section \<open>The tool finds the daemon\<close>

text \<open>
  Whatever the setting is, a number or not, the tool connects to the address the daemon listens on,
  and a port number that was configured is used.
\<close>

lemma windows_same_address:
  obtains addr where "\<And>bd evs. run_api_server_windows bd s evs = rbind (bd addr) (\<lambda>_. Ok (api_loop evs))"
    and "\<And>dial. connect_to_daemon_windows dial s = map_err ConnectionFailed (dial addr)"
  by (rule that [of "''127.0.0.1:'' @ dec_string (unat (parse_api_port s))"])
     (cases "from_str_radix 16 10 s"; simp add: run_api_server_windows_def connect_to_daemon_windows_def
       parse_api_port_def DEFAULT_API_PORT_def Let_def)+

lemma parse_configured_port: "parse_api_port (dec_string (unat port)) = port"
  using from_str_radix_word [of port] by (simp add: parse_api_port_def)

lemma windows_default_sockets:
  "fst (default_daemon_paths_windows env) = default_socket_path_windows"
  "parse_api_port default_socket_path_windows = DEFAULT_API_PORT"
proof -
  show "fst (default_daemon_paths_windows env) = default_socket_path_windows"
    by (simp add: default_daemon_paths_windows_def default_socket_path_windows_def Let_def)
  show "parse_api_port default_socket_path_windows = DEFAULT_API_PORT"
    by (simp add: default_socket_path_windows_def parse_api_port_def from_str_radix_def hex_digit_def Let_def
      DEFAULT_API_PORT_def)
qed

text \<open>
  The loop serves the connections up to the shutdown, like the one on Unix; with no socket file
  there is nothing to remove.
\<close>

lemma windows_api_server_runs:
  assumes "tcp_bind (''127.0.0.1:'' @ dec_string (unat (port :: u16))) = Ok ()" "Api_cancelled \<notin> set evs"
  shows "run_api_server_windows tcp_bind (dec_string (unat port)) (evs @ Api_cancelled # later) =
    Ok (length (filter (\<lambda>e. e = Api_accepted) evs), True)"
  using assms by (simp add: run_api_server_windows_def parse_configured_port api_loop_cancelled)

section \<open>The PID file\<close>

text \<open>
  On Unix a second daemon is refused while the first one runs (\<open>second_daemon_refused\<close>). Here the
  file of the running daemon is taken for a stale one and replaced.
\<close>

lemma windows_second_daemon_starts:
  assumes "create_pid_file (windows_sys sys) pid file fs = (Ok (), fs')"
    and "sy_remove sys = Ok ()" "sy_parent sys = Ok ()" "sy_create sys = Ok ()" "sy_write sys = Ok ()"
  shows "create_pid_file (windows_sys sys) pid' file fs' = (Ok (), fs'(file \<mapsto> dec_string (unat pid') @ [CHR 0x0A]))"
  using create_pid_file_Ok [OF assms(1)] assms(2-5)
  by (simp add: create_pid_file_def check_pid_file_def parse_pid_written is_process_running_def
    windows_sys_def remove_stale_def write_pid_def)

text \<open>Ctrl+C stops the daemon unless it was stopping already.\<close>

lemma windows_ctrl_c: "Cancelled \<notin> set evs \<Longrightarrow> signal_loop_windows (evs @ SigInt # later)"
  by (induction evs rule: signal_loop_windows.induct) simp_all

end
