(* ===== verification/Client_Storage.thy ===== *)
theory Client_Storage
  imports Client_Conn
begin

text \<open>
  \<open>extender-client/src/mass_storage.rs\<close>: the Bulk-Only Transport driver. A SCSI command is a
  31-byte command wrapper (CBW), an optional data phase and a 13-byte status wrapper (CSW),
  each one transfer over the connection of \<open>Client_Conn\<close>. The theorems relate it to a disk
  that speaks the transport: blocks read are the blocks of the disk, blocks written become
  the blocks of the disk.
\<close>

section \<open>Wrappers and commands\<close>

definition CBW_SIGNATURE :: u32 where "CBW_SIGNATURE = 0x43425355"
definition CSW_SIGNATURE :: u32 where "CSW_SIGNATURE = 0x53425355"
definition CBW_SIZE :: usize where "CBW_SIZE = 31"
definition CSW_SIZE :: usize where "CSW_SIZE = 13"
definition DEFAULT_EP_OUT :: u8 where "DEFAULT_EP_OUT = 0x02"
definition DEFAULT_EP_IN :: u8 where "DEFAULT_EP_IN = 0x81"

datatype Direction = Dir_Out | Dir_In

datatype CswStatus = Passed | Failed | PhaseError | Unknown u8

definition CswStatus_from_byte :: "u8 \<Rightarrow> CswStatus" where
  "CswStatus_from_byte b =
     (if b = 0 then Passed else if b = 1 then Failed else if b = 2 then PhaseError else Unknown b)"

fun CswStatus_to_byte :: "CswStatus \<Rightarrow> u8" where
  "CswStatus_to_byte Passed = 0"
| "CswStatus_to_byte Failed = 1"
| "CswStatus_to_byte PhaseError = 2"
| "CswStatus_to_byte (Unknown b) = b"

datatype ScsiCommand =
    TestUnitReady | Inquiry | ReadCapacity10
  | Read10 u32 u16 \<comment> \<open>lba, blocks\<close>
  | Write10 u32 u16
  | RequestSense | ModeSense6

fun encode_cdb :: "ScsiCommand \<Rightarrow> bytes" where
  "encode_cdb TestUnitReady = replicate 16 0"
| "encode_cdb Inquiry = (replicate 16 0)[0 := 0x12, 4 := 36]"
| "encode_cdb ReadCapacity10 = (replicate 16 0)[0 := 0x25]"
| "encode_cdb (Read10 lba blocks) =
     [0x28, 0] @ u32_to_be_bytes lba @ [0] @ u16_to_be_bytes blocks @ replicate 7 0"
| "encode_cdb (Write10 lba blocks) =
     [0x2A, 0] @ u32_to_be_bytes lba @ [0] @ u16_to_be_bytes blocks @ replicate 7 0"
| "encode_cdb RequestSense = (replicate 16 0)[0 := 0x03, 4 := 18]"
| "encode_cdb ModeSense6 = (replicate 16 0)[0 := 0x1A, 2 := 0x3F, 4 := 192]"

fun cdb_length :: "ScsiCommand \<Rightarrow> u8" where
  "cdb_length TestUnitReady = 6"
| "cdb_length Inquiry = 6"
| "cdb_length ReadCapacity10 = 10"
| "cdb_length (Read10 _ _) = 10"
| "cdb_length (Write10 _ _) = 10"
| "cdb_length RequestSense = 6"
| "cdb_length ModeSense6 = 6"

record Cbw =
  cbw_signature :: u32
  cbw_tag :: u32
  cbw_data_transfer_length :: u32
  cbw_flags :: u8
  cbw_lun :: u8
  cbw_cb_length :: u8
  cbw_cb :: bytes

definition Cbw_to_bytes :: "Cbw \<Rightarrow> bytes" where
  "Cbw_to_bytes c =
     u32_to_le_bytes (cbw_signature c) @ u32_to_le_bytes (cbw_tag c) @
     u32_to_le_bytes (cbw_data_transfer_length c) @
     [cbw_flags c, cbw_lun c, cbw_cb_length c] @ cbw_cb c"

definition Cbw_from_bytes :: "bytes \<Rightarrow> (Cbw, ClientError) result" where
  "Cbw_from_bytes buf =
     (let signature = u32_le_at buf 0 in
      if signature \<noteq> CBW_SIGNATURE then Err (MassStorage (InvalidSignature signature))
      else Ok \<lparr>cbw_signature = signature, cbw_tag = u32_le_at buf 4,
               cbw_data_transfer_length = u32_le_at buf 8, cbw_flags = byte_at buf 12,
               cbw_lun = byte_at buf 13, cbw_cb_length = byte_at buf 14,
               cbw_cb = take 16 (drop 15 buf)\<rparr>)"

record Csw =
  csw_signature :: u32
  csw_tag :: u32
  csw_data_residue :: u32
  csw_status :: CswStatus

definition Csw_to_bytes :: "Csw \<Rightarrow> bytes" where
  "Csw_to_bytes c =
     u32_to_le_bytes (csw_signature c) @ u32_to_le_bytes (csw_tag c) @
     u32_to_le_bytes (csw_data_residue c) @ [CswStatus_to_byte (csw_status c)]"

definition Csw_from_bytes :: "bytes \<Rightarrow> (Csw, ClientError) result" where
  "Csw_from_bytes buf =
     (let signature = u32_le_at buf 0 in
      if signature \<noteq> CSW_SIGNATURE then Err (MassStorage (InvalidSignature signature))
      else Ok \<lparr>csw_signature = signature, csw_tag = u32_le_at buf 4,
               csw_data_residue = u32_le_at buf 8,
               csw_status = CswStatus_from_byte (byte_at buf 12)\<rparr>)"

section \<open>The device\<close>

record MassStorageDevice = usb_conn +
  ms_ep_out :: u8
  ms_ep_in :: u8
  ms_next_tag :: u32
  ms_block_size :: u32
  ms_total_blocks :: u64
  ms_vendor :: string
  ms_product :: string

definition ms_connect :: "SocketAddr \<Rightarrow> string \<Rightarrow> tcp \<Rightarrow> (MassStorageDevice, ClientError) result" where
  "ms_connect addr bus_id outcome =
     rbind (tcp_connect addr outcome) (\<lambda>(reader, writer).
     rbind (import_exchange bus_id reader writer) (\<lambda>(device, reader', writer').
     Ok \<lparr>c_reader = reader', c_writer = writer', c_devid = device_id device, c_next_seqnum = 1,
         ms_ep_out = DEFAULT_EP_OUT, ms_ep_in = DEFAULT_EP_IN, ms_next_tag = 1,
         ms_block_size = 0, ms_total_blocks = 0, ms_vendor = [], ms_product = []\<rparr>))"

definition next_tag :: "(MassStorageDevice, u32) op" where
  "next_tag d = Ok (ms_next_tag d, d\<lparr>ms_next_tag := succ_seqnum (ms_next_tag d)\<rparr>)"

definition ms_send_bulk_out :: "bytes \<Rightarrow> (MassStorageDevice, unit) op" where
  "ms_send_bulk_out payload = cget (\<lambda>d. send_out (ms_ep_out d) zero_setup payload)"

definition ms_read_ret_submit :: "(MassStorageDevice, bytes) op" where
  "ms_read_ret_submit = read_reply MassStorage"

definition ms_receive_bulk_in :: "u32 \<Rightarrow> (MassStorageDevice, bytes) op" where
  "ms_receive_bulk_in len = cget (\<lambda>d. transfer_in MassStorage (ms_ep_in d) zero_setup len)"

definition command_wrapper :: "ScsiCommand \<Rightarrow> u32 \<Rightarrow> u32 \<Rightarrow> Direction \<Rightarrow> Cbw" where
  "command_wrapper command tag data_len direction =
     \<lparr>cbw_signature = CBW_SIGNATURE, cbw_tag = tag, cbw_data_transfer_length = data_len,
      cbw_flags = (if direction = Dir_In then 0x80 else 0), cbw_lun = 0,
      cbw_cb_length = cdb_length command, cbw_cb = encode_cdb command\<rparr>"

definition send_cbw :: "ScsiCommand \<Rightarrow> u32 \<Rightarrow> Direction \<Rightarrow> (MassStorageDevice, u32) op" where
  "send_cbw command data_len direction =
     cbind next_tag (\<lambda>tag.
     cbind (ms_send_bulk_out (Cbw_to_bytes (command_wrapper command tag data_len direction))) (\<lambda>_.
     creturn tag))"

definition receive_csw :: "u32 \<Rightarrow> (MassStorageDevice, CswStatus) op" where
  "receive_csw expected_tag =
     cbind (ms_receive_bulk_in (word_of_nat CSW_SIZE)) (\<lambda>data.
     if length data < CSW_SIZE then cerr (MassStorage (CswTooShort CSW_SIZE (length data)))
     else case Csw_from_bytes (take CSW_SIZE data) of
            Ok csw \<Rightarrow>
              if csw_tag csw \<noteq> expected_tag
              then cerr (MassStorage (CswTagMismatch expected_tag (csw_tag csw)))
              else creturn (csw_status csw)
          | Err e \<Rightarrow> cerr e
          | Panic \<Rightarrow> (\<lambda>_. Panic))"

definition scsi_command ::
  "ScsiCommand \<Rightarrow> bytes option \<Rightarrow> u32 \<Rightarrow> (MassStorageDevice, bytes) op" where
  "scsi_command cmd data response_len =
     (let (direction, data_len) =
            (case data of
               Some p \<Rightarrow> (Dir_Out, word_of_nat (length p))
             | None \<Rightarrow> if response_len > 0 then (Dir_In, response_len) else (Dir_Out, 0))
      in cbind (send_cbw cmd data_len direction) (\<lambda>tag.
         cbind ms_read_ret_submit (\<lambda>_.
         cbind (case data of
                  Some p \<Rightarrow> cbind (ms_send_bulk_out p) (\<lambda>_. cbind ms_read_ret_submit (\<lambda>_. creturn []))
                | None \<Rightarrow> if response_len > 0 then ms_receive_bulk_in response_len else creturn [])
           (\<lambda>response_data.
         cbind (receive_csw tag) (\<lambda>status.
         case status of
           Passed \<Rightarrow> creturn response_data
         | Failed \<Rightarrow> cerr (MassStorage ScsiFailed)
         | PhaseError \<Rightarrow> cerr (MassStorage ScsiPhaseError)
         | Unknown b \<Rightarrow> cerr (MassStorage (UnknownCswStatus b)))))))"

definition ms_initialize :: "(MassStorageDevice, unit) op" where
  "ms_initialize =
     cbind (scsi_command Inquiry None 36) (\<lambda>inquiry_data.
     cbind (if length inquiry_data \<ge> 36
            then cmodify (\<lambda>d. d\<lparr>ms_vendor := trim (from_utf8_lossy (take 8 (drop 8 inquiry_data))),
                               ms_product := trim (from_utf8_lossy (take 16 (drop 16 inquiry_data)))\<rparr>)
            else creturn ()) (\<lambda>_.
     cbind (scsi_command ReadCapacity10 None 8) (\<lambda>cap_data.
     if length cap_data \<ge> 8
     then cmodify (\<lambda>d. d\<lparr>ms_block_size := u32_at cap_data 4,
                        ms_total_blocks := ucast (u32_at cap_data 0) + 1\<rparr>)
     else creturn ())))"

text \<open>The number of bytes copied, and the caller's buffer afterwards.\<close>

definition read_blocks :: "u64 \<Rightarrow> u32 \<Rightarrow> bytes \<Rightarrow> (MassStorageDevice, usize \<times> bytes) op" where
  "read_blocks lba count buf =
     cget (\<lambda>d.
       let expected_len = unat count * unat (ms_block_size d) in
       if length buf < expected_len
       then cerr (MassStorage (BufferTooSmall expected_len (length buf)))
       else cbind (scsi_command (Read10 (ucast lba) (ucast count)) None (word_of_nat expected_len))
              (\<lambda>data. let copy_len = min (length data) (length buf)
                      in creturn (copy_len, take copy_len data @ drop copy_len buf)))"

definition write_blocks :: "u64 \<Rightarrow> u32 \<Rightarrow> bytes \<Rightarrow> (MassStorageDevice, usize) op" where
  "write_blocks lba count data =
     cget (\<lambda>d.
       let expected_len = unat count * unat (ms_block_size d) in
       if length data < expected_len
       then cerr (MassStorage (DataTooSmall expected_len (length data)))
       else cbind (scsi_command (Write10 (ucast lba) (ucast count))
                     (Some (take expected_len data)) 0) (\<lambda>_. creturn expected_len))"

definition disk_size :: "MassStorageDevice \<Rightarrow> u64" where
  "disk_size d = ms_total_blocks d * ucast (ms_block_size d)"

section \<open>Wrappers\<close>

lemma length_encode_cdb [simp]: "length (encode_cdb c) = 16"
  by (cases c) simp_all

lemma length_Cbw_to_bytes [simp]: "length (cbw_cb c) = 16 \<Longrightarrow> length (Cbw_to_bytes c) = CBW_SIZE"
  by (simp add: Cbw_to_bytes_def CBW_SIZE_def)

lemma length_Csw_to_bytes [simp]: "length (Csw_to_bytes c) = CSW_SIZE"
  by (simp add: Csw_to_bytes_def CSW_SIZE_def)

lemma CswStatus_roundtrip: "CswStatus_to_byte (CswStatus_from_byte b) = b"
  by (simp add: CswStatus_from_byte_def)

lemma Cbw_fields:
  assumes "length (cbw_cb c) = 16"
  shows "u32_le_at (Cbw_to_bytes c) 0 = cbw_signature c" "u32_le_at (Cbw_to_bytes c) 4 = cbw_tag c"
    "u32_le_at (Cbw_to_bytes c) 8 = cbw_data_transfer_length c"
    "byte_at (Cbw_to_bytes c) 12 = cbw_flags c" "byte_at (Cbw_to_bytes c) 13 = cbw_lun c"
    "byte_at (Cbw_to_bytes c) 14 = cbw_cb_length c" "take 16 (drop 15 (Cbw_to_bytes c)) = cbw_cb c"
  using assms
  by (simp_all add: u32_le_at_def Cbw_to_bytes_def byte_at_def u32_to_le_eq u32_from_to_le)

lemma Cbw_roundtrip:
  "length (cbw_cb c) = 16 \<Longrightarrow> cbw_signature c = CBW_SIGNATURE \<Longrightarrow>
     Cbw_from_bytes (Cbw_to_bytes c) = Ok c"
  by (simp add: Cbw_from_bytes_def Cbw_fields Let_def)

lemma Csw_fields:
  "u32_le_at (Csw_to_bytes c) 0 = csw_signature c" "u32_le_at (Csw_to_bytes c) 4 = csw_tag c"
  "u32_le_at (Csw_to_bytes c) 8 = csw_data_residue c"
  "byte_at (Csw_to_bytes c) 12 = CswStatus_to_byte (csw_status c)"
  by (simp_all add: u32_le_at_def Csw_to_bytes_def byte_at_def u32_to_le_eq u32_from_to_le)

lemma Csw_from_bytes_Ok:
  "Csw_from_bytes buf = Ok csw \<Longrightarrow> length buf = CSW_SIZE \<Longrightarrow> buf = Csw_to_bytes csw"
proof -
  assume "length buf = CSW_SIZE"
  then obtain a b c d e f g h i j k l m where "buf = [a, b, c, d, e, f, g, h, i, j, k, l, m]"
    by (auto simp: CSW_SIZE_def length_Suc_conv numeral_eq_Suc)
  moreover assume "Csw_from_bytes buf = Ok csw"
  ultimately show ?thesis
    by (auto simp: Csw_from_bytes_def Csw_to_bytes_def u32_le_at_def byte_at_def u32_to_from_le
      CswStatus_roundtrip Let_def split: if_splits) (metis u32_to_from_le)
qed

section \<open>One SCSI command\<close>

text \<open>The requests a command sends: the wrapper, the data phase, the status phase.\<close>

definition bulk_out_cmd :: "MassStorageDevice \<Rightarrow> u32 \<Rightarrow> bytes \<Rightarrow> CmdSubmit" where
  "bulk_out_cmd d n payload =
     urb_cmd n (c_devid d) 0 (ucast (ms_ep_out d AND 0x0F)) (word_of_nat (length payload))
       zero_setup payload"

definition bulk_in_cmd :: "MassStorageDevice \<Rightarrow> u32 \<Rightarrow> u32 \<Rightarrow> CmdSubmit" where
  "bulk_in_cmd d n len = urb_cmd n (c_devid d) 1 (ucast (ms_ep_in d AND 0x0F)) len zero_setup []"

definition scsi_requests ::
  "MassStorageDevice \<Rightarrow> ScsiCommand \<Rightarrow> bytes option \<Rightarrow> u32 \<Rightarrow> CmdSubmit list" where
  "scsi_requests d cmd data rlen =
     (let n = c_next_seqnum d; n1 = succ_seqnum n; n2 = succ_seqnum n1; tag = ms_next_tag d in
      case data of
        Some p \<Rightarrow>
          [bulk_out_cmd d n (Cbw_to_bytes (command_wrapper cmd tag (word_of_nat (length p)) Dir_Out)),
           bulk_out_cmd d n1 p, bulk_in_cmd d n2 13]
      | None \<Rightarrow>
          if rlen > 0
          then [bulk_out_cmd d n (Cbw_to_bytes (command_wrapper cmd tag rlen Dir_In)),
                bulk_in_cmd d n1 rlen, bulk_in_cmd d n2 13]
          else [bulk_out_cmd d n (Cbw_to_bytes (command_wrapper cmd tag 0 Dir_Out)),
                bulk_in_cmd d n1 13])"

text \<open>A status reply that ends the command: complete, with the command's own tag, passed.\<close>

definition passes :: "u32 \<Rightarrow> RetSubmit \<Rightarrow> bool" where
  "passes tag ret \<longleftrightarrow>
     CSW_SIZE \<le> length (rs_transfer_buffer ret) \<and>
     (\<exists>residue. take CSW_SIZE (rs_transfer_buffer ret) =
        Csw_to_bytes \<lparr>csw_signature = CSW_SIGNATURE, csw_tag = tag, csw_data_residue = residue,
                      csw_status = Passed\<rparr>)"

fun response_of :: "bytes option \<Rightarrow> u32 \<Rightarrow> RetSubmit list \<Rightarrow> bytes" where
  "response_of None rlen [_, r, _] = rs_transfer_buffer r"
| "response_of _ _ _ = []"

lemma csw_accepted:
  assumes "CSW_SIZE \<le> length buf" "Csw_from_bytes (take CSW_SIZE buf) = Ok csw"
  shows "take CSW_SIZE buf = Csw_to_bytes csw" "csw_signature csw = CSW_SIGNATURE"
proof -
  have "length (take CSW_SIZE buf) = CSW_SIZE" using assms(1) by simp
  from Csw_from_bytes_Ok [OF assms(2) this] show "take CSW_SIZE buf = Csw_to_bytes csw" .
  show "csw_signature csw = CSW_SIGNATURE"
    using assms(2) by (auto simp: Csw_from_bytes_def Let_def split: if_splits)
qed

lemma CSW_SIZE_word: "(word_of_nat CSW_SIZE :: u32) = 13"
  by (simp add: CSW_SIZE_def)

lemma ms_receive_bulk_in_Ok:
  "ms_receive_bulk_in len d = Ok (buf, d') \<longleftrightarrow>
     (\<exists>w ret r. write_all (CmdSubmit_encode (bulk_in_cmd d (c_next_seqnum d) len)) (c_writer d) = (w, True) \<and>
        read_urb_message (c_reader d) = Ok (RetSubmit ret, r) \<and> rs_status ret = 0 \<and>
        buf = rs_transfer_buffer ret \<and>
        d' = d\<lparr>c_reader := r, c_writer := w, c_next_seqnum := succ_seqnum (c_next_seqnum d)\<rparr>)"
  by (auto simp: ms_receive_bulk_in_def transfer_in_def client_eval rbind_eq_Ok send_in_Ok
    read_reply_Ok bulk_in_cmd_def)

lemma ms_send_bulk_out_Ok:
  "ms_send_bulk_out p d = Ok (u, d') \<longleftrightarrow>
     (\<exists>w. write_all (CmdSubmit_encode (bulk_out_cmd d (c_next_seqnum d) p)) (c_writer d) = (w, True) \<and>
        d' = d\<lparr>c_writer := w, c_next_seqnum := succ_seqnum (c_next_seqnum d)\<rparr>)"
  by (auto simp: ms_send_bulk_out_def client_eval send_out_Ok bulk_out_cmd_def)

lemma send_cbw_Ok:
  "send_cbw cmd len dir d = Ok (tag, d') \<longleftrightarrow>
     tag = ms_next_tag d \<and>
     (\<exists>w. write_all (CmdSubmit_encode (bulk_out_cmd d (c_next_seqnum d)
            (Cbw_to_bytes (command_wrapper cmd (ms_next_tag d) len dir)))) (c_writer d) = (w, True) \<and>
        d' = d\<lparr>c_writer := w, c_next_seqnum := succ_seqnum (c_next_seqnum d),
               ms_next_tag := succ_seqnum (ms_next_tag d)\<rparr>)"
  by (auto simp: send_cbw_def next_tag_def client_eval rbind_eq_Ok ms_send_bulk_out_Ok
    bulk_out_cmd_def)

lemma Csw_from_bytes_passed:
  "CSW_SIZE \<le> length buf \<Longrightarrow>
     (\<exists>csw. Csw_from_bytes (take CSW_SIZE buf) = Ok csw \<and> csw_tag csw = tag \<and> csw_status csw = Passed)
     \<longleftrightarrow> (\<exists>residue. take CSW_SIZE buf =
            Csw_to_bytes \<lparr>csw_signature = CSW_SIGNATURE, csw_tag = tag, csw_data_residue = residue,
                          csw_status = Passed\<rparr>)" (is "_ \<Longrightarrow> ?l \<longleftrightarrow> ?r")
proof
  assume len: "CSW_SIZE \<le> length buf" and ?l
  then obtain csw where csw: "Csw_from_bytes (take CSW_SIZE buf) = Ok csw" "csw_tag csw = tag"
    "csw_status csw = Passed" by blast
  have "csw = \<lparr>csw_signature = CSW_SIGNATURE, csw_tag = tag, csw_data_residue = csw_data_residue csw,
              csw_status = Passed\<rparr>"
    using csw(2,3) csw_accepted(2) [OF len csw(1)] by simp
  then show ?r using csw_accepted(1) [OF len csw(1)] by metis
next
  assume ?r
  then show ?l by (auto simp: Csw_from_bytes_def Csw_fields CswStatus_from_byte_def Let_def)
qed

lemma receive_csw_Ok:
  "receive_csw tag d = Ok (Passed, d') \<longleftrightarrow>
     (\<exists>w ret r. write_all (CmdSubmit_encode (bulk_in_cmd d (c_next_seqnum d) 13)) (c_writer d) = (w, True) \<and>
        read_urb_message (c_reader d) = Ok (RetSubmit ret, r) \<and> rs_status ret = 0 \<and> passes tag ret \<and>
        d' = d\<lparr>c_reader := r, c_writer := w, c_next_seqnum := succ_seqnum (c_next_seqnum d)\<rparr>)"
proof -
  have step: "(if length buf < CSW_SIZE then cerr (MassStorage (CswTooShort CSW_SIZE (length buf)))
      else case Csw_from_bytes (take CSW_SIZE buf) of
             Ok csw \<Rightarrow> if csw_tag csw \<noteq> tag then cerr (MassStorage (CswTagMismatch tag (csw_tag csw)))
                       else creturn (csw_status csw)
           | Err e \<Rightarrow> cerr e | Panic \<Rightarrow> (\<lambda>_. Panic)) d1 = Ok (Passed, d') \<longleftrightarrow>
      d1 = d' \<and> CSW_SIZE \<le> length buf \<and>
      (\<exists>csw. Csw_from_bytes (take CSW_SIZE buf) = Ok csw \<and> csw_tag csw = tag \<and> csw_status csw = Passed)"
    for buf d1
    by (cases "Csw_from_bytes (take CSW_SIZE buf)") (auto simp: client_eval)
  have "receive_csw tag d = Ok (Passed, d') \<longleftrightarrow>
      (\<exists>buf. ms_receive_bulk_in 13 d = Ok (buf, d') \<and> CSW_SIZE \<le> length buf \<and>
         (\<exists>csw. Csw_from_bytes (take CSW_SIZE buf) = Ok csw \<and> csw_tag csw = tag \<and> csw_status csw = Passed))"
    by (auto simp: receive_csw_def CSW_SIZE_word cbind_def rbind_eq_Ok step)
  also have "\<dots> \<longleftrightarrow> (\<exists>buf. ms_receive_bulk_in 13 d = Ok (buf, d') \<and> CSW_SIZE \<le> length buf \<and>
      (\<exists>residue. take CSW_SIZE buf = Csw_to_bytes \<lparr>csw_signature = CSW_SIGNATURE, csw_tag = tag,
         csw_data_residue = residue, csw_status = Passed\<rparr>))"
    using Csw_from_bytes_passed by blast
  finally show ?thesis by (auto simp: ms_receive_bulk_in_Ok passes_def)
qed

lemmas bot_Ok = client_eval rbind_eq_Ok send_cbw_Ok ms_send_bulk_out_Ok ms_receive_bulk_in_Ok
  receive_csw_Ok read_reply_Ok ms_read_ret_submit_def

lemma scsi_status_Ok:
  "(case status of Passed \<Rightarrow> creturn x | Failed \<Rightarrow> cerr e1 | PhaseError \<Rightarrow> cerr e2
      | Unknown b \<Rightarrow> cerr (e3 b)) d = Ok (y, d') \<longleftrightarrow> status = Passed \<and> y = x \<and> d' = d"
  by (cases status) (auto simp: client_eval)

text \<open>What a command does with its replies: the reader after reading a list of replies.\<close>

fun reads :: "stream \<Rightarrow> RetSubmit list \<Rightarrow> stream \<Rightarrow> bool" where
  "reads s [] s' = (s' = s)"
| "reads s (r # rs) s' =
     (rs_status r = 0 \<and> (\<exists>t. read_urb_message s = Ok (RetSubmit r, t) \<and> reads t rs s'))"

fun writes :: "sink \<Rightarrow> CmdSubmit list \<Rightarrow> sink \<Rightarrow> bool" where
  "writes w [] w' = (w' = w)"
| "writes w (c # cs) w' = (\<exists>u. write_all (CmdSubmit_encode c) w = (u, True) \<and> writes u cs w')"

lemma bulk_cmd_update [simp]:
  "bulk_in_cmd (d\<lparr>c_reader := r\<rparr>) = bulk_in_cmd d" "bulk_out_cmd (d\<lparr>c_reader := r\<rparr>) = bulk_out_cmd d"
  "bulk_in_cmd (d\<lparr>c_writer := w\<rparr>) = bulk_in_cmd d" "bulk_out_cmd (d\<lparr>c_writer := w\<rparr>) = bulk_out_cmd d"
  "bulk_in_cmd (d\<lparr>c_next_seqnum := n\<rparr>) = bulk_in_cmd d"
  "bulk_out_cmd (d\<lparr>c_next_seqnum := n\<rparr>) = bulk_out_cmd d"
  "bulk_in_cmd (d\<lparr>ms_next_tag := n\<rparr>) = bulk_in_cmd d"
  "bulk_out_cmd (d\<lparr>ms_next_tag := n\<rparr>) = bulk_out_cmd d"
  by (simp_all add: fun_eq_iff bulk_in_cmd_def bulk_out_cmd_def)

definition scsi_after :: "MassStorageDevice \<Rightarrow> nat \<Rightarrow> stream \<Rightarrow> sink \<Rightarrow> MassStorageDevice" where
  "scsi_after d k r w =
     d\<lparr>c_reader := r, c_writer := w, c_next_seqnum := (succ_seqnum ^^ k) (c_next_seqnum d),
       ms_next_tag := succ_seqnum (ms_next_tag d)\<rparr>"

lemma ex_two: "(\<exists>xs. length xs = 2 \<and> P xs) \<longleftrightarrow> (\<exists>a b. P [a, b])"
proof
  assume "\<exists>xs. length xs = 2 \<and> P xs"
  then obtain xs where "length xs = 2" "P xs" by blast
  then show "\<exists>a b. P [a, b]" by (cases xs; cases "tl xs") auto
next
  assume "\<exists>a b. P [a, b]"
  then obtain a b where "length [a, b] = 2 \<and> P [a, b]" by auto
  then show "\<exists>xs. length xs = 2 \<and> P xs" by blast
qed

lemma ex_three: "(\<exists>xs. length xs = 3 \<and> P xs) \<longleftrightarrow> (\<exists>a b c. P [a, b, c])"
proof
  assume "\<exists>xs. length xs = 3 \<and> P xs"
  then obtain xs where "length xs = 3" "P xs" by blast
  then show "\<exists>a b c. P [a, b, c]" by (cases xs; cases "tl xs"; cases "tl (tl xs)") auto
next
  assume "\<exists>a b c. P [a, b, c]"
  then obtain a b c where "length [a, b, c] = 3 \<and> P [a, b, c]" by auto
  then show "\<exists>xs. length xs = 3 \<and> P xs" by blast
qed

lemma scsi_command_Ok:
  "scsi_command cmd data rlen d = Ok (resp, d') \<longleftrightarrow>
     (\<exists>rets. length rets = length (scsi_requests d cmd data rlen) \<and> (\<exists>r w.
        writes (c_writer d) (scsi_requests d cmd data rlen) w \<and> reads (c_reader d) rets r \<and>
        passes (ms_next_tag d) (last rets) \<and> resp = response_of data rlen rets \<and>
        d' = scsi_after d (length rets) r w))"
proof -
  consider p where "data = Some p" | "data = None" "rlen > 0" | "data = None" "rlen = 0"
    by (cases data; cases "rlen = 0") (auto simp: word_gt_0)
  then show ?thesis
  proof cases
    case 1
    have "?thesis \<longleftrightarrow> (scsi_command cmd (Some p) rlen d = Ok (resp, d') \<longleftrightarrow>
      (\<exists>a b c r w. writes (c_writer d) (scsi_requests d cmd (Some p) rlen) w \<and>
         reads (c_reader d) [a, b, c] r \<and> passes (ms_next_tag d) c \<and> resp = [] \<and>
         d' = scsi_after d 3 r w))"
      by (simp add: 1 scsi_requests_def Let_def ex_three numeral_3_eq_3 [symmetric])
    also have "\<dots>"
      by (auto simp: scsi_command_def bot_Ok scsi_status_Ok scsi_requests_def Let_def scsi_after_def
        numeral_3_eq_3)
    finally show ?thesis by simp
  next
    case 2
    have "?thesis \<longleftrightarrow> (scsi_command cmd None rlen d = Ok (resp, d') \<longleftrightarrow>
      (\<exists>a b c r w. writes (c_writer d) (scsi_requests d cmd None rlen) w \<and>
         reads (c_reader d) [a, b, c] r \<and> passes (ms_next_tag d) c \<and> resp = rs_transfer_buffer b \<and>
         d' = scsi_after d 3 r w))"
      by (simp add: 2 scsi_requests_def Let_def ex_three numeral_3_eq_3 [symmetric])
    also have "\<dots>"
      using 2(2) by (auto simp: scsi_command_def bot_Ok scsi_status_Ok scsi_requests_def Let_def scsi_after_def
        numeral_3_eq_3)
    finally show ?thesis by simp
  next
    case 3
    have "?thesis \<longleftrightarrow> (scsi_command cmd None 0 d = Ok (resp, d') \<longleftrightarrow>
      (\<exists>a b r w. writes (c_writer d) (scsi_requests d cmd None 0) w \<and>
         reads (c_reader d) [a, b] r \<and> passes (ms_next_tag d) b \<and> resp = [] \<and>
         d' = scsi_after d 2 r w))"
      by (simp add: 3 scsi_requests_def Let_def ex_two numeral_2_eq_2 [symmetric])
    also have "\<dots>"
      by (auto simp: scsi_command_def bot_Ok scsi_status_Ok scsi_requests_def Let_def scsi_after_def
        numeral_2_eq_2)
    finally show ?thesis by simp
  qed
qed

lemma reads_feed:
  "list_all (\<lambda>r. RetSubmit_ok r \<and> rs_status r = 0) rets \<Longrightarrow>
     reads (feed (concat (map RetSubmit_encode rets)) s) rets s"
proof (induction rets)
  case (Cons r rets)
  then have "read_urb_message (feed (RetSubmit_encode r) (feed (concat (map RetSubmit_encode rets)) s))
      = Ok (RetSubmit r, feed (concat (map RetSubmit_encode rets)) s)"
    using urb_stream.read_encode [of "RetSubmit r" "feed (concat (map RetSubmit_encode rets)) s"] by simp
  then show ?case using Cons by simp
qed simp

lemma writes_room:
  "room w = None \<Longrightarrow> writes w cs (w\<lparr>sent := sent w @ concat (map CmdSubmit_encode cs)\<rparr>)"
proof (induction cs arbitrary: w)
  case (Cons c cs)
  then show ?case using Cons.IH [of "w\<lparr>sent := sent w @ CmdSubmit_encode c\<rparr>"] by simp
qed simp

section \<open>A disk behind the transport\<close>

text \<open>
  The transport as the standard describes it, for READ(10) and WRITE(10): a command wrapper,
  then the data phase of the command, then the status. The position of the blocks is what the
  wrapper's command block says.
\<close>

datatype bot_phase = Idle | SendData bytes u32 | TakeData nat nat u32 | SendStatus u32

definition reply_to :: "CmdSubmit \<Rightarrow> bytes \<Rightarrow> RetSubmit" where
  "reply_to c data =
     \<lparr>rs_header = (cs_header c)\<lparr>hdr_command := Command_as_u32 RetSubmit_Code\<rparr>, rs_status = 0,
      rs_actual_length = (if hdr_direction (cs_header c) = 1 then word_of_nat (length data)
                          else cs_transfer_buffer_length c),
      rs_start_frame = 0, rs_number_of_packets = 0xFFFFFFFF, rs_error_count = 0,
      rs_transfer_buffer = data, rs_iso_packet_descriptors = []\<rparr>"

definition store :: "nat \<Rightarrow> nat \<Rightarrow> nat \<Rightarrow> bytes \<Rightarrow> (nat \<Rightarrow> bytes) \<Rightarrow> nat \<Rightarrow> bytes" where
  "store bs lba n data disk =
     (\<lambda>i. if lba \<le> i \<and> i < lba + n then take bs (drop ((i - lba) * bs) data) else disk i)"

definition blocks :: "(nat \<Rightarrow> bytes) \<Rightarrow> nat \<Rightarrow> nat \<Rightarrow> bytes" where
  "blocks disk lba n = concat (map disk [lba..<lba + n])"

fun target :: "nat \<Rightarrow> (nat \<Rightarrow> bytes) \<times> bot_phase \<Rightarrow> CmdSubmit \<Rightarrow> RetSubmit \<times> (nat \<Rightarrow> bytes) \<times> bot_phase" where
  "target bs (disk, Idle) c =
     (case Cbw_from_bytes (cs_transfer_buffer c) of
        Ok cbw \<Rightarrow>
          let cb = cbw_cb cbw; lba = unat (u32_at cb 2); n = unat (u16_at cb 7) in
          (reply_to c [],
           disk, if byte_at cb 0 = 0x28 then SendData (blocks disk lba n) (cbw_tag cbw)
                 else if byte_at cb 0 = 0x2A then TakeData lba n (cbw_tag cbw)
                 else SendStatus (cbw_tag cbw))
      | _ \<Rightarrow> ((reply_to c [])\<lparr>rs_status := - 32\<rparr>, disk, Idle))"
| "target bs (disk, SendData data tag) c =
     (reply_to c (take (unat (cs_transfer_buffer_length c)) data), disk, SendStatus tag)"
| "target bs (disk, TakeData lba n tag) c =
     (reply_to c [], store bs lba n (cs_transfer_buffer c) disk, SendStatus tag)"
| "target bs (disk, SendStatus tag) c =
     (reply_to c (Csw_to_bytes \<lparr>csw_signature = CSW_SIGNATURE, csw_tag = tag,
                                csw_data_residue = 0, csw_status = Passed\<rparr>), disk, Idle)"

fun serve :: "nat \<Rightarrow> (nat \<Rightarrow> bytes) \<times> bot_phase \<Rightarrow> CmdSubmit list \<Rightarrow> RetSubmit list \<times> (nat \<Rightarrow> bytes) \<times> bot_phase" where
  "serve bs st [] = ([], st)"
| "serve bs st (c # cs) =
     (case target bs st c of (r, st') \<Rightarrow> (case serve bs st' cs of (rs, st'') \<Rightarrow> (r # rs, st'')))"

lemma length_blocks: "(\<And>i. length (disk i) = bs) \<Longrightarrow> length (blocks disk lba n) = n * bs"
  by (simp add: blocks_def length_concat comp_def sum_list_triv)

lemma reply_to_ok:
  assumes "hdr_direction (cs_header c) \<noteq> 1" "cs_transfer_buffer_length c \<le> MAX_TRANSFER_BUFFER_LENGTH"
  shows "RetSubmit_ok (reply_to c [])"
  using assms by (simp add: RetSubmit_ok_def reply_to_def iso_packets_ok_def is_iso_transfer_def
    NON_ISO_PACKETS_SENTINEL_def)

lemma reply_in_ok:
  assumes "hdr_direction (cs_header c) = 1" "length data \<le> max_transfer"
  shows "RetSubmit_ok (reply_to c data)"
  using assms by (simp add: RetSubmit_ok_def reply_to_def iso_packets_ok_def is_iso_transfer_def
    NON_ISO_PACKETS_SENTINEL_def unat_payload word_le_nat_alt)

lemma reply_to_simps [simp]:
  "rs_status (reply_to c data) = 0" "rs_transfer_buffer (reply_to c data) = data"
  by (simp_all add: reply_to_def)

lemma bulk_cmd_simps [simp]:
  "hdr_direction (cs_header (bulk_out_cmd d n p)) = 0" "cs_transfer_buffer (bulk_out_cmd d n p) = p"
  "cs_transfer_buffer_length (bulk_out_cmd d n p) = word_of_nat (length p)"
  "hdr_direction (cs_header (bulk_in_cmd d n len)) = 1"
  "cs_transfer_buffer_length (bulk_in_cmd d n len) = len"
  by (simp_all add: bulk_out_cmd_def bulk_in_cmd_def urb_cmd_def)

lemma command_wrapper_decodes:
  "Cbw_from_bytes (Cbw_to_bytes (command_wrapper cmd tag len dir)) = Ok (command_wrapper cmd tag len dir)"
  by (rule Cbw_roundtrip) (simp_all add: command_wrapper_def)

lemma cdb_address:
  "byte_at (encode_cdb (Read10 lba n)) 0 = 0x28" "byte_at (encode_cdb (Write10 lba n)) 0 = 0x2A"
  "u32_at (encode_cdb (Read10 lba n)) 2 = lba" "u32_at (encode_cdb (Write10 lba n)) 2 = lba"
  "u16_at (encode_cdb (Read10 lba n)) 7 = n" "u16_at (encode_cdb (Write10 lba n)) 7 = n"
  by (simp_all add: byte_at_def u32_at_def u16_at_def u32_to_be_bytes_def u16_to_be_bytes_def
    u32_from_to_be u16_from_to_be)

declare encode_cdb.simps [simp del]

lemma command_wrapper_simps [simp]:
  "cbw_cb (command_wrapper cmd tag len dir) = encode_cdb cmd"
  "cbw_tag (command_wrapper cmd tag len dir) = tag"
  by (simp_all add: command_wrapper_def)

lemma length_wrapper [simp]: "length (Cbw_to_bytes (command_wrapper cmd tag len dir)) = 31"
  using length_Cbw_to_bytes [of "command_wrapper cmd tag len dir"] by (simp add: CBW_SIZE_def)

lemma transfer_reply_ok:
  "length p \<le> max_transfer \<Longrightarrow> RetSubmit_ok (reply_to (bulk_out_cmd d n p) [])"
  "length data \<le> max_transfer \<Longrightarrow> RetSubmit_ok (reply_to (bulk_in_cmd d n len) data)"
  by (simp_all add: reply_to_ok reply_in_ok word_le_nat_alt unat_payload)

lemma wrappers_fit: "31 \<le> max_transfer" "CSW_SIZE \<le> max_transfer"
  by (simp_all add: MAX_TRANSFER_BUFFER_LENGTH_def CSW_SIZE_def)

lemma passes_reply:
  "passes tag (reply_to c (Csw_to_bytes \<lparr>csw_signature = CSW_SIGNATURE, csw_tag = tag,
                 csw_data_residue = 0, csw_status = Passed\<rparr>))"
  by (auto simp: passes_def)

text \<open>The target serving one command, in the two directions.\<close>

lemma serve_read:
  assumes "rlen > 0" "length (blocks disk (unat lba) (unat n)) = unat rlen"
    and "unat rlen \<le> max_transfer"
    and reqs: "reqs = scsi_requests d (Read10 lba n) None rlen"
  shows "snd (serve bs (disk, Idle) reqs) = (disk, Idle)"
    and "response_of None rlen (fst (serve bs (disk, Idle) reqs)) = blocks disk (unat lba) (unat n)"
    and "list_all (\<lambda>r. RetSubmit_ok r \<and> rs_status r = 0) (fst (serve bs (disk, Idle) reqs))"
    and "passes (ms_next_tag d) (last (fst (serve bs (disk, Idle) reqs)))"
    and "length (fst (serve bs (disk, Idle) reqs)) = length reqs"
  unfolding reqs scsi_requests_def using assms(1-3)
  by (simp_all add: Let_def command_wrapper_decodes cdb_address transfer_reply_ok wrappers_fit
    passes_reply)

lemma serve_write:
  assumes "length data \<le> max_transfer"
    and reqs: "reqs = scsi_requests d (Write10 lba n) (Some data) 0"
  shows "snd (serve bs (disk, Idle) reqs) = (store bs (unat lba) (unat n) data disk, Idle)"
    and "list_all (\<lambda>r. RetSubmit_ok r \<and> rs_status r = 0) (fst (serve bs (disk, Idle) reqs))"
    and "passes (ms_next_tag d) (last (fst (serve bs (disk, Idle) reqs)))"
    and "length (fst (serve bs (disk, Idle) reqs)) = length reqs"
  unfolding reqs scsi_requests_def using assms(1)
  by (simp_all add: Let_def command_wrapper_decodes cdb_address transfer_reply_ok wrappers_fit
    passes_reply)

text \<open>A command to the target, answered by it.\<close>

lemma scsi_command_served:
  assumes "room (c_writer d) = None"
    and "c_reader d = feed (concat (map RetSubmit_encode rets)) s"
    and "list_all (\<lambda>r. RetSubmit_ok r \<and> rs_status r = 0) rets"
    and "passes (ms_next_tag d) (last rets)"
    and "length rets = length (scsi_requests d cmd data rlen)"
  shows "scsi_command cmd data rlen d =
    Ok (response_of data rlen rets,
        scsi_after d (length rets) s ((c_writer d)\<lparr>sent := sent (c_writer d) @
          concat (map CmdSubmit_encode (scsi_requests d cmd data rlen))\<rparr>))"
  unfolding scsi_command_Ok
  using assms reads_feed [OF assms(3), of s] writes_room [OF assms(1)]
  by (intro exI [of _ rets]) auto

section \<open>The discipline of the connection\<close>

lemma moves_scsi_command:
  assumes "\<And>p. data = Some p \<Longrightarrow> length p \<le> max_transfer" "rlen \<le> MAX_TRANSFER_BUFFER_LENGTH"
  shows "lockstep (scsi_command cmd data rlen)"
proof -
  have tag: "moves p p next_tag" for p
    by (rule movesI) (auto simp: next_tag_def conn_of_def intro: exI [of _ "[]"])
  have csw: "(word_of_nat CSW_SIZE :: u32) \<le> MAX_TRANSFER_BUFFER_LENGTH"
    by (simp add: CSW_SIZE_def MAX_TRANSFER_BUFFER_LENGTH_def)
  show ?thesis
    using assms
    by (cases data)
       (auto simp: scsi_command_def send_cbw_def receive_csw_def ms_send_bulk_out_def
          ms_read_ret_submit_def ms_receive_bulk_in_def wrappers_fit csw
          split: CswStatus.splits result.splits intro!: moves_intros tag)
qed

interpretation scsi: driver_operation "scsi_command cmd data rlen"
  "(\<forall>p. data = Some p \<longrightarrow> length p \<le> max_transfer) \<and> rlen \<le> MAX_TRANSFER_BUFFER_LENGTH"
  for cmd data rlen
  by unfold_locales (auto intro: moves_scsi_command)

lemma moves_scsi:
  "rlen \<le> MAX_TRANSFER_BUFFER_LENGTH \<Longrightarrow> lockstep (scsi_command cmd None rlen)"
  "length p \<le> max_transfer \<Longrightarrow> lockstep (scsi_command cmd (Some p) 0)"
  by (auto intro!: moves_scsi_command)

interpretation storage_init: driver_operation ms_initialize True
proof unfold_locales
  have sizes: "(36 :: u32) \<le> MAX_TRANSFER_BUFFER_LENGTH" "(8 :: u32) \<le> MAX_TRANSFER_BUFFER_LENGTH"
    by (simp_all add: MAX_TRANSFER_BUFFER_LENGTH_def)
  show "lockstep ms_initialize" unfolding ms_initialize_def
    by (intro moves_cbind [where q = False] moves_if moves_scsi sizes moves_cmodify moves_creturn)
       (simp_all add: conn_of_def)
qed

interpretation storage_read: driver_operation "read_blocks lba count buf" "length buf \<le> max_transfer" for lba count buf
proof unfold_locales
  assume fits: "length buf \<le> max_transfer"
  have "(word_of_nat n :: u32) \<le> MAX_TRANSFER_BUFFER_LENGTH" if "n \<le> length buf" for n
    using fits that unat_payload [of "replicate n 0"] by (simp add: word_le_nat_alt)
  then show "lockstep (read_blocks lba count buf)"
    unfolding read_blocks_def Let_def
    by (intro moves_cget moves_if moves_cerr moves_cbind [where q = False] moves_scsi moves_creturn)
       (simp only: not_less)
qed

interpretation storage_write: driver_operation "write_blocks lba count data" "length data \<le> max_transfer" for lba count data
  by unfold_locales
     (auto simp: write_blocks_def Let_def intro!: moves_cget moves_if moves_cerr moves_cbind [where q = False]
        moves_scsi moves_creturn)

section \<open>Properties\<close>

lemma writes_sent: "writes w cs w' \<Longrightarrow> sent w' = sent w @ concat (map CmdSubmit_encode cs)"
  by (induction w cs w' rule: writes.induct) (auto dest: write_all_sent)

lemma reads_repeat:
  "reads s rets s' \<Longrightarrow>
     repeat_read (length rets) read_urb_message s = Ok (map RetSubmit rets, s') \<and>
     (\<forall>r \<in> set rets. rs_status r = 0)"
  by (induction s rets s' rule: reads.induct) (auto simp: reader_eval)

lemma bulk_cmd_ok:
  "length p \<le> max_transfer \<Longrightarrow> CmdSubmit_ok (bulk_out_cmd d n p)"
  "len \<le> MAX_TRANSFER_BUFFER_LENGTH \<Longrightarrow> CmdSubmit_ok (bulk_in_cmd d n len)"
  by (simp_all add: bulk_out_cmd_def bulk_in_cmd_def urb_cmd_ok)

lemma scsi_requests_ok:
  assumes "\<And>p. data = Some p \<Longrightarrow> length p \<le> max_transfer" "rlen \<le> MAX_TRANSFER_BUFFER_LENGTH"
  shows "c \<in> set (scsi_requests d cmd data rlen) \<Longrightarrow> CmdSubmit_ok c"
proof -
  have "(13 :: u32) \<le> MAX_TRANSFER_BUFFER_LENGTH" by (simp add: MAX_TRANSFER_BUFFER_LENGTH_def)
  moreover assume "c \<in> set (scsi_requests d cmd data rlen)"
  ultimately show ?thesis
    using assms wrappers_fit unfolding scsi_requests_def Let_def
    by (auto simp: bulk_cmd_ok split: option.splits if_splits)
qed

lemma scsi_first_request:
  "\<exists>len dir. cs_transfer_buffer (hd (scsi_requests d cmd data rlen)) =
     Cbw_to_bytes (command_wrapper cmd (ms_next_tag d) len dir)"
  by (auto simp: scsi_requests_def Let_def split: option.splits)

lemma response_of_simps:
  "response_of (Some p) rlen rets = []" "response_of None rlen [x, y] = []"
  "length rets = 3 \<Longrightarrow> response_of None rlen rets = rs_transfer_buffer (rets ! 1)"
proof -
  show "length rets = 3 \<Longrightarrow> response_of None rlen rets = rs_transfer_buffer (rets ! 1)"
    using ex_three [of "\<lambda>xs. xs = rets"] by auto
qed simp_all

lemma scsi_response:
  assumes "length rets = length (scsi_requests d cmd data rlen)"
  shows "response_of data rlen rets = (if data = None \<and> rlen > 0 then rs_transfer_buffer (rets ! 1) else [])"
proof -
  consider p where "data = Some p" | "data = None" "rlen > 0" | "data = None" "rlen = 0"
    by (cases data; cases "rlen = 0") (auto simp: word_gt_0)
  then show ?thesis
  proof cases
    case 3
    then have "length rets = 2" using assms by (simp add: scsi_requests_def Let_def)
    then obtain x y where "rets = [x, y]" using ex_two [of "\<lambda>xs. xs = rets"] by auto
    then show ?thesis using 3 by (simp add: response_of_simps)
  qed (use assms in \<open>simp_all add: scsi_requests_def Let_def response_of_simps\<close>)
qed

text \<open>
  C25: A SCSI command reports success only for a command the device has reported as passed. The
  server reads back from the connection the command wrapper with this very command block and
  the device's current tag; every reply had status 0; and the last reply is a complete status wrapper
  with the right signature, the same current tag and the status \<open>Passed\<close>. What is returned is the
  payload of the reply to the data phase. The next command has another tag, so that the status of
  an earlier command is not taken for its own. (The data fit one transfer of 1 MB.)
\<close>

theorem scsi_success_means_passed:
  assumes "scsi_command cmd data rlen d = Ok (resp, d')"
    and "\<forall>p. data = Some p \<longrightarrow> length p \<le> max_transfer" and "rlen \<le> MAX_TRANSFER_BUFFER_LENGTH"
  shows "\<exists>reqs rets cbw csw.
    sent (c_writer d') = sent (c_writer d) @ concat (map (UrbMessage_encode \<circ> CmdSubmit) reqs) \<and>
    (\<forall>s. repeat_read (length reqs) read_urb_message
           (feed (concat (map (UrbMessage_encode \<circ> CmdSubmit) reqs)) s) = Ok (map CmdSubmit reqs, s)) \<and>
    repeat_read (length rets) read_urb_message (c_reader d) = Ok (map RetSubmit rets, c_reader d') \<and>
    length rets = length reqs \<and> (\<forall>r \<in> set rets. rs_status r = 0) \<and>
    Cbw_from_bytes (cs_transfer_buffer (hd reqs)) = Ok cbw \<and> cbw_cb cbw = encode_cdb cmd \<and>
    CSW_SIZE \<le> length (rs_transfer_buffer (last rets)) \<and>
    Csw_from_bytes (take CSW_SIZE (rs_transfer_buffer (last rets))) = Ok csw \<and>
    csw_signature csw = CSW_SIGNATURE \<and> csw_status csw = Passed \<and>
    csw_tag csw = ms_next_tag d \<and> cbw_tag cbw = ms_next_tag d \<and> ms_next_tag d' \<noteq> ms_next_tag d \<and>
    resp = (if data = None \<and> rlen > 0 then rs_transfer_buffer (rets ! 1) else [])"
proof -
  obtain rets r w where run: "length rets = length (scsi_requests d cmd data rlen)"
    "writes (c_writer d) (scsi_requests d cmd data rlen) w" "reads (c_reader d) rets r"
    "passes (ms_next_tag d) (last rets)" "resp = response_of data rlen rets"
    "d' = scsi_after d (length rets) r w"
    using assms(1) unfolding scsi_command_Ok by blast
  let ?reqs = "scsi_requests d cmd data rlen"
  have ok: "UrbMessage_ok m" if m: "m \<in> set (map CmdSubmit ?reqs)" for m
  proof -
    obtain c where c: "m = CmdSubmit c" "c \<in> set ?reqs" using m by auto
    show ?thesis using scsi_requests_ok [OF _ assms(3) c(2)] assms(2) c(1) by simp
  qed
  have seen: "repeat_read (length ?reqs) read_urb_message
      (feed (concat (map (UrbMessage_encode \<circ> CmdSubmit) ?reqs)) s) = Ok (map CmdSubmit ?reqs, s)" for s
    using urb_stream.read_many [of "map CmdSubmit ?reqs" s, OF ok] by simp
  have sent: "sent (c_writer d') = sent (c_writer d) @ concat (map (UrbMessage_encode \<circ> CmdSubmit) ?reqs)"
    using writes_sent [OF run(2)] run(6) by (simp add: scsi_after_def comp_def)
  obtain len dir where cbw: "cs_transfer_buffer (hd ?reqs) = Cbw_to_bytes (command_wrapper cmd (ms_next_tag d) len dir)"
    using scsi_first_request by blast
  obtain csw where csw: "Csw_from_bytes (take CSW_SIZE (rs_transfer_buffer (last rets))) = Ok csw"
    "csw_tag csw = ms_next_tag d" "csw_status csw = Passed"
    using run(4) Csw_from_bytes_passed unfolding passes_def by blast
  have "csw_signature csw = CSW_SIGNATURE" using csw_accepted(2) [OF _ csw(1)] run(4) unfolding passes_def by blast
  moreover have "succ_seqnum n \<noteq> n" for n by (auto simp: succ_seqnum_def)
  moreover have "cbw_tag (command_wrapper cmd (ms_next_tag d) len dir) = ms_next_tag d" by (simp add: command_wrapper_def)
  ultimately show ?thesis
    using seen sent reads_repeat [OF run(3)] run(1,4,5,6) cbw csw scsi_response [OF run(1)]
    by (intro exI [of _ ?reqs] exI [of _ rets] exI [of _ "command_wrapper cmd (ms_next_tag d) len dir"]
          exI [of _ csw])
       (simp add: command_wrapper_decodes scsi_after_def passes_def)
qed

definition sample_storage :: MassStorageDevice where
  "sample_storage =
     \<lparr>c_reader = \<lparr>avail = [], end_error = UnexpectedEof\<rparr>, c_writer = \<lparr>sent = [], room = None\<rparr>,
      c_devid = 0x10002, c_next_seqnum = 0xFFFFFFFF, ms_ep_out = DEFAULT_EP_OUT,
      ms_ep_in = DEFAULT_EP_IN, ms_next_tag = 9, ms_block_size = 4, ms_total_blocks = 100,
      ms_vendor = [], ms_product = []\<rparr>"

definition sample_disk :: "nat \<Rightarrow> bytes" where
  "sample_disk i = [word_of_nat i, word_of_nat i, word_of_nat i, word_of_nat i]"

definition answered :: "CmdSubmit list \<Rightarrow> MassStorageDevice" where
  "answered reqs = sample_storage\<lparr>c_reader :=
     feed (concat (map RetSubmit_encode (fst (serve 4 (sample_disk, Idle) reqs)))) (c_reader sample_storage)\<rparr>"

lemma scsi_requests_reader [simp]:
  "scsi_requests (d\<lparr>c_reader := r\<rparr>) cmd data rlen = scsi_requests d cmd data rlen"
  by (simp add: scsi_requests_def Let_def split: option.splits)

lemma answered_simps [simp]:
  "room (c_writer sample_storage) = None" "ms_next_tag (answered r) = ms_next_tag sample_storage"
  "ms_block_size (answered r) = 4" "c_writer (answered r) = c_writer sample_storage"
  "c_reader (answered r) =
     feed (concat (map RetSubmit_encode (fst (serve 4 (sample_disk, Idle) r)))) (c_reader sample_storage)"
  "scsi_requests (answered r) = scsi_requests sample_storage"
  by (simp_all add: answered_def fun_eq_iff, simp_all add: sample_storage_def)

theorem scsi_success_means_passed_witness:
  "\<exists>d' rets csw. scsi_command (Read10 7 2) None 8
      (answered (scsi_requests sample_storage (Read10 7 2) None 8)) = Ok ([7, 7, 7, 7, 8, 8, 8, 8], d') \<and>
     rs_transfer_buffer ((rets :: RetSubmit list) ! 1) = [7, 7, 7, 7, 8, 8, 8, 8] \<and>
     Csw_from_bytes (take CSW_SIZE (rs_transfer_buffer (last rets))) = Ok csw \<and> csw_status csw = Passed"
proof -
  let ?reqs = "scsi_requests sample_storage (Read10 7 2) None 8"
  let ?rets = "fst (serve 4 (sample_disk, Idle) ?reqs)"
  have data: "blocks sample_disk (unat (7 :: u32)) (unat (2 :: u16)) = [7, 7, 7, 7, 8, 8, 8, 8]"
    by (simp add: blocks_def sample_disk_def upt_rec)
  have fits: "8 \<le> max_transfer" "(8 :: u32) \<le> MAX_TRANSFER_BUFFER_LENGTH"
    by (simp_all add: MAX_TRANSFER_BUFFER_LENGTH_def)
  note served = serve_read [of 8 sample_disk 7 2 ?reqs sample_storage 4]
  obtain d' where run: "scsi_command (Read10 7 2) None 8 (answered ?reqs) = Ok ([7, 7, 7, 7, 8, 8, 8, 8], d')"
    using scsi_command_served [of "answered ?reqs" ?rets "c_reader sample_storage" "Read10 7 2" None 8]
      served data fits
    by simp
  show ?thesis
  proof -
    have none: "\<forall>p. (None :: bytes option) = Some p \<longrightarrow> length p \<le> max_transfer" by simp
    obtain rets :: "RetSubmit list" and csw where "Csw_from_bytes (take CSW_SIZE (rs_transfer_buffer (last rets))) = Ok csw"
      "csw_status csw = Passed"
      "[7, 7, 7, 7, 8, 8, 8, 8] = (if (None :: bytes option) = None \<and> (8 :: u32) > 0
         then rs_transfer_buffer (rets ! 1) else [])"
      using scsi_success_means_passed [OF run none fits(2)] by blast
    then show ?thesis using run by (intro exI [of _ d'] exI [of _ rets] exI [of _ csw]) (simp add: word_gt_0)
  qed
qed

text \<open>
  C26: Reading blocks from a disk that speaks the transport reads the disk: for a range of
  fewer than 65536 blocks below block \<open>2 ^ 32\<close> that fits one transfer, and a buffer large
  enough, the call returns the size of the range, the buffer starts with exactly the bytes of
  those blocks and is otherwise unchanged, all replies are consumed and the disk is unchanged.
\<close>

theorem read_blocks_reads_disk:
  assumes disk: "\<forall>i. length (disk i) = unat (ms_block_size d)"
    and range: "unat lba < 2 ^ 32" "unat count < 2 ^ 16"
    and size: "0 < unat count * unat (ms_block_size d)"
      "unat count * unat (ms_block_size d) \<le> max_transfer"
      "unat count * unat (ms_block_size d) \<le> length buf"
    and reqs: "reqs = scsi_requests d (Read10 (ucast lba) (ucast count)) None
                        (word_of_nat (unat count * unat (ms_block_size d)))"
    and peer: "room (c_writer d) = None"
      "c_reader d = feed (concat (map RetSubmit_encode (fst (serve bs (disk, Idle) reqs)))) s"
  shows "\<exists>d'. read_blocks lba count buf d =
      Ok ((unat count * unat (ms_block_size d),
           blocks disk (unat lba) (unat count) @ drop (unat count * unat (ms_block_size d)) buf), d') \<and>
    c_reader d' = s \<and>
    sent (c_writer d') = sent (c_writer d) @ concat (map CmdSubmit_encode reqs) \<and>
    snd (serve bs (disk, Idle) reqs) = (disk, Idle)"
proof -
  let ?n = "unat count * unat (ms_block_size d)"
  let ?rlen = "word_of_nat ?n :: u32"
  let ?rets = "fst (serve bs (disk, Idle) reqs)"
  have n: "unat ?rlen = ?n" using unat_payload [of "replicate ?n 0"] size(2) by simp
  have lba: "unat (ucast lba :: u32) = unat lba" and cnt: "unat (ucast count :: u16) = unat count"
    using range by (simp_all add: unat_ucast_small)
  have len: "length (blocks disk (unat lba) (unat count)) = ?n" using disk by (simp add: length_blocks)
  have pos: "?rlen > 0" using n size(1) by (metis unat_0 word_gt_0 less_irrefl)
  note served = serve_read [of ?rlen disk "ucast lba" "ucast count" reqs d bs, unfolded n lba cnt,
    OF pos len size(2) reqs]
  have replies: "length ?rets = length (scsi_requests d (Read10 (ucast lba) (ucast count)) None ?rlen)"
    using served(5) reqs by simp
  from scsi_command_served [OF peer served(3,4) replies] served(1,2) size len reqs
  show ?thesis by (auto simp: read_blocks_def client_eval Let_def scsi_after_def)
qed

theorem read_blocks_reads_disk_witness:
  "\<exists>d'. read_blocks 7 2 [0, 0, 0, 0, 0, 0, 0, 0, 5, 6]
      (answered (scsi_requests sample_storage (Read10 7 2) None 8))
      = Ok ((8, [7, 7, 7, 7, 8, 8, 8, 8, 5, 6]), d')"
proof -
  let ?reqs = "scsi_requests sample_storage (Read10 7 2) None 8"
  have data: "blocks sample_disk 7 2 = [7, 7, 7, 7, 8, 8, 8, 8]"
    by (simp add: blocks_def sample_disk_def upt_rec)
  have "\<exists>d'. read_blocks 7 2 [0, 0, 0, 0, 0, 0, 0, 0, 5, 6] (answered ?reqs) =
      Ok ((unat (2 :: u32) * unat (ms_block_size (answered ?reqs)),
        blocks sample_disk (unat (7 :: u64)) (unat (2 :: u32)) @
        drop (unat (2 :: u32) * unat (ms_block_size (answered ?reqs))) [0, 0, 0, 0, 0, 0, 0, 0, 5, 6]), d') \<and>
      c_reader d' = c_reader sample_storage \<and>
      sent (c_writer d') = sent (c_writer (answered ?reqs)) @ concat (map CmdSubmit_encode ?reqs) \<and>
      snd (serve 4 (sample_disk, Idle) ?reqs) = (sample_disk, Idle)"
    by (rule read_blocks_reads_disk) (simp_all add: sample_disk_def MAX_TRANSFER_BUFFER_LENGTH_def)
  then show ?thesis by (auto simp: data)
qed

lemma blocks_append: "blocks disk lba (Suc n) = blocks disk lba n @ disk (lba + n)"
  by (simp add: blocks_def)

lemma blocks_store: "k \<le> n \<Longrightarrow> blocks (store bs lba n data disk) lba k = take (k * bs) data"
proof (induction k)
  case (Suc k)
  then have "store bs lba n data disk (lba + k) = take bs (drop (k * bs) data)" by (simp add: store_def)
  then show ?case using Suc take_add [of "k * bs" bs data] by (simp add: blocks_append add.commute)
qed (simp add: blocks_def)

text \<open>
  C27: Writing blocks to a disk that speaks the transport writes the disk: under the same
  conditions the call reports the size of the range, and afterwards the blocks of the range
  hold the data in order while every other block is as before.
\<close>

theorem write_blocks_writes_disk:
  assumes range: "unat lba < 2 ^ 32" "unat count < 2 ^ 16"
    and size: "unat count * unat (ms_block_size d) \<le> max_transfer"
      "unat count * unat (ms_block_size d) \<le> length data"
    and reqs: "reqs = scsi_requests d (Write10 (ucast lba) (ucast count))
                        (Some (take (unat count * unat (ms_block_size d)) data)) 0"
    and peer: "room (c_writer d) = None"
      "c_reader d = feed (concat (map RetSubmit_encode (fst (serve (unat (ms_block_size d)) (disk, Idle) reqs)))) s"
  shows "\<exists>d' disk'. write_blocks lba count data d = Ok (unat count * unat (ms_block_size d), d') \<and>
    c_reader d' = s \<and>
    sent (c_writer d') = sent (c_writer d) @ concat (map CmdSubmit_encode reqs) \<and>
    snd (serve (unat (ms_block_size d)) (disk, Idle) reqs) = (disk', Idle) \<and>
    blocks disk' (unat lba) (unat count) = take (unat count * unat (ms_block_size d)) data \<and>
    (\<forall>i. i < unat lba \<or> unat lba + unat count \<le> i \<longrightarrow> disk' i = disk i)"
proof -
  let ?bs = "unat (ms_block_size d)"
  let ?data = "take (unat count * ?bs) data"
  let ?rets = "fst (serve ?bs (disk, Idle) reqs)"
  have lba: "unat (ucast lba :: u32) = unat lba" and cnt: "unat (ucast count :: u16) = unat count"
    using range by (simp_all add: unat_ucast_small)
  have fit: "length ?data \<le> max_transfer" using size by simp
  note served = serve_write [of ?data reqs d "ucast lba" "ucast count" ?bs disk, unfolded lba cnt,
    OF fit reqs]
  have replies: "length ?rets =
      length (scsi_requests d (Write10 (ucast lba) (ucast count)) (Some ?data) 0)"
    using served(4) reqs by simp
  from scsi_command_served [OF peer served(2,3) replies] size reqs
  have "\<exists>d'. write_blocks lba count data d = Ok (unat count * ?bs, d') \<and> c_reader d' = s \<and>
      sent (c_writer d') = sent (c_writer d) @ concat (map CmdSubmit_encode reqs)"
    by (auto simp: write_blocks_def client_eval Let_def scsi_after_def)
  then show ?thesis
    using served(1) blocks_store [of "unat count" "unat count" ?bs "unat lba" ?data disk]
    by (auto simp: store_def)
qed

theorem write_blocks_writes_disk_witness:
  "\<exists>d' disk'. write_blocks 7 2 [1, 2, 3, 4, 5, 6, 7, 8, 9]
      (answered (scsi_requests sample_storage (Write10 7 2) (Some [1, 2, 3, 4, 5, 6, 7, 8]) 0)) = Ok (8, d') \<and>
     blocks disk' 7 2 = [1, 2, 3, 4, 5, 6, 7, 8] \<and> disk' 9 = [9, 9, 9, 9]"
proof -
  let ?data = "[1, 2, 3, 4, 5, 6, 7, 8, 9] :: bytes"
  let ?reqs = "scsi_requests sample_storage (Write10 7 2) (Some [1, 2, 3, 4, 5, 6, 7, 8]) 0"
  have "\<exists>d' disk'. write_blocks 7 2 ?data (answered ?reqs) =
      Ok (unat (2 :: u32) * unat (ms_block_size (answered ?reqs)), d') \<and>
      c_reader d' = c_reader sample_storage \<and>
      sent (c_writer d') = sent (c_writer (answered ?reqs)) @ concat (map CmdSubmit_encode ?reqs) \<and>
      snd (serve (unat (ms_block_size (answered ?reqs))) (sample_disk, Idle) ?reqs) = (disk', Idle) \<and>
      blocks disk' (unat (7 :: u64)) (unat (2 :: u32)) =
        take (unat (2 :: u32) * unat (ms_block_size (answered ?reqs))) ?data \<and>
      (\<forall>i. i < unat (7 :: u64) \<or> unat (7 :: u64) + unat (2 :: u32) \<le> i \<longrightarrow> disk' i = sample_disk i)"
    by (rule write_blocks_writes_disk) (simp_all add: MAX_TRANSFER_BUFFER_LENGTH_def)
  then show ?thesis by (auto simp: sample_disk_def)
qed

end
