(* ===== verification/Client_Hid.thy ===== *)
theory Client_Hid
  imports Client_Conn
begin

text \<open>
  \<open>extender-client/src/hid.rs\<close>: the HID driver. Input reports are interrupt IN transfers;
  output reports go to the interrupt OUT endpoint, or to a SET_REPORT control transfer when
  there is none. The setup packets of the HID requests are lists of eight bytes.
\<close>

definition HID_DEFAULT_EP_IN :: u8 where "HID_DEFAULT_EP_IN = 0x81"
definition HID_DEFAULT_EP_OUT :: u8 where "HID_DEFAULT_EP_OUT = 0x02"
definition DEFAULT_REPORT_DESCRIPTOR_MAX_LEN :: u16 where "DEFAULT_REPORT_DESCRIPTOR_MAX_LEN = 4096"
definition HID_DESCRIPTOR_TYPE_REPORT :: u8 where "HID_DESCRIPTOR_TYPE_REPORT = 0x22"
definition HID_REQUEST_SET_IDLE :: u8 where "HID_REQUEST_SET_IDLE = 0x0A"
definition HID_REQUEST_SET_PROTOCOL :: u8 where "HID_REQUEST_SET_PROTOCOL = 0x0B"
definition HID_REQUEST_SET_REPORT :: u8 where "HID_REQUEST_SET_REPORT = 0x09"
definition USB_RT_HID_INTERFACE_IN :: u8 where "USB_RT_HID_INTERFACE_IN = 0x81"
definition USB_RT_HID_INTERFACE_OUT :: u8 where "USB_RT_HID_INTERFACE_OUT = 0x21"
definition USB_REQUEST_GET_DESCRIPTOR :: u8 where "USB_REQUEST_GET_DESCRIPTOR = 0x06"

section \<open>Setup packets\<close>

text \<open>\<open>(w & 0xFF) as u8\<close> and \<open>((w >> 8) & 0xFF) as u8\<close>.\<close>

definition lo_byte :: "u16 \<Rightarrow> u8" where
  "lo_byte w = ucast (w AND 0xFF)"

definition hi_byte :: "u16 \<Rightarrow> u8" where
  "hi_byte w = ucast (drop_bit 8 w AND 0xFF)"

definition build_get_report_descriptor_setup :: "u8 \<Rightarrow> u16 \<Rightarrow> bytes" where
  "build_get_report_descriptor_setup interface len =
     [USB_RT_HID_INTERFACE_IN, USB_REQUEST_GET_DESCRIPTOR, 0x00, HID_DESCRIPTOR_TYPE_REPORT,
      interface, 0x00, lo_byte len, hi_byte len]"

definition build_set_idle_setup :: "u8 \<Rightarrow> u8 \<Rightarrow> u8 \<Rightarrow> bytes" where
  "build_set_idle_setup interface duration report_id =
     [USB_RT_HID_INTERFACE_OUT, HID_REQUEST_SET_IDLE, report_id, duration, interface, 0, 0, 0]"

definition build_set_protocol_setup :: "u8 \<Rightarrow> u8 \<Rightarrow> bytes" where
  "build_set_protocol_setup interface protocol =
     [USB_RT_HID_INTERFACE_OUT, HID_REQUEST_SET_PROTOCOL, protocol, 0, interface, 0, 0, 0]"

definition build_set_report_setup :: "u8 \<Rightarrow> u16 \<Rightarrow> bytes" where
  "build_set_report_setup interface len =
     [USB_RT_HID_INTERFACE_OUT, HID_REQUEST_SET_REPORT, 0x00, 0x02, interface, 0x00,
      lo_byte len, hi_byte len]"

lemma length_hid_setups [simp]:
  "length (build_get_report_descriptor_setup i l) = 8" "length (build_set_idle_setup i u r) = 8"
  "length (build_set_protocol_setup i p) = 8" "length (build_set_report_setup i l) = 8"
  by (simp_all add: build_get_report_descriptor_setup_def build_set_idle_setup_def
    build_set_protocol_setup_def build_set_report_setup_def)

section \<open>The device\<close>

record HidDevice = usb_conn +
  hid_ep_in :: u8
  hid_ep_out :: "u8 option"
  hid_report_descriptor :: bytes
  hid_vendor_id :: u16
  hid_product_id :: u16
  hid_interface_number :: u8

definition hid_connect :: "SocketAddr \<Rightarrow> string \<Rightarrow> tcp \<Rightarrow> (HidDevice, ClientError) result" where
  "hid_connect addr bus_id outcome =
     rbind (tcp_connect addr outcome) (\<lambda>(reader, writer).
     rbind (import_exchange bus_id reader writer) (\<lambda>(device, reader', writer').
     Ok \<lparr>c_reader = reader', c_writer = writer', c_devid = device_id device, c_next_seqnum = 1,
         hid_ep_in = HID_DEFAULT_EP_IN, hid_ep_out = Some HID_DEFAULT_EP_OUT,
         hid_report_descriptor = [], hid_vendor_id = id_vendor device,
         hid_product_id = id_product device, hid_interface_number = 0\<rparr>))"

definition control_transfer_in :: "bytes \<Rightarrow> u32 \<Rightarrow> (HidDevice, bytes) op" where
  "control_transfer_in setup len = transfer_in Hid 0 setup len"

definition control_transfer_out :: "bytes \<Rightarrow> bytes \<Rightarrow> (HidDevice, unit) op" where
  "control_transfer_out setup data = transfer_out Hid 0 setup data"

definition receive_interrupt_in :: "u32 \<Rightarrow> (HidDevice, bytes) op" where
  "receive_interrupt_in len = cget (\<lambda>d. transfer_in Hid (hid_ep_in d) zero_setup len)"

definition send_interrupt_out :: "u8 \<Rightarrow> bytes \<Rightarrow> (HidDevice, unit) op" where
  "send_interrupt_out ep_out payload = send_out ep_out zero_setup payload"

definition get_report_descriptor :: "(HidDevice, bytes) op" where
  "get_report_descriptor =
     cget (\<lambda>d. let len = DEFAULT_REPORT_DESCRIPTOR_MAX_LEN in
       control_transfer_in (build_get_report_descriptor_setup (hid_interface_number d) len) (ucast len))"

definition set_idle :: "u8 \<Rightarrow> u8 \<Rightarrow> (HidDevice, unit) op" where
  "set_idle duration report_id =
     cget (\<lambda>d. control_transfer_out (build_set_idle_setup (hid_interface_number d) duration report_id) [])"

definition set_protocol :: "u8 \<Rightarrow> (HidDevice, unit) op" where
  "set_protocol protocol =
     cget (\<lambda>d. control_transfer_out (build_set_protocol_setup (hid_interface_number d) protocol) [])"

definition set_report :: "bytes \<Rightarrow> (HidDevice, unit) op" where
  "set_report report =
     cget (\<lambda>d. control_transfer_out
       (build_set_report_setup (hid_interface_number d) (word_of_nat (length report))) report)"

definition hid_initialize :: "(HidDevice, unit) op" where
  "hid_initialize =
     cbind get_report_descriptor (\<lambda>descriptor.
     cbind (cmodify (\<lambda>d. d\<lparr>hid_report_descriptor := descriptor\<rparr>)) (\<lambda>_.
     cbind (set_idle 0 0) (\<lambda>_. set_protocol 1)))"

definition read_report :: "(HidDevice, bytes) op" where
  "read_report = receive_interrupt_in 64"

definition write_report :: "bytes \<Rightarrow> (HidDevice, unit) op" where
  "write_report report =
     cget (\<lambda>d. case hid_ep_out d of
       Some ep_out \<Rightarrow>
         cbind (send_interrupt_out ep_out report) (\<lambda>_. cbind (read_reply Hid) (\<lambda>_. creturn ()))
     | None \<Rightarrow> set_report report)"

section \<open>The discipline of the connection\<close>

lemmas hid_ops = control_transfer_in_def control_transfer_out_def receive_interrupt_in_def
  send_interrupt_out_def get_report_descriptor_def set_idle_def set_protocol_def set_report_def
  hid_initialize_def read_report_def write_report_def Let_def

lemma hid_sizes: "(64 :: u32) \<le> MAX_TRANSFER_BUFFER_LENGTH"
  "(ucast DEFAULT_REPORT_DESCRIPTOR_MAX_LEN :: u32) \<le> MAX_TRANSFER_BUFFER_LENGTH"
  by (simp_all add: MAX_TRANSFER_BUFFER_LENGTH_def DEFAULT_REPORT_DESCRIPTOR_MAX_LEN_def)

lemma hid_control_moves:
  "lockstep get_report_descriptor" "lockstep (set_idle duration report_id)" "lockstep (set_protocol protocol)"
  "length report \<le> max_transfer \<Longrightarrow> lockstep (set_report report)"
  by (auto simp: hid_ops hid_sizes intro!: moves_cget moves_transfers)

interpretation hid_descriptor: driver_operation get_report_descriptor True
  by unfold_locales (rule hid_control_moves)

interpretation hid_idle: driver_operation "set_idle duration report_id" True for duration report_id
  by unfold_locales (rule hid_control_moves)

interpretation hid_protocol: driver_operation "set_protocol protocol" True for protocol
  by unfold_locales (rule hid_control_moves)

interpretation hid_report: driver_operation "set_report report" "length report \<le> max_transfer" for report
  by unfold_locales (rule hid_control_moves)

interpretation hid_init: driver_operation hid_initialize True
  by unfold_locales (auto simp: hid_ops hid_sizes conn_of_def intro!: moves_intros)

interpretation hid_read: driver_operation read_report True
  by unfold_locales (auto simp: hid_ops hid_sizes intro!: moves_intros)

interpretation hid_write: driver_operation "write_report report" "length report \<le> max_transfer"
  for report
  by unfold_locales
     (auto simp: hid_ops transfer_out_def [symmetric] split: option.splits intro!: moves_intros)

text \<open>What a report descriptor read from the device becomes: the descriptor of the device.\<close>

lemma hid_initialize_keeps:
  "hid_initialize d = Ok (u, d') \<Longrightarrow>
     hid_ep_in d' = hid_ep_in d \<and> hid_ep_out d' = hid_ep_out d \<and> c_devid d' = c_devid d \<and>
     hid_vendor_id d' = hid_vendor_id d \<and> hid_product_id d' = hid_product_id d \<and>
     (\<exists>ret r. read_urb_message (c_reader d) = Ok (RetSubmit ret, r) \<and>
        hid_report_descriptor d' = rs_transfer_buffer ret)"
  by (auto simp: hid_ops transfer_in_def transfer_out_def client_eval rbind_eq_Ok send_in_Ok
    send_out_Ok read_reply_Ok)

end
