(* ===== verification/Client_Serial.thy ===== *)
theory Client_Serial
  imports Client_Conn
begin

text \<open>
  \<open>extender-client/src/serial.rs\<close>: the CDC/ACM serial driver: the line coding structure, the
  two class requests, and reads and writes as bulk transfers.
\<close>

definition SERIAL_EP_DATA_OUT :: u8 where "SERIAL_EP_DATA_OUT = 0x02"
definition SERIAL_EP_DATA_IN :: u8 where "SERIAL_EP_DATA_IN = 0x82"
definition LINE_CODING_SIZE :: usize where "LINE_CODING_SIZE = 7"
definition SET_LINE_CODING :: u8 where "SET_LINE_CODING = 0x20"
definition SET_CONTROL_LINE_STATE :: u8 where "SET_CONTROL_LINE_STATE = 0x22"
definition CDC_REQUEST_TYPE :: u8 where "CDC_REQUEST_TYPE = 0x21"

section \<open>Line coding\<close>

record LineCoding =
  lc_baud_rate :: u32
  lc_stop_bits :: u8
  lc_parity :: u8
  lc_data_bits :: u8

definition LineCoding_to_bytes :: "LineCoding \<Rightarrow> bytes" where
  "LineCoding_to_bytes c =
     u32_to_le_bytes (lc_baud_rate c) @ [lc_stop_bits c, lc_parity c, lc_data_bits c]"

definition LineCoding_from_bytes :: "bytes \<Rightarrow> LineCoding" where
  "LineCoding_from_bytes buf =
     \<lparr>lc_baud_rate = u32_le_at buf 0, lc_stop_bits = byte_at buf 4, lc_parity = byte_at buf 5,
      lc_data_bits = byte_at buf 6\<rparr>"

lemma LineCoding_roundtrip:
  "LineCoding_from_bytes (LineCoding_to_bytes c) = c" "length (LineCoding_to_bytes c) = LINE_CODING_SIZE"
  by (simp_all add: LineCoding_from_bytes_def LineCoding_to_bytes_def LINE_CODING_SIZE_def
    u32_le_at_def byte_at_def u32_to_le_eq u32_from_to_le)

lemma LineCoding_canonical:
  "length buf = LINE_CODING_SIZE \<Longrightarrow> LineCoding_to_bytes (LineCoding_from_bytes buf) = buf"
proof -
  assume "length buf = LINE_CODING_SIZE"
  then obtain a b c d e f g where "buf = [a, b, c, d, e, f, g]"
    by (auto simp: LINE_CODING_SIZE_def length_Suc_conv numeral_eq_Suc)
  then show ?thesis
    by (simp add: LineCoding_from_bytes_def LineCoding_to_bytes_def u32_le_at_def byte_at_def
      u32_to_from_le)
qed

section \<open>Setup packets\<close>

definition build_set_line_coding_setup :: "u8 \<Rightarrow> bytes" where
  "build_set_line_coding_setup interface =
     [CDC_REQUEST_TYPE, SET_LINE_CODING, 0, 0, interface, 0, word_of_nat LINE_CODING_SIZE, 0]"

definition line_state :: "bool \<Rightarrow> bool \<Rightarrow> u16" where
  "line_state dtr rts = (if dtr then 1 else 0) OR push_bit 1 (if rts then 1 else 0)"

definition build_set_control_line_state_setup :: "u8 \<Rightarrow> bool \<Rightarrow> bool \<Rightarrow> bytes" where
  "build_set_control_line_state_setup interface dtr rts =
     (let state = line_state dtr rts in
      [CDC_REQUEST_TYPE, SET_CONTROL_LINE_STATE, ucast (state AND 0xFF),
       ucast (drop_bit 8 state AND 0xFF), interface, 0, 0, 0])"

lemma length_serial_setups [simp]:
  "length (build_set_line_coding_setup i) = 8" "length (build_set_control_line_state_setup i a b) = 8"
  by (simp_all add: build_set_line_coding_setup_def build_set_control_line_state_setup_def Let_def)

section \<open>The device\<close>

record SerialDevice = usb_conn +
  ser_ep_data_in :: u8
  ser_ep_data_out :: u8
  ser_ep_notify :: "u8 option"
  ser_control_interface :: u8
  ser_data_interface :: u8
  ser_baud_rate :: u32
  ser_data_bits :: u8
  ser_stop_bits :: u8
  ser_parity :: u8

definition serial_connect :: "SocketAddr \<Rightarrow> string \<Rightarrow> tcp \<Rightarrow> (SerialDevice, ClientError) result" where
  "serial_connect addr bus_id outcome =
     rbind (tcp_connect addr outcome) (\<lambda>(reader, writer).
     rbind (import_exchange bus_id reader writer) (\<lambda>(device, reader', writer').
     Ok \<lparr>c_reader = reader', c_writer = writer', c_devid = device_id device, c_next_seqnum = 1,
         ser_ep_data_in = SERIAL_EP_DATA_IN, ser_ep_data_out = SERIAL_EP_DATA_OUT,
         ser_ep_notify = None, ser_control_interface = 0, ser_data_interface = 1,
         ser_baud_rate = 9600, ser_data_bits = 8, ser_stop_bits = 0, ser_parity = 0\<rparr>))"

definition serial_send_control_out :: "bytes \<Rightarrow> bytes \<Rightarrow> (SerialDevice, unit) op" where
  "serial_send_control_out setup data = send_out 0 setup data"

definition serial_send_bulk_out :: "u8 \<Rightarrow> bytes \<Rightarrow> (SerialDevice, unit) op" where
  "serial_send_bulk_out endpoint payload = send_out endpoint zero_setup payload"

definition serial_receive_bulk_in :: "u8 \<Rightarrow> u32 \<Rightarrow> (SerialDevice, bytes) op" where
  "serial_receive_bulk_in endpoint len = transfer_in Serial endpoint zero_setup len"

definition serial_read_ret_submit :: "(SerialDevice, bytes) op" where
  "serial_read_ret_submit = read_reply Serial"

definition set_line_coding :: "LineCoding \<Rightarrow> (SerialDevice, unit) op" where
  "set_line_coding coding =
     cget (\<lambda>d.
     cbind (serial_send_control_out (build_set_line_coding_setup (ser_control_interface d))
              (LineCoding_to_bytes coding)) (\<lambda>_.
     cbind serial_read_ret_submit (\<lambda>_.
     cmodify (\<lambda>d. d\<lparr>ser_baud_rate := lc_baud_rate coding, ser_data_bits := lc_data_bits coding,
                    ser_stop_bits := lc_stop_bits coding, ser_parity := lc_parity coding\<rparr>))))"

definition set_control_line_state :: "bool \<Rightarrow> bool \<Rightarrow> (SerialDevice, unit) op" where
  "set_control_line_state dtr rts =
     cget (\<lambda>d.
     cbind (serial_send_control_out
              (build_set_control_line_state_setup (ser_control_interface d) dtr rts) []) (\<lambda>_.
     cbind serial_read_ret_submit (\<lambda>_. creturn ())))"

definition serial_initialize :: "u32 \<Rightarrow> (SerialDevice, unit) op" where
  "serial_initialize baud_rate =
     cbind (set_line_coding \<lparr>lc_baud_rate = baud_rate, lc_stop_bits = 0, lc_parity = 0,
                             lc_data_bits = 8\<rparr>) (\<lambda>_. set_control_line_state True True)"

definition serial_read :: "bytes \<Rightarrow> (SerialDevice, usize \<times> bytes) op" where
  "serial_read buf =
     cget (\<lambda>d.
     cbind (serial_receive_bulk_in (ser_ep_data_in d) (word_of_nat (length buf))) (\<lambda>data.
       let copy_len = min (length data) (length buf)
       in creturn (copy_len, take copy_len data @ drop copy_len buf)))"

definition serial_write :: "bytes \<Rightarrow> (SerialDevice, usize) op" where
  "serial_write data =
     cget (\<lambda>d.
     cbind (serial_send_bulk_out (ser_ep_data_out d) data) (\<lambda>_.
     cbind serial_read_ret_submit (\<lambda>_. creturn (length data))))"

section \<open>The discipline of the connection\<close>

lemmas serial_ops = serial_send_control_out_def serial_send_bulk_out_def serial_receive_bulk_in_def
  serial_read_ret_submit_def set_line_coding_def set_control_line_state_def serial_initialize_def
  serial_read_def serial_write_def Let_def

lemma serial_sizes: "length (LineCoding_to_bytes c) \<le> max_transfer" "length ([] :: bytes) \<le> max_transfer"
  by (simp_all add: LineCoding_roundtrip LINE_CODING_SIZE_def MAX_TRANSFER_BUFFER_LENGTH_def)

lemma serial_control_moves:
  "lockstep (set_line_coding coding)" "lockstep (set_control_line_state dtr rts)"
  unfolding serial_ops using serial_sizes
  by (auto simp: conn_of_def intro!: moves_cget moves_send_read moves_cmodify moves_creturn)

interpretation serial_coding: driver_operation "set_line_coding coding" True for coding
  by unfold_locales (rule serial_control_moves)

interpretation serial_lines: driver_operation "set_control_line_state dtr rts" True for dtr rts
  by unfold_locales (rule serial_control_moves)

interpretation serial_init: driver_operation "serial_initialize baud" True for baud
  by unfold_locales
     (auto simp: serial_initialize_def intro!: moves_cbind [where q = False] serial_control_moves)

interpretation serial_in: driver_operation "serial_read buf" "length buf \<le> max_transfer" for buf
  by unfold_locales
     (auto simp: serial_ops word_le_nat_alt unat_payload intro!: moves_intros)

interpretation serial_out: driver_operation "serial_write data" "length data \<le> max_transfer" for data
  by unfold_locales (auto simp: serial_ops intro!: moves_send_read moves_cget moves_creturn)

end
