(* ===== verification/Client_Network.thy ===== *)
theory Client_Network
  imports Client_Conn
begin

text \<open>
  \<open>extender-client/src/network.rs\<close>: the CDC-ECM/NCM driver. An ECM frame is the payload of a
  bulk transfer; an NCM frame is wrapped in a block with two headers that give its position.
  Reads of the received block go through \<open>le16\<close>, \<open>le32\<close> and \<open>slice\<close>, which panic out of range,
  so that the bounds checks of \<open>unwrap_ncm_ntb\<close> are shown to suffice. Frames above 65507 bytes
  overflow the 16-bit lengths; the model wraps, as release builds do.
\<close>

definition NET_EP_DATA_OUT :: u8 where "NET_EP_DATA_OUT = 0x02"
definition NET_EP_DATA_IN :: u8 where "NET_EP_DATA_IN = 0x81"
definition NET_CDC_REQUEST_TYPE :: u8 where "NET_CDC_REQUEST_TYPE = 0x21"
definition SET_ETHERNET_PACKET_FILTER :: u8 where "SET_ETHERNET_PACKET_FILTER = 0x43"
definition DEFAULT_MAX_SEGMENT_SIZE :: u16 where "DEFAULT_MAX_SEGMENT_SIZE = 1514"
definition NTH16_SIGNATURE :: u32 where "NTH16_SIGNATURE = 0x484D434E"
definition NDP16_SIGNATURE :: u32 where "NDP16_SIGNATURE = 0x304D434E"
definition NTH16_HEADER_SIZE :: usize where "NTH16_HEADER_SIZE = 12"
definition NDP16_MIN_SIZE :: usize where "NDP16_MIN_SIZE = 16"
definition PACKET_TYPE_DIRECTED :: u16 where "PACKET_TYPE_DIRECTED = 0x0001"
definition PACKET_TYPE_BROADCAST :: u16 where "PACKET_TYPE_BROADCAST = 0x0002"
definition PACKET_TYPE_MULTICAST :: u16 where "PACKET_TYPE_MULTICAST = 0x0010"

definition DEFAULT_PACKET_FILTER :: u16 where
  "DEFAULT_PACKET_FILTER = PACKET_TYPE_DIRECTED OR PACKET_TYPE_BROADCAST OR PACKET_TYPE_MULTICAST"

datatype NetworkProtocol = Ecm | Ncm

section \<open>NCM transfer blocks\<close>

definition le16 :: "bytes \<Rightarrow> nat \<Rightarrow> (u16, 'e) result" where
  "le16 data i = (if i + 2 \<le> length data then Ok (u16_le_at data i) else Panic)"

definition le32 :: "bytes \<Rightarrow> nat \<Rightarrow> (u32, 'e) result" where
  "le32 data i = (if i + 4 \<le> length data then Ok (u32_le_at data i) else Panic)"

definition slice :: "bytes \<Rightarrow> nat \<Rightarrow> nat \<Rightarrow> (bytes, 'e) result" where
  "slice data a b = (if a \<le> b \<and> b \<le> length data then Ok (take (b - a) (drop a data)) else Panic)"

definition wrap_ncm_ntb :: "bytes \<Rightarrow> bytes" where
  "wrap_ncm_ntb frame =
     (let ndp_offset = word_of_nat NTH16_HEADER_SIZE :: u16;
          datagram_offset = word_of_nat (NTH16_HEADER_SIZE + NDP16_MIN_SIZE) :: u16;
          datagram_len = word_of_nat (length frame) :: u16;
          block_len = datagram_offset + datagram_len
      in u32_to_le_bytes NTH16_SIGNATURE @ u16_to_le_bytes 12 @ u16_to_le_bytes 0 @
         u16_to_le_bytes block_len @ u16_to_le_bytes ndp_offset @
         u32_to_le_bytes NDP16_SIGNATURE @ u16_to_le_bytes 16 @ u16_to_le_bytes 0 @
         u16_to_le_bytes datagram_offset @ u16_to_le_bytes datagram_len @
         u16_to_le_bytes 0 @ u16_to_le_bytes 0 @ frame)"

definition unwrap_ncm_ntb :: "bytes \<Rightarrow> (bytes, ClientError) result" where
  "unwrap_ncm_ntb data =
     (if length data < NTH16_HEADER_SIZE then Err (Network NtbTooShortForNth)
      else rbind (le32 data 0) (\<lambda>sig.
      if sig \<noteq> NTH16_SIGNATURE then Err (Network (InvalidNthSignature sig))
      else rbind (le16 data 10) (\<lambda>ndp_offset_raw.
      let ndp_offset = unat ndp_offset_raw in
      if ndp_offset + NDP16_MIN_SIZE > length data then Err (Network NtbTooShortForNdp)
      else rbind (le32 data ndp_offset) (\<lambda>ndp_sig.
      if ndp_sig \<noteq> NDP16_SIGNATURE then Err (Network (InvalidNdpSignature ndp_sig))
      else
      let entry_offset = ndp_offset + 8 in
      if entry_offset + 4 > length data then Err (Network NdpTooShort)
      else rbind (le16 data entry_offset) (\<lambda>index_raw.
           rbind (le16 data (entry_offset + 2)) (\<lambda>length_raw.
      let datagram_index = unat index_raw; datagram_length = unat length_raw in
      if datagram_index = 0 \<or> datagram_length = 0 then Err (Network NoDatagrams)
      else if datagram_index + datagram_length > length data
      then Err (Network (DatagramPastEnd datagram_index datagram_length (length data)))
      else slice data datagram_index (datagram_index + datagram_length)))))))"

section \<open>MAC addresses\<close>

definition format_mac_address :: "bytes \<Rightarrow> string" where
  "format_mac_address mac = join_with '':'' (map format_02X mac)"

definition parse_mac_address :: "string \<Rightarrow> (bytes, ClientError) result" where
  "parse_mac_address s =
     (let parts = split_on CHR '':'' s in
      if length parts \<noteq> 6 then Err (Network (InvalidMacFormat s))
      else rmap (\<lambda>part. case from_str_radix 8 16 part of
                   Some n \<Rightarrow> Ok (word_of_nat n)
                 | None \<Rightarrow> Err (Network (InvalidMacByte part))) parts)"

section \<open>The device\<close>

record NetworkDevice = usb_conn +
  net_ep_data_in :: u8
  net_ep_data_out :: u8
  net_ep_notify :: "u8 option"
  net_protocol :: NetworkProtocol
  net_mac_address :: bytes
  net_max_segment_size :: u16
  net_control_interface :: u8

definition network_connect :: "SocketAddr \<Rightarrow> string \<Rightarrow> tcp \<Rightarrow> (NetworkDevice, ClientError) result" where
  "network_connect addr bus_id outcome =
     rbind (tcp_connect addr outcome) (\<lambda>(reader, writer).
     rbind (import_exchange bus_id reader writer) (\<lambda>(device, reader', writer').
     Ok \<lparr>c_reader = reader', c_writer = writer', c_devid = device_id device, c_next_seqnum = 1,
         net_ep_data_in = NET_EP_DATA_IN, net_ep_data_out = NET_EP_DATA_OUT,
         net_ep_notify = None, net_protocol = Ecm, net_mac_address = replicate 6 0,
         net_max_segment_size = DEFAULT_MAX_SEGMENT_SIZE, net_control_interface = 0\<rparr>))"

definition build_set_packet_filter_setup :: "u8 \<Rightarrow> u16 \<Rightarrow> bytes" where
  "build_set_packet_filter_setup interface packet_filter =
     [NET_CDC_REQUEST_TYPE, SET_ETHERNET_PACKET_FILTER, ucast (packet_filter AND 0xFF),
      ucast (drop_bit 8 packet_filter AND 0xFF), interface, 0, 0, 0]"

definition net_send_control_out :: "bytes \<Rightarrow> bytes \<Rightarrow> (NetworkDevice, unit) op" where
  "net_send_control_out setup data = send_out 0 setup data"

definition net_send_bulk_out :: "u8 \<Rightarrow> bytes \<Rightarrow> (NetworkDevice, unit) op" where
  "net_send_bulk_out endpoint payload = send_out endpoint zero_setup payload"

definition net_receive_bulk_in :: "u8 \<Rightarrow> u32 \<Rightarrow> (NetworkDevice, bytes) op" where
  "net_receive_bulk_in endpoint len = transfer_in Network endpoint zero_setup len"

definition net_read_ret_submit :: "(NetworkDevice, bytes) op" where
  "net_read_ret_submit = read_reply Network"

definition set_packet_filter :: "u16 \<Rightarrow> (NetworkDevice, unit) op" where
  "set_packet_filter packet_filter =
     cget (\<lambda>d.
     cbind (net_send_control_out
              (build_set_packet_filter_setup (net_control_interface d) packet_filter) []) (\<lambda>_.
     cbind net_read_ret_submit (\<lambda>_. creturn ())))"

definition network_initialize :: "(NetworkDevice, unit) op" where
  "network_initialize = set_packet_filter DEFAULT_PACKET_FILTER"

definition read_frame :: "(NetworkDevice, bytes) op" where
  "read_frame =
     cget (\<lambda>d.
     cbind (net_receive_bulk_in (net_ep_data_in d) (ucast (net_max_segment_size d) + 512)) (\<lambda>data.
     case net_protocol d of
       Ecm \<Rightarrow> creturn data
     | Ncm \<Rightarrow> (\<lambda>d'. rbind (unwrap_ncm_ntb data) (\<lambda>frame. creturn frame d'))))"

definition write_frame :: "bytes \<Rightarrow> (NetworkDevice, unit) op" where
  "write_frame frame =
     cget (\<lambda>d.
     cbind (net_send_bulk_out (net_ep_data_out d)
              (case net_protocol d of Ecm \<Rightarrow> frame | Ncm \<Rightarrow> wrap_ncm_ntb frame)) (\<lambda>_.
     cbind net_read_ret_submit (\<lambda>_. creturn ())))"

definition set_mac_address :: "bytes \<Rightarrow> NetworkDevice \<Rightarrow> NetworkDevice" where
  "set_mac_address mac d = d\<lparr>net_mac_address := mac\<rparr>"

definition net_set_protocol :: "NetworkProtocol \<Rightarrow> NetworkDevice \<Rightarrow> NetworkDevice" where
  "net_set_protocol protocol d = d\<lparr>net_protocol := protocol\<rparr>"

section \<open>The discipline of the connection\<close>

lemmas network_ops = net_send_control_out_def net_send_bulk_out_def net_receive_bulk_in_def
  net_read_ret_submit_def set_packet_filter_def network_initialize_def read_frame_def
  write_frame_def Let_def

lemma length_wrap_ncm_ntb: "length (wrap_ncm_ntb frame) = 28 + length frame"
  by (simp add: wrap_ncm_ntb_def Let_def)

lemma segment_fits: "(ucast (n :: u16) + 512 :: u32) \<le> MAX_TRANSFER_BUFFER_LENGTH"
proof -
  have n: "unat n < 65536" using unsigned_less [of n] by simp
  then have "unat (ucast n :: u32) = unat n" by (simp add: unat_ucast_small)
  then show ?thesis using n
    by (simp add: word_le_nat_alt MAX_TRANSFER_BUFFER_LENGTH_def unat_word_ariths)
qed

lemma length_filter_setup [simp]: "length (build_set_packet_filter_setup i f) = 8"
  by (simp add: build_set_packet_filter_setup_def)

interpretation network_filter: driver_operation "set_packet_filter packet_filter" True for packet_filter
  by unfold_locales (auto simp: network_ops intro!: moves_cget moves_send_read moves_creturn)

interpretation network_init: driver_operation network_initialize True
  by unfold_locales (simp add: network_initialize_def network_filter.disciplined)

lemma moves_lift: "lockstep (\<lambda>d. rbind r (\<lambda>x. creturn x d))"
  by (rule movesI) (auto simp: rbind_eq_Ok client_eval intro: exI [of _ "[]"])

interpretation network_in: driver_operation read_frame True
  by unfold_locales
     (auto simp: network_ops segment_fits split: NetworkProtocol.splits intro!: moves_intros moves_lift)

interpretation network_out: driver_operation "write_frame frame" "length frame + 28 \<le> max_transfer"
  for frame
  by unfold_locales
     (auto simp: network_ops length_wrap_ncm_ntb split: NetworkProtocol.splits
       intro!: moves_cget moves_send_read moves_creturn)

section \<open>Properties\<close>

lemma wrap_fields:
  "u32_le_at (wrap_ncm_ntb frame) 0 = NTH16_SIGNATURE" "u16_le_at (wrap_ncm_ntb frame) 10 = 12"
  "u32_le_at (wrap_ncm_ntb frame) 12 = NDP16_SIGNATURE" "u16_le_at (wrap_ncm_ntb frame) 20 = 28"
  "u16_le_at (wrap_ncm_ntb frame) 22 = word_of_nat (length frame)"
  "drop 28 (wrap_ncm_ntb frame) = frame"
proof -
  let ?n = "word_of_nat (length frame) :: u16"
  let ?a = "u32_to_le_bytes NTH16_SIGNATURE" and ?b = "u16_to_le_bytes 12 @ u16_to_le_bytes 0 @ u16_to_le_bytes (28 + ?n)"
  let ?c = "u32_to_le_bytes NDP16_SIGNATURE" and ?d = "u16_to_le_bytes 16 @ u16_to_le_bytes 0"
  let ?e = "u16_to_le_bytes 0 @ u16_to_le_bytes 0 @ frame"
  have w: "wrap_ncm_ntb frame =
      ?a @ ?b @ u16_to_le_bytes 12 @ ?c @ ?d @ u16_to_le_bytes 28 @ u16_to_le_bytes ?n @ ?e"
    by (simp add: wrap_ncm_ntb_def Let_def NTH16_HEADER_SIZE_def NDP16_MIN_SIZE_def)
  show "u32_le_at (wrap_ncm_ntb frame) 0 = NTH16_SIGNATURE"
    unfolding w using le_at_append(2) [of "[]" 0] by simp
  show "u16_le_at (wrap_ncm_ntb frame) 10 = 12"
    unfolding w using le_at_append(1) [of "?a @ ?b" 10] by simp
  show "u32_le_at (wrap_ncm_ntb frame) 12 = NDP16_SIGNATURE"
    unfolding w using le_at_append(2) [of "?a @ ?b @ u16_to_le_bytes 12" 12] by simp
  show "u16_le_at (wrap_ncm_ntb frame) 20 = 28"
    unfolding w using le_at_append(1) [of "?a @ ?b @ u16_to_le_bytes 12 @ ?c @ ?d" 20] by simp
  show "u16_le_at (wrap_ncm_ntb frame) 22 = ?n"
    unfolding w
    using le_at_append(1) [of "?a @ ?b @ u16_to_le_bytes 12 @ ?c @ ?d @ u16_to_le_bytes 28" 22] by simp
  show "drop 28 (wrap_ncm_ntb frame) = frame" unfolding w by simp
qed

lemmas ncm_sizes = NTH16_HEADER_SIZE_def NDP16_MIN_SIZE_def

lemma unwrap_wrap:
  assumes "0 < length frame" "length frame \<le> 65507"
  shows "unwrap_ncm_ntb (wrap_ncm_ntb frame) = Ok frame"
proof -
  have "unat (word_of_nat (length frame) :: u16) = length frame"
    using assms(2) by (simp add: unsigned_of_nat take_bit_nat_eq_self)
  then show ?thesis
    using assms(1)
    by (simp add: unwrap_ncm_ntb_def le16_def le32_def slice_def length_wrap_ncm_ntb wrap_fields
      ncm_sizes Let_def)
qed

lemma unwrap_safe: "unwrap_ncm_ntb data \<noteq> Panic"
  by (auto simp: unwrap_ncm_ntb_def le16_def le32_def slice_def ncm_sizes Let_def)

lemma unwrap_slice:
  "unwrap_ncm_ntb data = Ok f \<Longrightarrow>
     \<exists>i n. f = take n (drop i data) \<and> 0 < n \<and> i + n \<le> length data"
  by (auto simp: unwrap_ncm_ntb_def le16_def le32_def slice_def ncm_sizes Let_def not_less
    split: if_splits intro!: exI)

lemma slice_infix: "data = take i data @ take n (drop i data) @ drop (i + n) data"
  by (metis append_take_drop_id drop_drop add.commute)

text \<open>
  C29: NCM framing. A frame of 1 to 65507 bytes put into a transfer block is taken out of it
  unchanged. And no received block, however malformed, makes the decoder read out of range;
  what it accepts is a non-empty run of bytes of the block.
\<close>

theorem ncm_frames_roundtrip_safely:
  "(0 < length frame \<and> length frame \<le> 65507 \<longrightarrow> unwrap_ncm_ntb (wrap_ncm_ntb frame) = Ok frame) \<and>
   unwrap_ncm_ntb data \<noteq> Panic \<and>
   (\<forall>f. unwrap_ncm_ntb data = Ok f \<longrightarrow> f \<noteq> [] \<and> (\<exists>pre post. data = pre @ f @ post))"
proof (intro conjI impI allI)
  show "unwrap_ncm_ntb (wrap_ncm_ntb frame) = Ok frame" if "0 < length frame \<and> length frame \<le> 65507"
    using that by (simp add: unwrap_wrap)
  show "unwrap_ncm_ntb data \<noteq> Panic" by (rule unwrap_safe)
  fix f
  assume "unwrap_ncm_ntb data = Ok f"
  then obtain i n where f: "f = take n (drop i data)" "0 < n" "i + n \<le> length data"
    using unwrap_slice by blast
  then show "f \<noteq> []" by auto
  show "\<exists>pre post. data = pre @ f @ post" using slice_infix f(1) by blast
qed

theorem ncm_frames_roundtrip_safely_witness:
  "unwrap_ncm_ntb (wrap_ncm_ntb [1, 2, 3]) = Ok [1, 2, 3] \<and>
   (\<exists>pre post. wrap_ncm_ntb [1, 2, 3] = pre @ [1, 2, 3] @ post)"
  using ncm_frames_roundtrip_safely [of "[1, 2, 3]" "wrap_ncm_ntb [1, 2, 3]"] by auto

lemma rmap_map_Ok: "(\<And>x. x \<in> set xs \<Longrightarrow> f (g x) = Ok x) \<Longrightarrow> rmap f (map g xs) = Ok xs"
  by (induction xs) auto

lemma parse_format_mac:
  assumes "length mac = 6"
  shows "parse_mac_address (format_mac_address mac) = Ok mac"
proof -
  have "split_on CHR '':'' (format_mac_address mac) = map format_02X mac"
    unfolding format_mac_address_def
  proof (rule split_on_join)
    show "map format_02X mac \<noteq> []" using assms by auto
    show "CHR '':'' \<notin> set x" if x: "x \<in> set (map format_02X mac)" for x
    proof -
      obtain b where b: "x = format_02X b" using x by auto
      have "unat b < 256" using unsigned_less [of b] by simp
      then have "unat b div 16 < 16" "unat b mod 16 < 16" by simp_all
      then show ?thesis
        using hex_upper_neq [of "unat b div 16"] hex_upper_neq [of "unat b mod 16"]
        by (auto simp: b format_02X_def)
    qed
  qed
  then show ?thesis
    using assms by (simp add: parse_mac_address_def Let_def rmap_map_Ok parse_format_02X)
qed

lemma parse_mac_length: "parse_mac_address s = Ok m \<Longrightarrow> length m = 6"
  by (auto simp: parse_mac_address_def Let_def rmap_eq_Ok split: if_splits dest: list_all2_lengthD)

text \<open>
  MAC addresses: every address of six bytes is printed as six two-digit groups that are
  parsed back to the same six bytes, and the parser only ever returns six bytes.
\<close>

lemma mac_address_roundtrip:
  "(length mac = 6 \<longrightarrow> parse_mac_address (format_mac_address mac) = Ok mac) \<and>
   (\<forall>m. parse_mac_address s = Ok m \<longrightarrow> length m = 6)"
  using parse_format_mac parse_mac_length by blast

lemma mac_address_roundtrip_witness:
  "parse_mac_address (format_mac_address [0, 1, 0xAB, 0x10, 0xFF, 0x7F]) = Ok [0, 1, 0xAB, 0x10, 0xFF, 0x7F]"
  using mac_address_roundtrip [of "[0, 1, 0xAB, 0x10, 0xFF, 0x7F]" "[]"] by simp

end
