(* ===== verification/Client_Audio.thy ===== *)
theory Client_Audio
  imports Client_Conn
begin

text \<open>
  \<open>extender-client/src/audio.rs\<close>: the USB audio driver: isochronous capture and playback and
  the class control requests. The packet schedule of a playback transfer is \<open>out_descs\<close>; its
  running offset, a \<open>u32\<close> in the code, is a natural number here (32 packets of at most 65535
  bytes stay below \<open>2 ^ 32\<close>).
\<close>

definition DEFAULT_EP_PLAYBACK :: u8 where "DEFAULT_EP_PLAYBACK = 0x01"
definition DEFAULT_EP_CAPTURE :: u8 where "DEFAULT_EP_CAPTURE = 0x82"
definition DEFAULT_FEATURE_UNIT_ID :: u8 where "DEFAULT_FEATURE_UNIT_ID = 0x02"
definition SET_CUR :: u8 where "SET_CUR = 0x01"
definition GET_CUR :: u8 where "GET_CUR = 0x81"
definition VOLUME_CONTROL :: u8 where "VOLUME_CONTROL = 0x02"
definition MUTE_CONTROL :: u8 where "MUTE_CONTROL = 0x01"

record AudioDevice = usb_conn +
  aud_ep_playback :: "u8 option"
  aud_ep_capture :: "u8 option"
  aud_ep_notify :: "u8 option"
  aud_control_interface :: u8
  aud_streaming_interface :: u8
  aud_sample_rate :: u32
  aud_channels :: u8
  aud_bit_depth :: u8
  aud_max_packet_size :: u16

definition audio_connect :: "SocketAddr \<Rightarrow> string \<Rightarrow> tcp \<Rightarrow> (AudioDevice, ClientError) result" where
  "audio_connect addr bus_id outcome =
     rbind (tcp_connect addr outcome) (\<lambda>(reader, writer).
     rbind (import_exchange bus_id reader writer) (\<lambda>(device, reader', writer').
     Ok \<lparr>c_reader = reader', c_writer = writer', c_devid = device_id device, c_next_seqnum = 1,
         aud_ep_playback = Some DEFAULT_EP_PLAYBACK, aud_ep_capture = Some DEFAULT_EP_CAPTURE,
         aud_ep_notify = None, aud_control_interface = 0, aud_streaming_interface = 1,
         aud_sample_rate = 48000, aud_channels = 2, aud_bit_depth = 16, aud_max_packet_size = 192\<rparr>))"

section \<open>Setup packets and sample rates\<close>

definition sample_rate_set_cur_setup :: "u8 \<Rightarrow> bytes" where
  "sample_rate_set_cur_setup ep_addr = [0x22, SET_CUR, 0x00, 0x01, ep_addr, 0x00, 0x03, 0x00]"

definition sample_rate_get_cur_setup :: "u8 \<Rightarrow> bytes" where
  "sample_rate_get_cur_setup ep_addr = [0xA2, GET_CUR, 0x00, 0x01, ep_addr, 0x00, 0x03, 0x00]"

definition volume_set_cur_setup :: "u8 \<Rightarrow> u8 \<Rightarrow> bytes" where
  "volume_set_cur_setup channel feature_unit_id =
     [0x21, SET_CUR, channel, feature_unit_id, VOLUME_CONTROL, 0x00, 0x02, 0x00]"

definition mute_set_cur_setup :: "u8 \<Rightarrow> u8 \<Rightarrow> bytes" where
  "mute_set_cur_setup channel feature_unit_id =
     [0x21, SET_CUR, channel, feature_unit_id, MUTE_CONTROL, 0x00, 0x01, 0x00]"

definition encode_sample_rate :: "u32 \<Rightarrow> bytes" where
  "encode_sample_rate rate =
     [ucast (rate AND 0xFF), ucast (drop_bit 8 rate AND 0xFF), ucast (drop_bit 16 rate AND 0xFF)]"

definition decode_sample_rate :: "bytes \<Rightarrow> u32" where
  "decode_sample_rate data =
     ucast (byte_at data 0) OR push_bit 8 (ucast (byte_at data 1)) OR
     push_bit 16 (ucast (byte_at data 2))"

definition common_rates :: "u32 list" where
  "common_rates = [8000, 16000, 22050, 44100, 48000, 96000]"

section \<open>Isochronous packets\<close>

definition in_descs :: "nat \<Rightarrow> u16 \<Rightarrow> IsoPacketDescriptor list" where
  "in_descs num_packets max_packet_size =
     map (\<lambda>i. \<lparr>iso_offset = word_of_nat i * ucast max_packet_size,
                iso_length = ucast max_packet_size, iso_actual_length = 0, iso_status = 0\<rparr>)
       [0..<num_packets]"

fun out_descs :: "nat \<Rightarrow> nat \<Rightarrow> nat \<Rightarrow> nat \<Rightarrow> IsoPacketDescriptor list" where
  "out_descs 0 max_pkt len offset = []"
| "out_descs (Suc n) max_pkt len offset =
     (let remaining = len - offset; pkt_len = min remaining max_pkt in
      \<lparr>iso_offset = word_of_nat offset, iso_length = word_of_nat pkt_len, iso_actual_length = 0,
       iso_status = 0\<rparr> # out_descs n max_pkt len (offset + pkt_len))"

definition num_packets :: "nat \<Rightarrow> nat \<Rightarrow> nat" where
  "num_packets len max_pkt = min ((len + max_pkt - 1) div max_pkt) 32"

definition iso_cmd ::
  "u32 \<Rightarrow> u32 \<Rightarrow> u32 \<Rightarrow> u8 \<Rightarrow> u32 \<Rightarrow> bytes \<Rightarrow> IsoPacketDescriptor list \<Rightarrow> CmdSubmit" where
  "iso_cmd seqnum devid direction ep len buf descs =
     \<lparr>cs_header = \<lparr>hdr_command = Command_as_u32 CmdSubmit_Code, hdr_seqnum = seqnum,
                    hdr_devid = devid, hdr_direction = direction, hdr_ep = ucast (ep AND 0x0F)\<rparr>,
      cs_transfer_flags = 0, cs_transfer_buffer_length = len, cs_start_frame = 0,
      cs_number_of_packets = word_of_nat (length descs), cs_interval = 1, cs_setup = zero_setup,
      cs_transfer_buffer = buf, cs_iso_packet_descriptors = descs\<rparr>"

section \<open>Operations\<close>

definition audio_send_control_out :: "bytes \<Rightarrow> bytes \<Rightarrow> (AudioDevice, unit) op" where
  "audio_send_control_out setup data = transfer_out Audio 0 setup data"

definition audio_send_control_in :: "bytes \<Rightarrow> u16 \<Rightarrow> (AudioDevice, bytes) op" where
  "audio_send_control_in setup len = transfer_in Audio 0 setup (ucast len)"

definition audio_initialize :: "(AudioDevice, unit) op" where
  "audio_initialize =
     cbind (audio_send_control_in [0x80, 0x06, 0x00, 0x01, 0x00, 0x00, 0x12, 0x00] 18) (\<lambda>_. creturn ())"

definition read_audio :: "bytes \<Rightarrow> (AudioDevice, usize \<times> bytes) op" where
  "read_audio buf =
     cget (\<lambda>d. case aud_ep_capture d of
       None \<Rightarrow> cerr (Audio NoCaptureEndpoint)
     | Some ep \<Rightarrow>
         let max_pkt = unat (aud_max_packet_size d) in
         if max_pkt = 0 then cerr (Audio ZeroMaxPacketSize)
         else
         let n = num_packets (length buf) max_pkt; total_len = n * max_pkt;
             descs = in_descs n (aud_max_packet_size d) in
         cbind next_seqnum (\<lambda>seqnum.
         cbind (send_cmd (iso_cmd seqnum (c_devid d) 1 ep (word_of_nat total_len) [] descs)) (\<lambda>_.
         cbind (read_reply Audio) (\<lambda>data.
           let copy_len = min (length data) (length buf)
           in creturn (copy_len, take copy_len data @ drop copy_len buf)))))"

definition write_audio :: "bytes \<Rightarrow> (AudioDevice, usize) op" where
  "write_audio data =
     cget (\<lambda>d. case aud_ep_playback d of
       None \<Rightarrow> cerr (Audio NoPlaybackEndpoint)
     | Some ep \<Rightarrow>
         let max_pkt = unat (aud_max_packet_size d) in
         if max_pkt = 0 then cerr (Audio ZeroMaxPacketSize)
         else
         let descs = out_descs (num_packets (length data) max_pkt) max_pkt (length data) 0 in
         cbind next_seqnum (\<lambda>seqnum.
         cbind (send_cmd (iso_cmd seqnum (c_devid d) 0 ep (word_of_nat (length data)) data descs)) (\<lambda>_.
         cbind (read_reply Audio) (\<lambda>_. creturn (length data)))))"

definition audio_endpoint :: "AudioDevice \<Rightarrow> u8 option" where
  "audio_endpoint d = (case aud_ep_playback d of Some ep \<Rightarrow> Some ep | None \<Rightarrow> aud_ep_capture d)"

definition set_sample_rate :: "u32 \<Rightarrow> (AudioDevice, unit) op" where
  "set_sample_rate rate =
     cget (\<lambda>d. case audio_endpoint d of
       None \<Rightarrow> cerr (Audio NoAudioEndpoint)
     | Some ep_addr \<Rightarrow>
         cbind (audio_send_control_out (sample_rate_set_cur_setup ep_addr) (encode_sample_rate rate)) (\<lambda>_.
         cmodify (\<lambda>d. d\<lparr>aud_sample_rate := rate\<rparr>)))"

definition get_sample_rates :: "(AudioDevice, u32 list) op" where
  "get_sample_rates =
     cget (\<lambda>d. case audio_endpoint d of
       None \<Rightarrow> cerr (Audio NoAudioEndpoint)
     | Some ep_addr \<Rightarrow>
         cbind (audio_send_control_in (sample_rate_get_cur_setup ep_addr) 3) (\<lambda>response.
         if length response \<ge> 3
         then let current_rate = decode_sample_rate response
              in creturn (current_rate # filter (\<lambda>r. r \<noteq> current_rate) common_rates)
         else creturn common_rates))"

definition set_volume :: "u8 \<Rightarrow> u16 \<Rightarrow> (AudioDevice, unit) op" where
  "set_volume channel volume =
     audio_send_control_out (volume_set_cur_setup channel DEFAULT_FEATURE_UNIT_ID) (u16_to_le_bytes volume)"

definition set_mute :: "u8 \<Rightarrow> bool \<Rightarrow> (AudioDevice, unit) op" where
  "set_mute channel mute =
     audio_send_control_out (mute_set_cur_setup channel DEFAULT_FEATURE_UNIT_ID) [if mute then 1 else 0]"

section \<open>The discipline of the connection\<close>

lemmas audio_ops = audio_send_control_out_def audio_send_control_in_def audio_initialize_def
  set_sample_rate_def get_sample_rates_def set_volume_def set_mute_def Let_def

lemma length_audio_setups [simp]:
  "length (sample_rate_set_cur_setup e) = 8" "length (sample_rate_get_cur_setup e) = 8"
  "length (volume_set_cur_setup c f) = 8" "length (mute_set_cur_setup c f) = 8"
  "length (encode_sample_rate r) = 3"
  by (simp_all add: sample_rate_set_cur_setup_def sample_rate_get_cur_setup_def
    volume_set_cur_setup_def mute_set_cur_setup_def encode_sample_rate_def)

lemma audio_sizes: "3 \<le> max_transfer" "2 \<le> max_transfer" "Suc 0 \<le> max_transfer"
  "(ucast (18 :: u16) :: u32) \<le> MAX_TRANSFER_BUFFER_LENGTH" "(ucast (3 :: u16) :: u32) \<le> MAX_TRANSFER_BUFFER_LENGTH"
  by (simp_all add: MAX_TRANSFER_BUFFER_LENGTH_def)

interpretation audio_init: driver_operation audio_initialize True
  by unfold_locales (auto simp: audio_ops audio_sizes [simplified] intro!: moves_cbind [where q = False] moves_transfers moves_creturn)

interpretation audio_rate: driver_operation "set_sample_rate rate" True for rate
  by unfold_locales
     (auto simp: audio_ops audio_sizes conn_of_def split: option.splits
       intro!: moves_cget moves_cbind [where q = False] moves_transfers moves_cmodify moves_cerr)

interpretation audio_rates: driver_operation get_sample_rates True
  by unfold_locales
     (auto simp: audio_ops audio_sizes [simplified] split: option.splits
       intro!: moves_cget moves_cbind [where q = False] moves_transfers moves_creturn moves_cerr)

interpretation audio_volume: driver_operation "set_volume channel volume" True for channel volume
  by unfold_locales (auto simp: audio_ops audio_sizes intro!: moves_transfers)

interpretation audio_mute: driver_operation "set_mute channel mute" True for channel mute
  by unfold_locales (auto simp: audio_ops audio_sizes intro!: moves_transfers)

section \<open>Isochronous transfers\<close>

definition packet_bytes :: "bytes \<Rightarrow> IsoPacketDescriptor \<Rightarrow> bytes" where
  "packet_bytes data p = take (unat (iso_length p)) (drop (unat (iso_offset p)) data)"

lemma length_out_descs [simp]: "length (out_descs k max_pkt len offset) = k"
  by (induction k max_pkt len offset rule: out_descs.induct) (simp_all add: Let_def)

lemma unat_u32: "n < 2 ^ 32 \<Longrightarrow> unat (word_of_nat n :: u32) = n"
  by (simp add: unsigned_of_nat take_bit_nat_eq_self)

lemma out_descs_bytes:
  "offset \<le> length data \<Longrightarrow> length data < 2 ^ 32 \<Longrightarrow>
     concat (map (packet_bytes data) (out_descs k max_pkt (length data) offset))
       = take (k * max_pkt) (drop offset data)"
proof (induction k arbitrary: offset)
  case (Suc k)
  let ?n = "min (length data - offset) max_pkt"
  have "take ?n (drop offset data) = take max_pkt (drop offset data)"
    by (simp add: min_def)
  moreover have "take (k * max_pkt) (drop (offset + ?n) data)
      = take (k * max_pkt) (drop max_pkt (drop offset data))"
    by (simp add: min_def add.commute)
  ultimately show ?case
    using Suc.prems Suc.IH [of "offset + ?n"]
    by (simp add: Let_def packet_bytes_def unat_u32 take_add del: drop_drop)
qed simp

lemma out_descs_small:
  "p \<in> set (out_descs k max_pkt len offset) \<Longrightarrow> unat (iso_length p) \<le> max_pkt"
proof (induction k max_pkt len offset rule: out_descs.induct)
  case (2 k max_pkt len offset)
  have "unat (word_of_nat n :: u32) \<le> n" for n
    by (simp add: unsigned_of_nat take_bit_nat_less_eq_self)
  then have "unat (word_of_nat (min (len - offset) max_pkt) :: u32) \<le> max_pkt"
    by (meson le_trans min.cobounded2)
  then show ?case using 2 by (auto simp: Let_def)
qed simp

lemma num_packets_cover:
  assumes "0 < max_pkt"
  shows "take (num_packets (length data) max_pkt * max_pkt) data = take (32 * max_pkt) data"
proof -
  let ?n = "length data + max_pkt - 1"
  have "?n = ?n div max_pkt * max_pkt + ?n mod max_pkt" "?n mod max_pkt < max_pkt"
    using assms by simp_all
  then have "length data \<le> ?n div max_pkt * max_pkt" by linarith
  moreover have "length data \<le> 32 * max_pkt" if "?n div max_pkt \<le> 32"
    using that calculation by (meson le_trans mult_le_mono1)
  ultimately show ?thesis by (auto simp: num_packets_def min_def)
qed

lemma num_packets_le: "num_packets len max_pkt \<le> 32"
  by (simp add: num_packets_def)

lemma iso_cmd_ok:
  assumes "length descs \<le> 32"
  shows "length buf \<le> max_transfer \<Longrightarrow>
           CmdSubmit_ok (iso_cmd n d 0 ep (word_of_nat (length buf)) buf descs)"
    and "len \<le> MAX_TRANSFER_BUFFER_LENGTH \<Longrightarrow> CmdSubmit_ok (iso_cmd n d 1 ep len [] descs)"
proof -
  have "word_of_nat (length descs) \<noteq> NON_ISO_PACKETS_SENTINEL"
    using assms unat_u32 [of "length descs"] by (auto simp: NON_ISO_PACKETS_SENTINEL_def)
  then show "length buf \<le> max_transfer \<Longrightarrow>
      CmdSubmit_ok (iso_cmd n d 0 ep (word_of_nat (length buf)) buf descs)"
    and "len \<le> MAX_TRANSFER_BUFFER_LENGTH \<Longrightarrow> CmdSubmit_ok (iso_cmd n d 1 ep len [] descs)"
    using assms
    by (auto simp: CmdSubmit_ok_def iso_cmd_def unat_payload iso_packets_ok_def is_iso_transfer_def
      word_le_nat_alt unat_u32 MAX_ISO_PACKETS_def unsigned_eq_0_iff [symmetric])
qed

lemma iso_cmd_header [simp]:
  "hdr_seqnum (cs_header (iso_cmd n d dir ep len buf descs)) = n"
  "hdr_devid (cs_header (iso_cmd n d dir ep len buf descs)) = d"
  by (simp_all add: iso_cmd_def)

lemma write_audio_Ok:
  "write_audio data d = Ok (n, d') \<longleftrightarrow>
     (\<exists>ep w ret r. aud_ep_playback d = Some ep \<and> aud_max_packet_size d \<noteq> 0 \<and> n = length data \<and>
        write_all (CmdSubmit_encode (iso_cmd (c_next_seqnum d) (c_devid d) 0 ep
            (word_of_nat (length data)) data
            (out_descs (num_packets (length data) (unat (aud_max_packet_size d)))
               (unat (aud_max_packet_size d)) (length data) 0))) (c_writer d) = (w, True) \<and>
        read_urb_message (c_reader d) = Ok (RetSubmit ret, r) \<and> rs_status ret = 0 \<and>
        d' = d\<lparr>c_writer := w, c_next_seqnum := succ_seqnum (c_next_seqnum d), c_reader := r\<rparr>)"
  by (auto simp: write_audio_def client_eval next_seqnum_def Let_def rbind_eq_Ok send_cmd_Ok
    read_reply_Ok unsigned_eq_0_iff split: option.splits)

lemma read_audio_Ok:
  "read_audio buf d = Ok (x, d') \<Longrightarrow>
     \<exists>ep w ret r. aud_ep_capture d = Some ep \<and> aud_max_packet_size d \<noteq> 0 \<and>
        x = (min (length (rs_transfer_buffer ret)) (length buf),
             take (min (length (rs_transfer_buffer ret)) (length buf)) (rs_transfer_buffer ret) @
             drop (min (length (rs_transfer_buffer ret)) (length buf)) buf) \<and>
        write_all (CmdSubmit_encode (iso_cmd (c_next_seqnum d) (c_devid d) 1 ep
            (word_of_nat (num_packets (length buf) (unat (aud_max_packet_size d)) * unat (aud_max_packet_size d))) []
            (in_descs (num_packets (length buf) (unat (aud_max_packet_size d)))
               (aud_max_packet_size d)))) (c_writer d) = (w, True) \<and>
        read_urb_message (c_reader d) = Ok (RetSubmit ret, r) \<and> rs_status ret = 0 \<and>
        d' = d\<lparr>c_writer := w, c_next_seqnum := succ_seqnum (c_next_seqnum d), c_reader := r\<rparr>"
  by (auto simp: read_audio_def client_eval next_seqnum_def Let_def rbind_eq_Ok send_cmd_Ok
    read_reply_Ok unsigned_eq_0_iff split: option.splits if_splits)

interpretation audio_write: driver_operation "write_audio data" "length data \<le> max_transfer" for data
proof (unfold_locales, rule movesI)
  fix d n d'
  assume fits: "length data \<le> max_transfer" and "write_audio data d = Ok (n, d')"
  then obtain ep w ret r where run: "write_all (CmdSubmit_encode (iso_cmd (c_next_seqnum d) (c_devid d) 0 ep
      (word_of_nat (length data)) data (out_descs (num_packets (length data) (unat (aud_max_packet_size d)))
         (unat (aud_max_packet_size d)) (length data) 0))) (c_writer d) = (w, True)"
    "read_urb_message (c_reader d) = Ok (RetSubmit ret, r)" "rs_status ret = 0"
    "d' = d\<lparr>c_writer := w, c_next_seqnum := succ_seqnum (c_next_seqnum d), c_reader := r\<rparr>"
    by (auto simp: write_audio_Ok)
  then show "\<exists>evs. follows (conn_of d) evs (conn_of d') \<and> awaiting False evs = Some False"
    using iso_cmd_ok(1) [OF _ fits] num_packets_le
    by (intro exI [of _ "[Request (iso_cmd (c_next_seqnum d) (c_devid d) 0 ep (word_of_nat (length data))
          data (out_descs (num_packets (length data) (unat (aud_max_packet_size d)))
           (unat (aud_max_packet_size d)) (length data) 0)), Reply ret]"])
       (simp add: iso_cmd_header)
qed

text \<open>A capture transfer asks for whole packets, so up to one packet more than the buffer holds.\<close>

lemma num_packets_total: "0 < max_pkt \<Longrightarrow> num_packets len max_pkt * max_pkt \<le> len + max_pkt"
proof -
  have "num_packets len max_pkt * max_pkt \<le> (len + max_pkt - 1) div max_pkt * max_pkt"
    by (simp add: num_packets_def)
  also have "\<dots> \<le> len + max_pkt" using div_times_less_eq_dividend [of "len + max_pkt - 1" max_pkt] by linarith
  finally show ?thesis .
qed

interpretation audio_read: driver_operation "read_audio buf" "length buf + 65535 \<le> max_transfer" for buf
proof (unfold_locales, rule movesI)
  fix d x d'
  assume fits: "length buf + 65535 \<le> max_transfer" and "read_audio buf d = Ok (x, d')"
  then obtain ep w ret r where run: "aud_max_packet_size d \<noteq> 0"
    "write_all (CmdSubmit_encode (iso_cmd (c_next_seqnum d) (c_devid d) 1 ep
      (word_of_nat (num_packets (length buf) (unat (aud_max_packet_size d)) * unat (aud_max_packet_size d))) []
      (in_descs (num_packets (length buf) (unat (aud_max_packet_size d))) (aud_max_packet_size d)))) (c_writer d) = (w, True)"
    "read_urb_message (c_reader d) = Ok (RetSubmit ret, r)" "rs_status ret = 0"
    "d' = d\<lparr>c_writer := w, c_next_seqnum := succ_seqnum (c_next_seqnum d), c_reader := r\<rparr>"
    using read_audio_Ok by metis
  let ?total = "num_packets (length buf) (unat (aud_max_packet_size d)) * unat (aud_max_packet_size d)"
  have "unat (aud_max_packet_size d) < 65536" using unsigned_less [of "aud_max_packet_size d"] by simp
  moreover have "?total \<le> length buf + unat (aud_max_packet_size d)"
    using run(1) by (intro num_packets_total) (simp add: word_neq_0_conv word_less_nat_alt)
  ultimately have total: "?total \<le> max_transfer" using fits by linarith
  then have "(word_of_nat ?total :: u32) \<le> MAX_TRANSFER_BUFFER_LENGTH"
    using unat_payload [of "replicate ?total 0"] by (simp add: word_le_nat_alt)
  then have "CmdSubmit_ok (iso_cmd (c_next_seqnum d) (c_devid d) 1 ep (word_of_nat ?total) []
      (in_descs (num_packets (length buf) (unat (aud_max_packet_size d))) (aud_max_packet_size d)))"
    by (intro iso_cmd_ok(2)) (simp_all add: in_descs_def num_packets_le)
  with run show "\<exists>evs. follows (conn_of d) evs (conn_of d') \<and> awaiting False evs = Some False"
    by (intro exI [of _ "[Request (iso_cmd (c_next_seqnum d) (c_devid d) 1 ep (word_of_nat ?total) []
          (in_descs (num_packets (length buf) (unat (aud_max_packet_size d))) (aud_max_packet_size d))), Reply ret]"])
       (simp add: iso_cmd_header)
qed

text \<open>
  C30: What a playback transfer schedules. A call of \<open>write_audio\<close> that returns has sent one
  request, which the server reads back with the whole sample data as payload; its packets are at
  most 32, none larger than the maximum packet size of the endpoint, they are numbered without
  gap or overlap and carry the first \<open>32 * max_packet_size\<close> bytes of the data, in order. The
  call reports all bytes as written, so whatever lies beyond those packets is silently not
  played.
\<close>

theorem playback_schedule:
  assumes "write_audio data d = Ok (n, d')" and "length data \<le> unat MAX_TRANSFER_BUFFER_LENGTH"
  shows "n = length data \<and>
    (\<exists>req. sent (c_writer d') = sent (c_writer d) @ UrbMessage_encode (CmdSubmit req) \<and>
       (\<forall>s. read_urb_message (feed (UrbMessage_encode (CmdSubmit req)) s) = Ok (CmdSubmit req, s)) \<and>
       hdr_direction (cs_header req) = 0 \<and> cs_transfer_buffer req = data \<and>
       length (cs_iso_packet_descriptors req) \<le> 32 \<and>
       (\<forall>p \<in> set (cs_iso_packet_descriptors req). unat (iso_length p) \<le> unat (aud_max_packet_size d)) \<and>
       concat (map (packet_bytes data) (cs_iso_packet_descriptors req))
         = take (32 * unat (aud_max_packet_size d)) data)"
proof -
  let ?m = "unat (aud_max_packet_size d)"
  let ?descs = "out_descs (num_packets (length data) ?m) ?m (length data) 0"
  obtain ep w where ep: "aud_max_packet_size d \<noteq> 0" "n = length data"
    and w: "write_all (CmdSubmit_encode (iso_cmd (c_next_seqnum d) (c_devid d) 0 ep
      (word_of_nat (length data)) data ?descs)) (c_writer d) = (w, True)" "c_writer d' = w"
    using assms(1) by (auto simp: write_audio_Ok)
  let ?req = "iso_cmd (c_next_seqnum d) (c_devid d) 0 ep (word_of_nat (length data)) data ?descs"
  have ok: "UrbMessage_ok (CmdSubmit ?req)"
    using iso_cmd_ok(1) assms(2) num_packets_le by simp
  have "length data < 2 ^ 32" using assms(2) by (simp add: MAX_TRANSFER_BUFFER_LENGTH_def)
  moreover have "0 < ?m" using ep(1) by (simp add: unat_gt_0)
  ultimately have "concat (map (packet_bytes data) ?descs) = take (32 * ?m) data"
    by (simp add: out_descs_bytes num_packets_cover)
  then show ?thesis
    using ep(2) w write_all_sent [OF w(1)] urb_stream.read_encode [OF ok] num_packets_le
    by (intro conjI exI [of _ ?req]) (auto simp: iso_cmd_def dest: out_descs_small)
qed

definition sample_speaker :: AudioDevice where
  "sample_speaker =
     \<lparr>c_reader = feed (RetSubmit_encode
        \<lparr>rs_header = \<lparr>hdr_command = 3, hdr_seqnum = 1, hdr_devid = 0, hdr_direction = 0, hdr_ep = 0\<rparr>,
         rs_status = 0, rs_actual_length = 0, rs_start_frame = 0, rs_number_of_packets = 0,
         rs_error_count = 0, rs_transfer_buffer = [], rs_iso_packet_descriptors = []\<rparr>)
        \<lparr>avail = [], end_error = UnexpectedEof\<rparr>,
      c_writer = \<lparr>sent = [], room = None\<rparr>, c_devid = 0x10002, c_next_seqnum = 1,
      aud_ep_playback = Some 1, aud_ep_capture = None, aud_ep_notify = None,
      aud_control_interface = 0, aud_streaming_interface = 1, aud_sample_rate = 48000,
      aud_channels = 2, aud_bit_depth = 16, aud_max_packet_size = 2\<rparr>"

lemma sample_speaker_plays: "\<exists>d'. write_audio data sample_speaker = Ok (length data, d')"
proof -
  let ?ret = "\<lparr>rs_header = \<lparr>hdr_command = 3, hdr_seqnum = 1, hdr_devid = 0, hdr_direction = 0, hdr_ep = 0\<rparr>,
         rs_status = 0, rs_actual_length = 0, rs_start_frame = 0, rs_number_of_packets = 0,
         rs_error_count = 0, rs_transfer_buffer = [], rs_iso_packet_descriptors = []\<rparr>"
  have "UrbMessage_ok (RetSubmit ?ret)"
    by (simp add: RetSubmit_ok_def iso_packets_ok_def is_iso_transfer_def)
  from urb_stream.read_encode [OF this] show ?thesis
    by (simp add: write_audio_Ok write_all_def) (simp add: sample_speaker_def)
qed

theorem playback_schedule_witness:
  "\<exists>d' req. write_audio (replicate 70 7) sample_speaker = Ok (70, d') \<and>
     sent (c_writer d') = UrbMessage_encode (CmdSubmit req) \<and>
     concat (map (packet_bytes (replicate 70 7)) (cs_iso_packet_descriptors req)) = replicate 64 7"
proof -
  obtain d' where run: "write_audio (replicate 70 7) sample_speaker = Ok (70, d')"
    using sample_speaker_plays [of "replicate 70 7"] by auto
  have "length (replicate 70 (7 :: u8)) \<le> unat MAX_TRANSFER_BUFFER_LENGTH"
    by (simp add: MAX_TRANSFER_BUFFER_LENGTH_def)
  from playback_schedule [OF run this] run show ?thesis
    by (auto simp: sample_speaker_def)
qed

end
