(* ===== verification/Client_Drivers.thy ===== *)
theory Client_Drivers
  imports Client_Storage Client_Hid Client_Serial Client_Network Client_Audio
begin

text \<open>
  What the five class drivers have in common: each of their operations, when it returns, has
  had a complete conversation with the server.
\<close>

text \<open>
  C28: Every operation of the mass storage, HID, serial, network and audio drivers that talks to the
  device (all public ones after the connection is made) and returns successfully has sent as many requests as it read replies, all replies with status 0; the
  server's reader gets exactly these requests back from the bytes sent, with successive sequence
  numbers and the device id of the connection. Nothing is left unread or unanswered between two
  operations. Payloads are at most the transfer limit of 1 MB (for a network frame with its NTB
  header; a buffer for recorded audio leaves 65535 bytes, since whole packets are requested).
\<close>

theorem drivers_converse:
  assumes data: "length data \<le> unat MAX_TRANSFER_BUFFER_LENGTH"
    and frame: "length frame + 28 \<le> unat MAX_TRANSFER_BUFFER_LENGTH"
    and len: "len \<le> MAX_TRANSFER_BUFFER_LENGTH"
    and capture: "length capture + 65535 \<le> unat MAX_TRANSFER_BUFFER_LENGTH"
  shows "conversational (scsi_command cmd None len) \<and> conversational (scsi_command cmd (Some data) len) \<and>
    conversational ms_initialize \<and> conversational (read_blocks lba num data) \<and>
    conversational (write_blocks lba num data) \<and>
    conversational get_report_descriptor \<and> conversational (set_idle duration report_id) \<and>
    conversational (set_protocol protocol) \<and> conversational (set_report data) \<and>
    conversational hid_initialize \<and> conversational read_report \<and> conversational (write_report data) \<and>
    conversational (set_line_coding coding) \<and> conversational (set_control_line_state dtr rts) \<and>
    conversational (serial_initialize baud) \<and> conversational (serial_read data) \<and>
    conversational (serial_write data) \<and>
    conversational (set_packet_filter packet_filter) \<and>
    conversational network_initialize \<and> conversational read_frame \<and> conversational (write_frame frame) \<and>
    conversational audio_initialize \<and> conversational (set_sample_rate rate) \<and>
    conversational get_sample_rates \<and> conversational (set_volume channel volume) \<and>
    conversational (set_mute channel mute) \<and> conversational (write_audio data) \<and>
    conversational (read_audio capture)"
  using assms
  by (intro conjI scsi.seen_by_server storage_init.seen_by_server storage_read.seen_by_server
      storage_write.seen_by_server hid_descriptor.seen_by_server hid_idle.seen_by_server
      hid_protocol.seen_by_server hid_report.seen_by_server serial_coding.seen_by_server
      serial_lines.seen_by_server network_filter.seen_by_server audio_read.seen_by_server hid_init.seen_by_server hid_read.seen_by_server
      hid_write.seen_by_server serial_init.seen_by_server serial_in.seen_by_server
      serial_out.seen_by_server network_init.seen_by_server network_in.seen_by_server
      network_out.seen_by_server audio_init.seen_by_server audio_rate.seen_by_server
      audio_rates.seen_by_server audio_volume.seen_by_server audio_mute.seen_by_server
      audio_write.seen_by_server) auto

theorem drivers_converse_witness:
  "\<exists>d' reqs rets. write_audio [1, 2] sample_speaker = Ok (2, d') \<and>
     sent (c_writer d') = concat (map (UrbMessage_encode \<circ> CmdSubmit) reqs) \<and>
     repeat_read (length reqs) read_urb_message (c_reader sample_speaker)
       = Ok (map RetSubmit (rets :: RetSubmit list), c_reader d') \<and>
     conversational (scsi_command (Read10 0 1) None 512) \<and> conversational (write_frame [0, 1, 2])"
proof -
  have fits: "length [1, 2 :: u8] \<le> unat MAX_TRANSFER_BUFFER_LENGTH"
    "length [0, 1, 2 :: u8] + 28 \<le> unat MAX_TRANSFER_BUFFER_LENGTH" "512 \<le> MAX_TRANSFER_BUFFER_LENGTH"
    "length [0 :: u8, 0] + 65535 \<le> unat MAX_TRANSFER_BUFFER_LENGTH"
    by (simp_all add: MAX_TRANSFER_BUFFER_LENGTH_def)
  note all = drivers_converse [OF fits, where cmd = "Read10 0 1"]
  obtain d' where run: "write_audio [1, 2] sample_speaker = Ok (2, d')"
    using sample_speaker_plays [of "[1, 2]"] by auto
  have "conversational (write_audio [1, 2])" using all by blast
  then obtain reqs and rets :: "RetSubmit list"
    where "sent (c_writer d') = sent (c_writer sample_speaker) @ concat (map (UrbMessage_encode \<circ> CmdSubmit) reqs)"
    "repeat_read (length reqs) read_urb_message (c_reader sample_speaker) = Ok (map RetSubmit rets, c_reader d')"
    using run unfolding conversational_def by blast
  then show ?thesis
    using run all by (intro exI [of _ d'] exI [of _ reqs] exI [of _ rets]) (simp add: sample_speaker_def)
qed

end
