(* ===== verification/Client_Macos.thy ===== *)
theory Client_Macos
  imports Client_Engine
begin

text \<open>
  \<open>extender-client/src/vhci_macos.rs\<close> and the parts of \<open>engine.rs\<close> compiled for macOS: the
  calls into the DriverKit extension, the choice of a device type, attach and detach, and the
  loop that forwards requests of the extension to the server. The extension is reached by one
  system call, \<open>IOConnectCallMethod\<close> (selector, scalars, input bytes; a return code, scalars and
  output bytes come back): the parameter \<open>dext\<close>, over the state of the extension. The bytes it
  returns are in the byte order of the host, which is little-endian on every Mac.
\<close>

section \<open>Calls into the extension\<close>

type_synonym 'k dext = "u32 \<Rightarrow> u64 list \<Rightarrow> bytes \<Rightarrow> 'k \<Rightarrow> (i32 \<times> u64 list \<times> bytes) \<times> 'k"

definition SELECTOR_CREATE_DEVICE :: u32 where "SELECTOR_CREATE_DEVICE = 0"
definition SELECTOR_DESTROY_DEVICE :: u32 where "SELECTOR_DESTROY_DEVICE = 1"
definition SELECTOR_SUBMIT_INPUT :: u32 where "SELECTOR_SUBMIT_INPUT = 2"
definition SELECTOR_GET_PENDING_OUTPUT :: u32 where "SELECTOR_GET_PENDING_OUTPUT = 3"
definition SELECTOR_GET_DEVICE_COUNT :: u32 where "SELECTOR_GET_DEVICE_COUNT = 4"
definition SELECTOR_CONFIGURE_DEVICE :: u32 where "SELECTOR_CONFIGURE_DEVICE = 5"
definition SELECTOR_COMPLETE_REQUEST :: u32 where "SELECTOR_COMPLETE_REQUEST = 10"
definition PENDING_OUTPUT_HEADER_SIZE :: nat where "PENDING_OUTPUT_HEADER_SIZE = 24"
definition CONFIG_DEVICE_DESCRIPTOR :: u32 where "CONFIG_DEVICE_DESCRIPTOR = 6"

definition check_kr :: "i32 \<Rightarrow> string \<Rightarrow> (unit, ClientError) result" where
  "check_kr kr operation = (if kr = 0 then Ok () else Err (IOKit kr (operation @ '' failed'')))"

text \<open>
  Opening the extension: the service that the registry of the system finds for a class, 0 when there
  is none, and the return code with the connection that opening it gives. The dictionary of a class
  may be null.
\<close>

record iokit =
  ik_matching :: "string \<Rightarrow> bool"
  ik_service :: "string \<Rightarrow> u32"
  ik_open :: "u32 \<Rightarrow> i32 \<times> u32"

definition DRIVER_CLASS_NAME :: string where "DRIVER_CLASS_NAME = ''ExtenderDriver''"

definition MacOSVhciDriver_new :: "iokit \<Rightarrow> (u32, ClientError) result" where
  "MacOSVhciDriver_new ik =
     (if \<not> ik_matching ik DRIVER_CLASS_NAME then Err (IOKit (- 1) ''IOServiceMatching returned null'')
      else let service = ik_service ik DRIVER_CLASS_NAME in
        if service = 0
        then Err (VhciNotAvailable ''ExtenderDriver service not found (is the DriverKit extension loaded?)'')
        else case ik_open ik service of
          (kr, connect) \<Rightarrow> if kr \<noteq> 0 then Err (IOKit kr ''IOServiceOpen failed'') else Ok connect)"

definition create_device :: "'k dext \<Rightarrow> u32 \<Rightarrow> u32 \<Rightarrow> 'k \<Rightarrow> (unit, ClientError) result \<times> 'k" where
  "create_device dext device_type dev_id k =
     (case dext SELECTOR_CREATE_DEVICE [ucast device_type, ucast dev_id] [] k of
        ((kr, _), k') \<Rightarrow> (check_kr kr ''create_device'', k'))"

definition destroy_device :: "'k dext \<Rightarrow> u32 \<Rightarrow> 'k \<Rightarrow> (unit, ClientError) result \<times> 'k" where
  "destroy_device dext dev_id k =
     (case dext SELECTOR_DESTROY_DEVICE [ucast dev_id] [] k of
        ((kr, _), k') \<Rightarrow> (check_kr kr ''destroy_device'', k'))"

definition submit_input :: "'k dext \<Rightarrow> u32 \<Rightarrow> u32 \<Rightarrow> bytes \<Rightarrow> 'k \<Rightarrow> (unit, ClientError) result \<times> 'k" where
  "submit_input dext dev_id endpoint data k =
     (case dext SELECTOR_SUBMIT_INPUT
             [ucast dev_id, ucast endpoint, word_of_nat (length data)] data k of
        ((kr, _), k') \<Rightarrow> (check_kr kr ''submit_input'', k'))"

definition complete_request ::
  "'k dext \<Rightarrow> u32 \<Rightarrow> u32 \<Rightarrow> i32 \<Rightarrow> bytes \<Rightarrow> 'k \<Rightarrow> (unit, ClientError) result \<times> 'k" where
  "complete_request dext dev_id request_id status data k =
     (case dext SELECTOR_COMPLETE_REQUEST [ucast dev_id, ucast request_id, ucast status] data k of
        ((kr, _), k') \<Rightarrow> (check_kr kr ''complete_request'', k'))"

definition configure_device ::
  "'k dext \<Rightarrow> u32 \<Rightarrow> u32 \<Rightarrow> bytes \<Rightarrow> 'k \<Rightarrow> (unit, ClientError) result \<times> 'k" where
  "configure_device dext dev_id config_type data k =
     (case dext SELECTOR_CONFIGURE_DEVICE [ucast dev_id, ucast config_type] data k of
        ((kr, _), k') \<Rightarrow> (check_kr kr ''configure_device'', k'))"

definition device_count :: "'k dext \<Rightarrow> 'k \<Rightarrow> (u32, ClientError) result \<times> 'k" where
  "device_count dext k =
     (case dext SELECTOR_GET_DEVICE_COUNT [] [] k of
        ((kr, output, _), k') \<Rightarrow>
          (rbind (check_kr kr ''device_count'') (\<lambda>_.
           Ok (case output of [] \<Rightarrow> 0 | n # _ \<Rightarrow> ucast n)), k'))"

record PendingRequest =
  pr_device_id :: u32
  pr_endpoint :: u32
  pr_request_id :: u32
  pr_data :: bytes

text \<open>The struct output of a \<open>GET_PENDING_OUTPUT\<close> call: a header of 24 bytes and the payload.\<close>

definition parse_pending_output :: "bytes \<Rightarrow> (PendingRequest option, ClientError) result" where
  "parse_pending_output buf =
     (let buf_len = length buf in
      if buf_len = 0 then Ok None
      else if buf_len < PENDING_OUTPUT_HEADER_SIZE
      then Err (IOKit (- 1) (''get_pending_output: short header '' @ dec_string buf_len @ '' < '' @
                             dec_string PENDING_OUTPUT_HEADER_SIZE))
      else
      let dev_id = u32_le_at buf 0; endpoint = u32_le_at buf 4;
          data_length = unat (u32_le_at buf 8); request_id = u32_le_at buf 16;
          payload_end = PENDING_OUTPUT_HEADER_SIZE + data_length in
      if payload_end > buf_len
      then Err (IOKit (- 1) (''get_pending_output: truncated payload '' @ dec_string payload_end @
                             '' > '' @ dec_string buf_len))
      else Ok (Some \<lparr>pr_device_id = dev_id, pr_endpoint = endpoint, pr_request_id = request_id,
                     pr_data = drop PENDING_OUTPUT_HEADER_SIZE (take payload_end buf)\<rparr>))"

definition get_pending_output ::
  "'k dext \<Rightarrow> u32 \<Rightarrow> 'k \<Rightarrow> (PendingRequest option, ClientError) result \<times> 'k" where
  "get_pending_output dext dev_id k =
     (case dext SELECTOR_GET_PENDING_OUTPUT [ucast dev_id] [] k of
        ((kr, _, buf), k') \<Rightarrow>
          (if kr \<noteq> 0 then Err (IOKit kr ''get_pending_output failed'') else parse_pending_output buf, k'))"

section \<open>Device types and descriptors\<close>

definition DEVICE_TYPE_HID :: u32 where "DEVICE_TYPE_HID = 1"
definition DEVICE_TYPE_STORAGE :: u32 where "DEVICE_TYPE_STORAGE = 2"
definition DEVICE_TYPE_SERIAL :: u32 where "DEVICE_TYPE_SERIAL = 3"
definition DEVICE_TYPE_NETWORK :: u32 where "DEVICE_TYPE_NETWORK = 4"
definition DEVICE_TYPE_AUDIO :: u32 where "DEVICE_TYPE_AUDIO = 5"

definition class_type :: "u8 \<Rightarrow> u32 option" where
  "class_type c =
     (if c = 0x03 then Some DEVICE_TYPE_HID
      else if c = 0x08 then Some DEVICE_TYPE_STORAGE
      else if c = 0x02 \<or> c = 0x0A then Some DEVICE_TYPE_SERIAL
      else if c = 0x01 then Some DEVICE_TYPE_AUDIO
      else None)"

definition interface_type :: "u8 \<Rightarrow> u32 option" where
  "interface_type c =
     (case class_type c of
        Some t \<Rightarrow> Some t
      | None \<Rightarrow> if c = 0xE0 then Some DEVICE_TYPE_NETWORK else None)"

fun first_type :: "u8 list \<Rightarrow> u32 option" where
  "first_type [] = None"
| "first_type (c # cs) = (case interface_type c of Some t \<Rightarrow> Some t | None \<Rightarrow> first_type cs)"

definition device_type_from_usb :: "u8 \<Rightarrow> u8 list \<Rightarrow> u32" where
  "device_type_from_usb dev_class interface_classes =
     (case class_type dev_class of
        Some t \<Rightarrow> t
      | None \<Rightarrow>
          if dev_class = 0xEF \<and> list_ex (\<lambda>c. c = 0x02) interface_classes then DEVICE_TYPE_NETWORK
          else case first_type interface_classes of Some t \<Rightarrow> t | None \<Rightarrow> DEVICE_TYPE_HID)"

definition build_device_descriptor :: "UsbDevice \<Rightarrow> bytes" where
  "build_device_descriptor dev =
     (let bcd_usb = (if speed dev \<ge> 5 then 0x0300 else 0x0200 :: u16) in
      [18, 0x01, ucast bcd_usb, ucast (drop_bit 8 bcd_usb), device_class dev, device_subclass dev,
       device_protocol dev, 64, ucast (id_vendor dev), ucast (drop_bit 8 (id_vendor dev)),
       ucast (id_product dev), ucast (drop_bit 8 (id_product dev)), ucast (bcd_device dev),
       ucast (drop_bit 8 (bcd_device dev)), 0, 0, 0, num_configurations dev])"

section \<open>The engine\<close>

text \<open>
  The engine on macOS: its registry and forwarding tasks, both keyed by device id, and the
  extension. A forwarding task is the pair of byte streams it owns.
\<close>

record 'k MacEngine =
  me_dext :: 'k
  me_registry :: "u32 \<rightharpoonup> RegistryEntry"
  me_urb_tasks :: "u32 \<rightharpoonup> stream \<times> sink"

definition new_mac_engine :: "'k \<Rightarrow> 'k MacEngine" where
  "new_mac_engine k = \<lparr>me_dext = k, me_registry = Map.empty, me_urb_tasks = Map.empty\<rparr>"

definition attach_device_macos ::
  "'k dext \<Rightarrow> SocketAddr \<Rightarrow> string \<Rightarrow> tcp \<Rightarrow> 'k MacEngine
     \<Rightarrow> (AttachedDevice, ClientError) result \<times> 'k MacEngine" where
  "attach_device_macos dext addr bus_id outcome en =
     (case rbind (map_err (\<lambda>_. Client_InvalidBusId bus_id) (busid_from_str bus_id)) (\<lambda>_.
           rbind (tcp_connect addr outcome) (\<lambda>(reader, writer). import_exchange bus_id reader writer)) of
        Err e \<Rightarrow> (Err e, en)
      | Panic \<Rightarrow> (Panic, en)
      | Ok (device, reader, writer) \<Rightarrow>
          (let device_type = device_type_from_usb (device_class device) (map interface_class (interfaces device));
               devid = device_id device; spd = speed device in
           case create_device dext device_type devid (me_dext en) of
             (Err e, k) \<Rightarrow> (Err e, en\<lparr>me_dext := k\<rparr>)
           | (Panic, k) \<Rightarrow> (Panic, en\<lparr>me_dext := k\<rparr>)
           | (Ok _, k) \<Rightarrow>
               (case configure_device dext devid CONFIG_DEVICE_DESCRIPTOR (build_device_descriptor device) k of
                  (Ok _, k') \<Rightarrow>
                    (Ok \<lparr>ad_port = devid, ad_busid = bus_id, ad_server_addr = addr,
                         ad_id_vendor = id_vendor device, ad_id_product = id_product device,
                         ad_speed = spd\<rparr>,
                     \<lparr>me_dext = k',
                      me_registry = (me_registry en)(devid \<mapsto>
                        \<lparr>re_server_addr = addr, re_busid = bus_id, re_id_vendor = id_vendor device,
                         re_id_product = id_product device, re_speed = spd\<rparr>),
                      me_urb_tasks = (me_urb_tasks en)(devid \<mapsto> (reader, writer))\<rparr>)
                | (Err e, k') \<Rightarrow> (Err e, en\<lparr>me_dext := snd (destroy_device dext devid k')\<rparr>)
                | (Panic, k') \<Rightarrow> (Panic, en\<lparr>me_dext := k'\<rparr>))))"

definition detach_device_macos ::
  "'k dext \<Rightarrow> u32 \<Rightarrow> 'k MacEngine \<Rightarrow> (unit, ClientError) result \<times> 'k MacEngine" where
  "detach_device_macos dext port en =
     (if me_registry en port = None then (Err (PortNotAttached port), en)
      else let en1 = en\<lparr>me_urb_tasks := (me_urb_tasks en)(port := None)\<rparr> in
      case destroy_device dext port (me_dext en1) of
        (Ok _, k) \<Rightarrow> (Ok (), en1\<lparr>me_dext := k, me_registry := (me_registry en1)(port := None)\<rparr>)
      | (Err e, k) \<Rightarrow> (Err e, en1\<lparr>me_dext := k\<rparr>)
      | (Panic, k) \<Rightarrow> (Panic, en1\<lparr>me_dext := k\<rparr>))"

text \<open>The map is listed in the iteration order of the hash map, an argument.\<close>

definition get_imported_devices_macos :: "u32 list \<Rightarrow> 'k MacEngine \<Rightarrow> ImportedDevice list" where
  "get_imported_devices_macos order en =
     concat (map (\<lambda>devid. case me_registry en devid of
         None \<Rightarrow> []
       | Some reg \<Rightarrow>
           [\<lparr>im_port = devid, im_status = InUse, im_speed = re_speed reg, im_devid = devid,
             im_server_addr = Some (re_server_addr reg), im_busid = Some (re_busid reg)\<rparr>]) order)"

section \<open>Forwarding\<close>

text \<open>
  One turn of \<open>urb_forward_loop\<close>. Its \<open>select!\<close> waits for a message of the server and for a
  timer. When the timer is first, the read in progress is dropped with the bytes it has taken
  (\<open>n\<close> in \<open>forward_tick\<close>).
\<close>

record 'k forward =
  fw_devid :: u32
  fw_reader :: stream
  fw_writer :: sink
  fw_pending :: "u32 \<rightharpoonup> u32"
  fw_next_seqnum :: u32
  fw_dext :: 'k
  fw_running :: bool

definition start_forward :: "u32 \<Rightarrow> stream \<Rightarrow> sink \<Rightarrow> 'k \<Rightarrow> 'k forward" where
  "start_forward devid reader writer k =
     \<lparr>fw_devid = devid, fw_reader = reader, fw_writer = writer, fw_pending = Map.empty,
      fw_next_seqnum = 1, fw_dext = k, fw_running = True\<rparr>"

definition completion_status :: "i32 \<Rightarrow> i32" where
  "completion_status status = (if status = 0 then 0 else 0xE00002BC)"

definition forward_reply :: "'k dext \<Rightarrow> RetSubmit \<Rightarrow> 'k forward \<Rightarrow> 'k forward" where
  "forward_reply dext ret st =
     (let seqnum = hdr_seqnum (rs_header ret) in
      case fw_pending st seqnum of
        None \<Rightarrow> st
      | Some req_id \<Rightarrow>
          st\<lparr>fw_pending := (fw_pending st)(seqnum := None),
             fw_dext := snd (complete_request dext (fw_devid st) req_id
               (completion_status (rs_status ret)) (rs_transfer_buffer ret) (fw_dext st))\<rparr>)"

definition forward_read :: "'k dext \<Rightarrow> 'k forward \<Rightarrow> 'k forward" where
  "forward_read dext st =
     (case read_urb_message (fw_reader st) of
        Ok (msg, reader) \<Rightarrow>
          (case msg of
             RetSubmit ret \<Rightarrow> forward_reply dext ret (st\<lparr>fw_reader := reader\<rparr>)
           | _ \<Rightarrow> st\<lparr>fw_reader := reader\<rparr>)
      | _ \<Rightarrow> st\<lparr>fw_running := False\<rparr>)"

definition forward_cmd :: "u32 \<Rightarrow> u32 \<Rightarrow> PendingRequest \<Rightarrow> CmdSubmit" where
  "forward_cmd seqnum devid req =
     \<lparr>cs_header = \<lparr>hdr_command = Command_as_u32 CmdSubmit_Code, hdr_seqnum = seqnum, hdr_devid = devid,
                    hdr_direction = (if pr_endpoint req AND 0x80 \<noteq> 0 then 1 else 0),
                    hdr_ep = pr_endpoint req AND 0x0F\<rparr>,
      cs_transfer_flags = 0, cs_transfer_buffer_length = word_of_nat (length (pr_data req)),
      cs_start_frame = 0, cs_number_of_packets = NON_ISO_PACKETS_SENTINEL, cs_interval = 0,
      cs_setup = zero_setup, cs_transfer_buffer = pr_data req, cs_iso_packet_descriptors = []\<rparr>"

definition forward_request :: "PendingRequest \<Rightarrow> 'k forward \<Rightarrow> 'k forward" where
  "forward_request req st =
     (let seqnum = fw_next_seqnum st;
          st' = st\<lparr>fw_next_seqnum := seqnum + 1, fw_pending := (fw_pending st)(seqnum \<mapsto> pr_request_id req)\<rparr> in
      case write_urb_message (fw_writer st') (CmdSubmit (forward_cmd seqnum (fw_devid st') req)) of
        (w, Ok _) \<Rightarrow> st'\<lparr>fw_writer := w\<rparr>
      | (w, _) \<Rightarrow> st'\<lparr>fw_writer := w, fw_pending := (fw_pending st')(seqnum := None), fw_running := False\<rparr>)"

definition forward_tick :: "'k dext \<Rightarrow> nat \<Rightarrow> 'k forward \<Rightarrow> 'k forward" where
  "forward_tick dext n st =
     (let st' = st\<lparr>fw_reader := (fw_reader st)\<lparr>avail := drop n (avail (fw_reader st))\<rparr>\<rparr> in
      case get_pending_output dext (fw_devid st') (fw_dext st') of
        (Ok (Some req), k) \<Rightarrow> forward_request req (st'\<lparr>fw_dext := k\<rparr>)
      | (_, k) \<Rightarrow> st'\<lparr>fw_dext := k\<rparr>)"

text \<open>A read that has taken \<open>n\<close> bytes is still in progress.\<close>

definition reading :: "nat \<Rightarrow> stream \<Rightarrow> bool" where
  "reading n s \<longleftrightarrow> n \<le> length (avail s) \<and>
     (\<forall>e. read_urb_message \<lparr>avail = take n (avail s), end_error = e\<rparr> = Err (Io e))"

inductive forward_step :: "'k dext \<Rightarrow> 'k forward \<Rightarrow> 'k forward \<Rightarrow> bool" for dext where
  read: "fw_running st \<Longrightarrow> forward_step dext st (forward_read dext st)"
| tick: "fw_running st \<Longrightarrow> reading n (fw_reader st) \<Longrightarrow> forward_step dext st (forward_tick dext n st)"

section \<open>Attach and detach\<close>

text \<open>
  The reply to an import carries no interfaces, so the type of the virtual device depends on
  the device class alone: a device that leaves its class to its interfaces becomes a HID device.
\<close>

lemma attach_interfaces_empty:
  assumes "import_exchange bus_id reader writer = Ok (device, reader', writer')"
  shows "interfaces device = []"
    and "device_class device = 0 \<Longrightarrow>
      device_type_from_usb (device_class device) (map interface_class (interfaces device)) = DEVICE_TYPE_HID"
proof -
  obtain rep s where r: "read_op_message reader = Ok (RepImport rep, s)" "import_device rep = Some device"
    using assms
    apply (simp only: import_exchange_def rbind_eq_Ok case_prod_unfold)
    apply (elim exE conjE)
    subgoal for _ _ m
      by (cases m; cases "fst m")
         (auto simp: rbind_eq_Ok map_err_eq_Ok ok_or_def split: if_split_asm option.split_asm)
    done
  show "interfaces device = []"
    using op_stream.read_ok [OF r(1)] r(2) by (simp add: OpRepImport_ok_def UsbDevice_bare_def split: if_splits)
  then show "device_type_from_usb (device_class device) (map interface_class (interfaces device)) = DEVICE_TYPE_HID"
    if "device_class device = 0" using that by (simp add: device_type_from_usb_def class_type_def)
qed

text \<open>An attached device is in the registry and has a forwarding task; a detach removes both.\<close>

definition MacEngine_ok :: "'k MacEngine \<Rightarrow> bool" where
  "MacEngine_ok en \<longleftrightarrow> (\<forall>devid. me_registry en devid = None \<longrightarrow> me_urb_tasks en devid = None)"

lemma attach_device_macos_ok:
  assumes "MacEngine_ok en" "attach_device_macos dext addr bus_id outcome en = (r, en')"
  shows "MacEngine_ok en'"
    and "r = Ok a \<Longrightarrow> ad_port a \<in> dom (me_registry en') \<and> ad_port a \<in> dom (me_urb_tasks en')"
    and "\<forall>a. r \<noteq> Ok a \<Longrightarrow> me_registry en' = me_registry en"
  using assms
  by (auto simp: attach_device_macos_def MacEngine_ok_def Let_def
    split: result.splits prod.splits)

lemma detach_device_macos_ok:
  assumes "MacEngine_ok en" "detach_device_macos dext port en = (r, en')"
  shows "MacEngine_ok en'" and "me_urb_tasks en' port = None"
    and "r = Ok u \<Longrightarrow> me_registry en' port = None"
  using assms
  by (auto simp: detach_device_macos_def MacEngine_ok_def Let_def
    split: result.splits prod.splits if_splits)

text \<open>
  The API server makes a new engine for every call, which knows no device: there a detach always
  fails on macOS.
\<close>

lemma detach_on_new_engine:
  "detach_device_macos dext port (new_mac_engine k) = (Err (PortNotAttached port), new_mac_engine k)"
  by (simp add: detach_device_macos_def new_mac_engine_def)

section \<open>Requests on the wire\<close>

lemma forward_cmd_split:
  "CmdSubmit_encode (forward_cmd n d req) =
     CmdSubmit_encode ((forward_cmd n d req)\<lparr>cs_transfer_buffer := []\<rparr>) @ pr_data req"
  by (simp add: CmdSubmit_encode_def forward_cmd_def encode_iso_packets_def is_iso_transfer_def)

lemma forward_cmd_ok:
  assumes "length (pr_data req) \<le> max_transfer"
  shows "pr_endpoint req AND 0x80 = 0 \<Longrightarrow> CmdSubmit_ok (forward_cmd n d req)"
    and "pr_endpoint req AND 0x80 \<noteq> 0 \<Longrightarrow> CmdSubmit_ok ((forward_cmd n d req)\<lparr>cs_transfer_buffer := []\<rparr>)"
  using assms
  by (simp_all add: CmdSubmit_ok_def forward_cmd_def unat_payload iso_packets_ok_def
    is_iso_transfer_def word_le_nat_alt)

lemma forward_request_sent:
  assumes "room (fw_writer st) = None"
  shows "forward_request req st =
    st\<lparr>fw_writer := (fw_writer st)\<lparr>sent := sent (fw_writer st) @
         CmdSubmit_encode (forward_cmd (fw_next_seqnum st) (fw_devid st) req)\<rparr>,
       fw_pending := (fw_pending st)(fw_next_seqnum st \<mapsto> pr_request_id req),
       fw_next_seqnum := fw_next_seqnum st + 1\<rparr>"
  using assms by (simp add: forward_request_def Let_def write_urb_message_def write_buf_def write_all_def)

text \<open>
  C35: What the forwarding loop puts on the wire for a request of the extension. An OUT request
  is read by the server as the command the loop meant, and a reply that carries its sequence
  number completes exactly the extension's request, with the reply's data. For an IN request
  the loop also sends the extension's data, which the server does not expect: it reads the
  command without it and takes these bytes for the start of the next message.
\<close>

theorem forwarded_request_on_the_wire:
  assumes "room (fw_writer st) = None" and "length (pr_data req) \<le> unat MAX_TRANSFER_BUFFER_LENGTH"
  shows "\<exists>bs. sent (fw_writer (forward_request req st)) = sent (fw_writer st) @ bs \<and>
    (let cmd = forward_cmd (fw_next_seqnum st) (fw_devid st) req in
     \<forall>s. read_urb_message (feed bs s) =
       (if pr_endpoint req AND 0x80 = 0 then Ok (CmdSubmit cmd, s)
        else Ok (CmdSubmit (cmd\<lparr>cs_transfer_buffer := []\<rparr>), feed (pr_data req) s))) \<and>
    (\<forall>ret. hdr_seqnum (rs_header ret) = fw_next_seqnum st \<longrightarrow>
       fw_dext (forward_reply dext ret (forward_request req st)) =
         snd (complete_request dext (fw_devid st) (pr_request_id req)
               (completion_status (rs_status ret)) (rs_transfer_buffer ret) (fw_dext st)) \<and>
       fw_pending (forward_reply dext ret (forward_request req st)) =
         (fw_pending st)(fw_next_seqnum st := None))"
proof -
  let ?cmd = "forward_cmd (fw_next_seqnum st) (fw_devid st) req"
  have wire: "read_urb_message (feed (CmdSubmit_encode ?cmd) s) =
      (if pr_endpoint req AND 0x80 = 0 then Ok (CmdSubmit ?cmd, s)
       else Ok (CmdSubmit (?cmd\<lparr>cs_transfer_buffer := []\<rparr>), feed (pr_data req) s))" for s
  proof (cases "pr_endpoint req AND 0x80 = 0")
    case True
    then show ?thesis
      using urb_stream.read_encode [of "CmdSubmit ?cmd" s] forward_cmd_ok(1) [OF assms(2)] by simp
  next
    case False
    then show ?thesis
      using urb_stream.read_encode [of "CmdSubmit (?cmd\<lparr>cs_transfer_buffer := []\<rparr>)" "feed (pr_data req) s"]
        forward_cmd_ok(2) [OF assms(2)] forward_cmd_split [of "fw_next_seqnum st" "fw_devid st" req]
      by simp
  qed
  then show ?thesis
    by (intro exI [of _ "CmdSubmit_encode ?cmd"])
       (simp add: forward_request_sent [OF assms(1)] forward_reply_def Let_def)
qed

section \<open>A timer in the middle of a reply\<close>

lemma tick_idle:
  assumes "get_pending_output dext (fw_devid st) (fw_dext st) = (Ok None, k)" "fw_reader st = feed bs s"
    and "n \<le> length bs"
  shows "forward_tick dext n st = st\<lparr>fw_reader := feed (drop n bs) s, fw_dext := k\<rparr>"
  using assms by (simp add: forward_tick_def Let_def feed_def)

lemma reading_inside:
  assumes "UrbMessage_ok m" "n < length (UrbMessage_encode m)"
  shows "reading n (feed (UrbMessage_encode m) s)"
  using urb_stream.read_truncated [OF assms] assms(2) by (simp add: reading_def)

lemma zero_command_not_read:
  assumes "s = feed (u32_to_be_bytes 0 @ bs) s1" "read_urb_message s = Ok (m, s')"
  shows False
proof -
  obtain h s2 c where h: "s = feed (UsbipHeaderBasic_encode h) s2" "hdr_command h = Command_as_u32 c"
    using assms(2) unfolding read_urb_message_Ok by blast
  have "u32_at (avail s) 0 = 0" using assms(1) by (simp add: u32_at_append(2))
  moreover have "u32_at (avail s) 0 = hdr_command h"
    using h(1) by (simp add: UsbipHeaderBasic_encode_def u32_at_append(2))
  ultimately have "hdr_command h = 0" by simp
  then show False using h(2) by (cases c) simp_all
qed

definition silent_dext :: "unit dext" where
  "silent_dext selector scalars input k = ((0, [], []), k)"

definition sample_reply :: RetSubmit where
  "sample_reply =
     \<lparr>rs_header = \<lparr>hdr_command = 3, hdr_seqnum = 1, hdr_devid = 0, hdr_direction = 0, hdr_ep = 0\<rparr>,
      rs_status = 0, rs_actual_length = 0, rs_start_frame = 0, rs_number_of_packets = 0,
      rs_error_count = 0, rs_transfer_buffer = [], rs_iso_packet_descriptors = []\<rparr>"

definition sample_pending :: PendingRequest where
  "sample_pending = \<lparr>pr_device_id = 0x10002, pr_endpoint = 0x81, pr_request_id = 42, pr_data = [9, 9]\<rparr>"

definition sample_forward :: "unit forward" where
  "sample_forward = forward_request sample_pending
     (start_forward 0x10002 (feed (RetSubmit_encode sample_reply) \<lparr>avail = [], end_error = UnexpectedEof\<rparr>)
        \<lparr>sent = [], room = None\<rparr> ())"

theorem forwarded_request_on_the_wire_witness:
  "\<exists>bs. sent (fw_writer sample_forward) = bs \<and>
     read_urb_message (feed bs \<lparr>avail = [], end_error = UnexpectedEof\<rparr>) =
       Ok (CmdSubmit ((forward_cmd 1 0x10002 sample_pending)\<lparr>cs_transfer_buffer := []\<rparr>),
           \<lparr>avail = [9, 9], end_error = UnexpectedEof\<rparr>)"
proof -
  let ?st = "start_forward 0x10002 (feed (RetSubmit_encode sample_reply) \<lparr>avail = [], end_error = UnexpectedEof\<rparr>)
        \<lparr>sent = [], room = None\<rparr> ()"
  have "room (fw_writer ?st) = None" "length (pr_data sample_pending) \<le> unat MAX_TRANSFER_BUFFER_LENGTH"
    by (simp_all add: start_forward_def sample_pending_def MAX_TRANSFER_BUFFER_LENGTH_def)
  from forwarded_request_on_the_wire [OF this, of silent_dext]
  obtain bs where "sent (fw_writer sample_forward) = bs"
    and r: "\<And>s. read_urb_message (feed bs s) =
      Ok (CmdSubmit ((forward_cmd 1 0x10002 sample_pending)\<lparr>cs_transfer_buffer := []\<rparr>), feed [9, 9] s)"
    by (auto simp: sample_forward_def start_forward_def sample_pending_def Let_def)
  moreover have "feed [9, 9] \<lparr>avail = [], end_error = e\<rparr> = \<lparr>avail = [9, 9], end_error = e\<rparr>" for e
    by (simp add: feed_def)
  ultimately show ?thesis by (intro exI [of _ bs]) simp
qed

text \<open>
  C36: A timer tick in the middle of a reply loses it. Suppose a successful reply is on its way,
  its 20-byte header has arrived, and the timer fires before the rest. The read in progress is
  dropped with those bytes; the next turn takes the status field of the reply for a command,
  fails, and ends the loop. The request that the reply answered stays pending for ever.
\<close>

theorem tick_loses_reply:
  assumes "RetSubmit_ok ret" and "rs_status ret = 0" and "fw_running st"
    and "fw_reader st = feed (RetSubmit_encode ret) s"
    and "get_pending_output dext (fw_devid st) (fw_dext st) = (Ok None, k)"
    and "fw_pending st (hdr_seqnum (rs_header ret)) = Some req_id"
  shows "\<exists>st1 st2. forward_step dext st st1 \<and> forward_step dext st1 st2 \<and> \<not> fw_running st2 \<and>
    fw_pending st2 (hdr_seqnum (rs_header ret)) = Some req_id \<and> fw_dext st2 = k"
proof -
  let ?n = HEADER_BASIC_SIZE
  let ?st1 = "forward_tick dext ?n st" and ?rest = "drop ?n (RetSubmit_encode ret)"
  have len: "?n < length (RetSubmit_encode ret)"
    by (simp add: RetSubmit_encode_def UsbipHeaderBasic_encode_def HEADER_BASIC_SIZE_def)
  have rest: "?rest = u32_to_be_bytes 0 @ u32_to_be_bytes (rs_actual_length ret) @
      u32_to_be_bytes (rs_start_frame ret) @ u32_to_be_bytes (rs_number_of_packets ret) @
      u32_to_be_bytes (rs_error_count ret) @ replicate 8 0 @ rs_transfer_buffer ret @
      encode_iso_packets (rs_number_of_packets ret) (rs_iso_packet_descriptors ret)"
    using assms(2) by (simp add: RetSubmit_encode_def UsbipHeaderBasic_encode_def HEADER_BASIC_SIZE_def)
  have st1: "?st1 = st\<lparr>fw_reader := feed ?rest s, fw_dext := k\<rparr>"
    using tick_idle [OF assms(5,4)] len by simp
  have "reading ?n (fw_reader st)"
    using reading_inside [of "RetSubmit ret" ?n s] assms(1,4) len by simp
  then have first: "forward_step dext st ?st1" using assms(3) by (intro forward_step.tick)
  have "read_urb_message (feed ?rest s) \<noteq> Ok (m, s')" for m s'
    using zero_command_not_read [OF _ , of "feed ?rest s"] rest by auto
  then have "forward_read dext ?st1 = ?st1\<lparr>fw_running := False\<rparr>"
    by (auto simp: forward_read_def st1 split: result.splits prod.splits)
  moreover have "forward_step dext ?st1 (forward_read dext ?st1)"
    using assms(3) st1 by (intro forward_step.read) simp
  ultimately show ?thesis
    using first assms(6) st1 by (intro exI [of _ ?st1] exI [of _ "forward_read dext ?st1"]) simp
qed

theorem tick_loses_reply_witness:
  "\<exists>st1 st2. forward_step silent_dext sample_forward st1 \<and> forward_step silent_dext st1 st2 \<and>
     \<not> fw_running st2 \<and> fw_pending st2 1 = Some 42"
proof -
  have ok: "RetSubmit_ok sample_reply" "rs_status sample_reply = 0"
    by (simp_all add: sample_reply_def RetSubmit_ok_def iso_packets_ok_def is_iso_transfer_def)
  have st: "fw_running sample_forward"
    "fw_reader sample_forward = feed (RetSubmit_encode sample_reply) \<lparr>avail = [], end_error = UnexpectedEof\<rparr>"
    "fw_pending sample_forward (hdr_seqnum (rs_header sample_reply)) = Some 42"
    by (simp_all add: sample_forward_def forward_request_sent start_forward_def sample_pending_def
      sample_reply_def)
  have out: "get_pending_output silent_dext (fw_devid sample_forward) (fw_dext sample_forward) = (Ok None, ())"
    by (simp add: get_pending_output_def silent_dext_def parse_pending_output_def)
  show ?thesis
    using tick_loses_reply [OF ok st(1,2) out st(3)] by (auto simp: sample_reply_def)
qed

end
