(* ===== verification/Client_Windows.thy ===== *)
theory Client_Windows
  imports Client_Engine
begin

unbundle bit_operations_syntax

text \<open>
  \<open>extender-client/src/vhci_windows.rs\<close> and the parts of \<open>engine.rs\<close> compiled for Windows. The
  driver usbip-win2 does TCP and USB/IP in the kernel; the program sends it control requests.
  \<open>DeviceIoControl\<close> is an argument: for a code, the bytes of the input structure and the size of
  the output buffer it gives the bytes that the driver wrote and the count it reports. Reading
  the output buffer out of bounds, undefined in the unsafe code, is a panic here.
\<close>

section \<open>Control requests\<close>

definition ctl_code :: "u32 \<Rightarrow> u32" where
  "ctl_code function = push_bit 16 0x22 OR push_bit 2 function"

definition IOCTL_PLUGIN_HARDWARE :: u32 where "IOCTL_PLUGIN_HARDWARE = ctl_code 1"
definition IOCTL_UNPLUG_HARDWARE :: u32 where "IOCTL_UNPLUG_HARDWARE = ctl_code 2"
definition IOCTL_GET_IMPORTED :: u32 where "IOCTL_GET_IMPORTED = ctl_code 3"

definition VHCI_DEVICE_PATH :: string where
  "VHCI_DEVICE_PATH = [CHR 0x5C, CHR 0x5C, CHR ''.'', CHR 0x5C] @ ''usbip_vhci''"

definition MAX_HOST_LEN :: usize where "MAX_HOST_LEN = 256"
definition MAX_SERVICE_LEN :: usize where "MAX_SERVICE_LEN = 32"
definition MAX_BUSID_LEN :: usize where "MAX_BUSID_LEN = 32"

record PluginHardwareRequest =
  pr_host :: bytes
  pr_service :: bytes
  pr_busid :: bytes

text \<open>A string in a zeroed array: it has to be shorter than the array.\<close>

definition c_field :: "string \<Rightarrow> usize \<Rightarrow> string \<Rightarrow> (bytes, ClientError) result" where
  "c_field what n s =
     (if length (as_bytes s) \<ge> n
      then Err (VhciNotAvailable (what @ '' too long: '' @ dec_string (length (as_bytes s)) @ '' bytes (max '' @
                  dec_string (n - 1) @ '')''))
      else Ok (as_bytes s @ replicate (n - length (as_bytes s)) 0))"

definition PluginHardwareRequest_new ::
  "string \<Rightarrow> u16 \<Rightarrow> string \<Rightarrow> (PluginHardwareRequest, ClientError) result" where
  "PluginHardwareRequest_new server port bus_id =
     rbind (c_field ''hostname'' MAX_HOST_LEN server) (\<lambda>host.
     rbind (c_field ''port string'' MAX_SERVICE_LEN (dec_string (unat port))) (\<lambda>service.
     rbind (c_field ''busid'' MAX_BUSID_LEN bus_id) (\<lambda>b.
     Ok \<lparr>pr_host = host, pr_service = service, pr_busid = b\<rparr>)))"

text \<open>The packed structure in memory.\<close>

definition PluginHardwareRequest_bytes :: "PluginHardwareRequest \<Rightarrow> bytes" where
  "PluginHardwareRequest_bytes req = pr_host req @ pr_service req @ pr_busid req"

record ImportedDeviceEntry =
  ie_port :: i32
  ie_status :: u32
  ie_speed :: u32
  ie_vendor_id :: u16
  ie_product_id :: u16
  ie_devid :: u32

definition ENTRY_SIZE :: usize where "ENTRY_SIZE = 20"

definition read_entry :: "bytes \<Rightarrow> usize \<Rightarrow> (ImportedDeviceEntry, ClientError) result" where
  "read_entry buf offset =
     (if offset + ENTRY_SIZE > length buf then Panic
      else Ok \<lparr>ie_port = u32_le_at buf offset, ie_status = u32_le_at buf (offset + 4), ie_speed = u32_le_at buf (offset + 8),
               ie_vendor_id = u16_le_at buf (offset + 12), ie_product_id = u16_le_at buf (offset + 14),
               ie_devid = u32_le_at buf (offset + 16)\<rparr>)"

section \<open>The driver\<close>

text \<open>Code, input, size of the output buffer; bytes written and the count reported.\<close>

type_synonym 'k ioctl = "u32 \<Rightarrow> bytes \<Rightarrow> usize \<Rightarrow> 'k \<Rightarrow> (bytes \<times> u32, io_error) result \<times> 'k"

definition open_vhci_device :: "(u16 list \<Rightarrow> ('k, string) result) \<Rightarrow> ('k, ClientError) result" where
  "open_vhci_device create_file =
     map_err (\<lambda>err. VhciNotAvailable (''failed to open '' @ VHCI_DEVICE_PATH @ '': '' @ err @
                      '' (is usbip-win2 driver installed?)''))
       (create_file (map ucast (as_bytes VHCI_DEVICE_PATH) @ [0]))"

definition win_attach ::
  "'k ioctl \<Rightarrow> string \<Rightarrow> u16 \<Rightarrow> string \<Rightarrow> 'k \<Rightarrow> (u32, ClientError) result \<times> 'k" where
  "win_attach ioctl server port bus_id k =
     (case PluginHardwareRequest_new server port bus_id of
        Err e \<Rightarrow> (Err e, k)
      | Panic \<Rightarrow> (Panic, k)
      | Ok req \<Rightarrow>
          (case ioctl IOCTL_PLUGIN_HARDWARE (PluginHardwareRequest_bytes req) 4 k of
             (Err e, k') \<Rightarrow> (Err (Client_Io e), k')
           | (Panic, k') \<Rightarrow> (Panic, k')
           | (Ok (out, _), k') \<Rightarrow>
               (let reply = u32_le_at (take 4 (out @ replicate 4 0)) 0 in
                if sint reply < 0
                then (Err (VhciNotAvailable (''driver returned negative port: '' @ dec_i32 reply)), k')
                else (Ok reply, k'))))"

definition win_detach :: "'k ioctl \<Rightarrow> u32 \<Rightarrow> 'k \<Rightarrow> (unit, ClientError) result \<times> 'k" where
  "win_detach ioctl port k =
     (case ioctl IOCTL_UNPLUG_HARDWARE (u32_to_le_bytes port) 0 k of
        (Err e, k') \<Rightarrow> (Err (Client_Io e), k')
      | (Panic, k') \<Rightarrow> (Panic, k')
      | (Ok _, k') \<Rightarrow> (Ok (), k'))"

definition MAX_DEVICES :: usize where "MAX_DEVICES = 128"

definition listed_entry :: "ImportedDeviceEntry \<Rightarrow> ImportedDevice" where
  "listed_entry entry =
     \<lparr>im_port = ie_port entry, im_status = (if ie_status entry = 0 then Port_Free else InUse),
      im_speed = ie_speed entry, im_devid = ie_devid entry, im_server_addr = None, im_busid = None\<rparr>"

text \<open>The loop over the entries, with its guard and the read at each offset.\<close>

fun read_entries :: "bytes \<Rightarrow> usize \<Rightarrow> usize list \<Rightarrow> (ImportedDevice list, ClientError) result" where
  "read_entries buf returned [] = Ok []"
| "read_entries buf returned (i # is) =
     (let offset = i * ENTRY_SIZE in
      if offset + ENTRY_SIZE > returned then Ok []
      else rbind (read_entry buf offset) (\<lambda>entry.
           rbind (read_entries buf returned is) (\<lambda>devices. Ok (listed_entry entry # devices))))"

definition win_list_ports :: "'k ioctl \<Rightarrow> 'k \<Rightarrow> (ImportedDevice list, ClientError) result \<times> 'k" where
  "win_list_ports ioctl k =
     (let buf_size = MAX_DEVICES * ENTRY_SIZE in
      case ioctl IOCTL_GET_IMPORTED [] buf_size k of
        (Err e, k') \<Rightarrow> (Err (Client_Io e), k')
      | (Panic, k') \<Rightarrow> (Panic, k')
      | (Ok (out, bytes_returned), k') \<Rightarrow>
          (let buf = take buf_size (out @ replicate buf_size 0);
               num = unat bytes_returned div ENTRY_SIZE
           in (read_entries buf (unat bytes_returned) [0..<num], k')))"

section \<open>The engine\<close>

definition new_windows_engine :: "(u16 list \<Rightarrow> ('k, string) result) \<Rightarrow> ('k ClientEngine, ClientError) result" where
  "new_windows_engine create_file =
     rbind (open_vhci_device create_file) (\<lambda>vhci. Ok \<lparr>ce_vhci = vhci, ce_registry = Map.empty\<rparr>)"

text \<open>\<open>ip\<close> and \<open>port_of\<close> are the two parts of a socket address.\<close>

definition attach_device_windows ::
  "'k ioctl \<Rightarrow> (SocketAddr \<Rightarrow> string) \<Rightarrow> (SocketAddr \<Rightarrow> u16) \<Rightarrow> SocketAddr \<Rightarrow> string \<Rightarrow> 'k ClientEngine
     \<Rightarrow> (AttachedDevice, ClientError) result \<times> 'k ClientEngine" where
  "attach_device_windows ioctl ip port_of addr bus_id en =
     (case win_attach ioctl (ip addr) (port_of addr) bus_id (ce_vhci en) of
        (Err e, k) \<Rightarrow> (Err e, en\<lparr>ce_vhci := k\<rparr>)
      | (Panic, k) \<Rightarrow> (Panic, en\<lparr>ce_vhci := k\<rparr>)
      | (Ok port, k) \<Rightarrow>
          (Ok \<lparr>ad_port = port, ad_busid = bus_id, ad_server_addr = addr, ad_id_vendor = 0, ad_id_product = 0,
               ad_speed = 0\<rparr>,
           \<lparr>ce_vhci = k, ce_registry = (ce_registry en)(port \<mapsto>
              \<lparr>re_server_addr = addr, re_busid = bus_id, re_id_vendor = 0, re_id_product = 0, re_speed = 0\<rparr>)\<rparr>))"

definition detach_device_windows ::
  "'k ioctl \<Rightarrow> u32 \<Rightarrow> 'k ClientEngine \<Rightarrow> (unit, ClientError) result \<times> 'k ClientEngine" where
  "detach_device_windows ioctl port en =
     (case win_detach ioctl port (ce_vhci en) of
        (Ok _, k) \<Rightarrow> (Ok (), \<lparr>ce_vhci = k, ce_registry = (ce_registry en)(port := None)\<rparr>)
      | (Err e, k) \<Rightarrow> (Err e, en\<lparr>ce_vhci := k\<rparr>)
      | (Panic, k) \<Rightarrow> (Panic, en\<lparr>ce_vhci := k\<rparr>))"

definition enrich :: "(u32 \<rightharpoonup> RegistryEntry) \<Rightarrow> ImportedDevice \<Rightarrow> ImportedDevice" where
  "enrich registry dev =
     (case registry (im_port dev) of
        Some reg \<Rightarrow> dev\<lparr>im_server_addr := Some (re_server_addr reg), im_busid := Some (re_busid reg)\<rparr>
      | None \<Rightarrow> dev)"

definition get_imported_devices_windows ::
  "'k ioctl \<Rightarrow> 'k ClientEngine \<Rightarrow> (ImportedDevice list, ClientError) result \<times> 'k ClientEngine" where
  "get_imported_devices_windows ioctl en =
     (case win_list_ports ioctl (ce_vhci en) of
        (r, k) \<Rightarrow> (rbind r (\<lambda>devices. Ok (map (enrich (ce_registry en)) devices)), en\<lparr>ce_vhci := k\<rparr>))"

section \<open>What the driver is sent\<close>

lemma c_field_Ok:
  "c_field what n s = Ok bs \<longleftrightarrow> length s < n \<and> bs = as_bytes s @ replicate (n - length s) 0"
  by (auto simp: c_field_def)

text \<open>
  The request has 320 bytes. Its three fields hold the address, the port and the bus ID, each ended
  by a zero; only a host name or a bus ID that does not fit is refused.
\<close>

lemma plugin_request:
  "(\<exists>req. PluginHardwareRequest_new server port b = Ok req) \<longleftrightarrow> length server < 256 \<and> length b < 32"
proof -
  have "unat port < 65536" using unsigned_less [of port] by simp
  then have "unat port < 10 ^ Suc 4" by simp
  from dec_string_length [OF this] show ?thesis
    by (auto simp: PluginHardwareRequest_new_def rbind_eq_Ok c_field_Ok MAX_HOST_LEN_def MAX_SERVICE_LEN_def
      MAX_BUSID_LEN_def)
qed

lemma plugin_request_fields:
  assumes "PluginHardwareRequest_new server port b = Ok req"
    and "CHR 0x00 \<notin> set server" "CHR 0x00 \<notin> set b"
  shows "length (PluginHardwareRequest_bytes req) = 320"
    "until_nul (take 256 (PluginHardwareRequest_bytes req)) = as_bytes server"
    "until_nul (take 32 (drop 256 (PluginHardwareRequest_bytes req))) = as_bytes (dec_string (unat port))"
    "until_nul (drop 288 (PluginHardwareRequest_bytes req)) = as_bytes b"
proof -
  have digits: "CHR 0x00 \<notin> set (dec_string n)" for n
    using dec_string_digits [of n] by (auto simp: list_all_iff is_ascii_digit_def)
  have "pr_host req = as_bytes server @ replicate (256 - length server) 0" "length server < 256"
    "pr_service req = as_bytes (dec_string (unat port)) @ replicate (32 - length (dec_string (unat port))) 0"
    "length (dec_string (unat port)) < 32" "pr_busid req = as_bytes b @ replicate (32 - length b) 0" "length b < 32"
    using assms(1) by (auto simp: PluginHardwareRequest_new_def rbind_eq_Ok c_field_Ok MAX_HOST_LEN_def
      MAX_SERVICE_LEN_def MAX_BUSID_LEN_def)
  then show "length (PluginHardwareRequest_bytes req) = 320"
    "until_nul (take 256 (PluginHardwareRequest_bytes req)) = as_bytes server"
    "until_nul (take 32 (drop 256 (PluginHardwareRequest_bytes req))) = as_bytes (dec_string (unat port))"
    "until_nul (drop 288 (PluginHardwareRequest_bytes req)) = as_bytes b"
    using assms(2,3) digits by (simp_all add: PluginHardwareRequest_bytes_def until_nul_padded)
qed

text \<open>
  A port is sent as a signed number, and the driver takes -1 for all ports: detaching port
  4294967295 is the request to detach everything.
\<close>

lemma detach_all_ports: "win_detach ioctl 4294967295 k = win_detach ioctl (- 1) k"
proof -
  have "(4294967295 :: u32) = - 1" by code_simp
  then show ?thesis by (rule arg_cong)
qed

section \<open>What the driver answers\<close>

definition entry_bytes :: "ImportedDeviceEntry \<Rightarrow> bytes" where
  "entry_bytes e = u32_to_le_bytes (ie_port e) @ u32_to_le_bytes (ie_status e) @ u32_to_le_bytes (ie_speed e) @
     u16_to_le_bytes (ie_vendor_id e) @ u16_to_le_bytes (ie_product_id e) @ u32_to_le_bytes (ie_devid e)"

lemma length_entry_bytes [simp]: "length (entry_bytes e) = 20"
  by (simp add: entry_bytes_def)

lemma read_entry_bytes:
  "length pre = offset \<Longrightarrow> read_entry (pre @ entry_bytes e @ post) offset = Ok e"
  by (auto simp: read_entry_def ENTRY_SIZE_def u32_le_at_def byte_at_def u16_le_at_def entry_bytes_def nth_append u32_to_le_eq u16_to_le_eq
    u32_from_to_le u16_from_to_le)

text \<open>
  No count that the driver can report for the buffer, and no content, makes the loop read beyond
  it.
\<close>

lemma entries_in_bounds:
  assumes "returned \<le> length buf"
  shows "read_entries buf returned is \<noteq> Panic"
  using assms
  by (induction buf returned "is" rule: read_entries.induct)
     (auto simp: Let_def read_entry_def rbind_def split: result.splits)

lemma list_ports_in_bounds:
  assumes "ioctl IOCTL_GET_IMPORTED [] 2560 k = (Ok (out, returned), k')" "unat returned \<le> 2560"
  shows "fst (win_list_ports ioctl k) \<noteq> Panic"
  using assms by (simp add: win_list_ports_def MAX_DEVICES_def ENTRY_SIZE_def Let_def entries_in_bounds)

lemma read_entries_bytes:
  assumes "buf = concat (map entry_bytes es) @ post" "length es * 20 \<le> returned" "i \<le> length es"
  shows "read_entries buf returned [i..<length es] = Ok (map listed_entry (drop i es))"
  using assms(3)
proof (induction "length es - i" arbitrary: i)
  case (Suc n)
  then have i: "i < length es" and n: "n = length es - Suc i" by simp_all
  have "es = take i es @ es ! i # drop (Suc i) es" using id_take_nth_drop [OF i] .
  then have "buf = concat (map entry_bytes (take i es)) @ entry_bytes (es ! i) @
      (concat (map entry_bytes (drop (Suc i) es)) @ post)"
    unfolding assms(1) by (metis append.assoc concat.simps(2) concat_append list.map(2) map_append)
  moreover have "length (concat (map entry_bytes (take i es))) = i * 20"
    using i by (simp add: length_concat comp_def sum_list_triv)
  ultimately have entry: "read_entry buf (i * 20) = Ok (es ! i)" using read_entry_bytes by metis
  have "[i..<length es] = i # [Suc i..<length es]" using i by (rule upt_conv_Cons)
  moreover have "i * 20 + 20 \<le> returned" using i assms(2) by linarith
  ultimately show ?case
    using entry Suc(1) [OF n] i by (simp add: ENTRY_SIZE_def Let_def Cons_nth_drop_Suc [symmetric])
qed simp

section \<open>Attaching, listing and detaching\<close>

text \<open>
  The documented behaviour of the driver, over the entries that it lists: listing writes them one
  after the other, plugging in adds a device on an unused port and returns the port, unplugging a
  port removes it.
\<close>

definition win_lawful :: "'k ioctl \<Rightarrow> ('k \<Rightarrow> ImportedDeviceEntry list) \<Rightarrow> bool" where
  "win_lawful ioctl view \<longleftrightarrow>
     (\<forall>k. length (view k) \<le> 128 \<and>
        ioctl IOCTL_GET_IMPORTED [] 2560 k =
          (Ok (concat (map entry_bytes (view k)), word_of_nat (20 * length (view k))), k)) \<and>
     (\<forall>req k out n k'. ioctl IOCTL_PLUGIN_HARDWARE req 4 k = (Ok (out, n), k') \<longrightarrow>
        (\<exists>e. out = u32_to_le_bytes (ie_port e) \<and> ie_status e \<noteq> 0 \<and> ie_port e \<notin> ie_port ` set (view k) \<and>
           view k' = view k @ [e])) \<and>
     (\<forall>p k r k'. 0 \<le> sint p \<longrightarrow> ioctl IOCTL_UNPLUG_HARDWARE (u32_to_le_bytes p) 0 k = (Ok r, k') \<longrightarrow>
        view k' = filter (\<lambda>e. ie_port e \<noteq> p) (view k))"

abbreviation win_listing :: "('k \<Rightarrow> ImportedDeviceEntry list) \<Rightarrow> 'k ClientEngine \<Rightarrow> ImportedDevice list" where
  "win_listing view en \<equiv> map (\<lambda>e. enrich (ce_registry en) (listed_entry e)) (view (ce_vhci en))"

lemma windows_listing:
  assumes "win_lawful ioctl view"
  shows "get_imported_devices_windows ioctl en = (Ok (win_listing view en), en)"
proof -
  let ?es = "view (ce_vhci en)" and ?buf = "concat (map entry_bytes (view (ce_vhci en)))"
  have l: "length ?es \<le> 128" "ioctl IOCTL_GET_IMPORTED [] 2560 (ce_vhci en) =
      (Ok (?buf, word_of_nat (20 * length ?es)), ce_vhci en)"
    using assms by (auto simp: win_lawful_def)
  have "length ?buf = 20 * length ?es" by (simp add: length_concat comp_def sum_list_triv)
  then have buf: "take 2560 (?buf @ replicate 2560 0) = ?buf @ replicate (2560 - 20 * length ?es) 0"
    using l(1) by (simp add: min_def)
  have n: "unat (word_of_nat (20 * length ?es) :: u32) = 20 * length ?es"
    using l(1) by (simp only: unat_of_nat take_bit_nat_eq_self_iff) simp
  have "read_entries (take 2560 (?buf @ replicate 2560 0)) (20 * length ?es) [0..<length ?es] =
      Ok (map listed_entry ?es)"
    using read_entries_bytes [OF buf, of "20 * length ?es" 0] by simp
  then have "win_list_ports ioctl (ce_vhci en) = (Ok (map listed_entry ?es), ce_vhci en)"
    using l(2) n by (simp add: win_list_ports_def MAX_DEVICES_def ENTRY_SIZE_def Let_def)
  then show ?thesis by (simp add: get_imported_devices_windows_def)
qed

lemma enrich_other:
  "ie_port e \<noteq> p \<Longrightarrow> enrich (reg(p := x)) (listed_entry e) = enrich reg (listed_entry e)"
  by (simp add: enrich_def listed_entry_def)

text \<open>
  A device that was attached is listed with the server and the bus ID it came from, beside the
  devices listed before; after it is detached the list is as it was.
\<close>

lemma windows_attach_list_detach:
  assumes "win_lawful ioctl view" "attach_device_windows ioctl ip port_of addr b en = (Ok dev, en')"
  shows "\<exists>d. win_listing view en' = win_listing view en @ [d] \<and> im_port d = ad_port dev \<and> im_status d = InUse \<and>
      im_server_addr d = Some addr \<and> im_busid d = Some b"
    and "detach_device_windows ioctl (ad_port dev) en' = (Ok (), en'') \<Longrightarrow> win_listing view en'' = win_listing view en"
proof -
  obtain req out n k where req: "PluginHardwareRequest_new (ip addr) (port_of addr) b = Ok req"
    and io: "ioctl IOCTL_PLUGIN_HARDWARE (PluginHardwareRequest_bytes req) 4 (ce_vhci en) = (Ok (out, n), k)"
    and p: "ad_port dev = u32_le_at (take 4 (out @ replicate 4 0)) 0" "0 \<le> sint (ad_port dev)"
    and en': "ce_vhci en' = k" "ce_registry en' = (ce_registry en)(ad_port dev \<mapsto>
        \<lparr>re_server_addr = addr, re_busid = b, re_id_vendor = 0, re_id_product = 0, re_speed = 0\<rparr>)"
    using assms(2) by (auto simp: attach_device_windows_def win_attach_def Let_def
      split: result.splits prod.splits if_splits)
  obtain e where e: "out = u32_to_le_bytes (ie_port e)" "ie_status e \<noteq> 0"
    "ie_port e \<notin> ie_port ` set (view (ce_vhci en))" "view k = view (ce_vhci en) @ [e]"
    using assms(1) io unfolding win_lawful_def by blast
  have port: "ad_port dev = ie_port e"
    using p(1) e(1) by (simp add: u32_le_at_def byte_at_def u32_to_le_eq u32_from_to_le)
  have others: "map (\<lambda>x. enrich (r(ie_port e := y)) (listed_entry x)) (view (ce_vhci en)) =
      map (\<lambda>x. enrich r (listed_entry x)) (view (ce_vhci en))" for r y
    using e(3) by (intro map_cong refl enrich_other) (metis image_eqI)
  show "\<exists>d. win_listing view en' = win_listing view en @ [d] \<and> im_port d = ad_port dev \<and> im_status d = InUse \<and>
      im_server_addr d = Some addr \<and> im_busid d = Some b"
    using e port others by (simp add: en' enrich_def listed_entry_def)
  show "win_listing view en'' = win_listing view en"
    if d: "detach_device_windows ioctl (ad_port dev) en' = (Ok (), en'')"
  proof -
    obtain r k' where u: "ioctl IOCTL_UNPLUG_HARDWARE (u32_to_le_bytes (ad_port dev)) 0 k = (Ok r, k')"
      "en'' = \<lparr>ce_vhci = k', ce_registry = (ce_registry en')(ad_port dev := None)\<rparr>"
      using d en'(1) by (auto simp: detach_device_windows_def win_detach_def split: result.splits prod.splits)
    then have "view k' = filter (\<lambda>x. ie_port x \<noteq> ie_port e) (view k)"
      using assms(1) p(2) port unfolding win_lawful_def by metis
    also have "\<dots> = view (ce_vhci en)" using e(3,4) by (simp add: filter_id_conv) (metis image_eqI)
    finally show ?thesis using others by (simp add: u(2) en'(2) port)
  qed
qed

text \<open>Unlike on Linux, ports that the driver reports as free are listed too.\<close>

lemma windows_lists_free_ports:
  "im_status (enrich reg (listed_entry e)) = Port_Free \<longleftrightarrow> ie_status e = 0"
  by (simp add: enrich_def listed_entry_def split: option.split)

end
