(* ===== verification/Rust_Float.thy ===== *)
theory Rust_Float
  imports Complex_Main Prelude
begin

text \<open>
  What the reconnection code uses of \<open>f64\<close> and \<open>Duration\<close> of the standard library. A finite \<open>f64\<close> is
  the real number it denotes (the two zeros are one); an operation is the real operation rounded
  to the nearest number of 53 bits, ties to even, with gradual underflow and overflow to
  infinity. A \<open>Duration\<close> is whole seconds and nanoseconds.
\<close>

section \<open>Rounding\<close>

definition round_even :: "real \<Rightarrow> int" where
  "round_even x =
     (let f = \<lfloor>x\<rfloor>; d = x - of_int f in
      if d < 1 / 2 then f else if d > 1 / 2 then f + 1 else if even f then f else f + 1)"

definition f64_ulp :: "real \<Rightarrow> real" where
  "f64_ulp x = 2 powr of_int (max \<lfloor>log 2 \<bar>x\<bar>\<rfloor> (- 1022) - 52)"

datatype f64 = Fin real | PInf | NInf | NaN

definition f64_round :: "real \<Rightarrow> f64" where
  "f64_round x =
     (if x = 0 then Fin 0
      else let r = of_int (round_even (x / f64_ulp x)) * f64_ulp x in
        if \<bar>r\<bar> < 2 ^ 1024 then Fin r else if x > 0 then PInf else NInf)"

section \<open>Operations\<close>

definition inf_of_sign :: "real \<Rightarrow> f64" where
  "inf_of_sign s = (if s > 0 then PInf else if s < 0 then NInf else NaN)"

fun f64_mul :: "f64 \<Rightarrow> f64 \<Rightarrow> f64" where
  "f64_mul NaN _ = NaN"
| "f64_mul _ NaN = NaN"
| "f64_mul (Fin a) (Fin b) = f64_round (a * b)"
| "f64_mul (Fin a) PInf = inf_of_sign a"
| "f64_mul (Fin a) NInf = inf_of_sign (- a)"
| "f64_mul PInf (Fin b) = inf_of_sign b"
| "f64_mul NInf (Fin b) = inf_of_sign (- b)"
| "f64_mul PInf PInf = PInf"
| "f64_mul PInf NInf = NInf"
| "f64_mul NInf PInf = NInf"
| "f64_mul NInf NInf = PInf"

fun f64_add :: "f64 \<Rightarrow> f64 \<Rightarrow> f64" where
  "f64_add NaN _ = NaN"
| "f64_add _ NaN = NaN"
| "f64_add (Fin a) (Fin b) = f64_round (a + b)"
| "f64_add PInf NInf = NaN"
| "f64_add NInf PInf = NaN"
| "f64_add PInf _ = PInf"
| "f64_add _ PInf = PInf"
| "f64_add NInf _ = NInf"
| "f64_add _ NInf = NInf"

text \<open>\<open>f64::min\<close>: if one argument is not a number, the other is returned.\<close>

fun f64_min :: "f64 \<Rightarrow> f64 \<Rightarrow> f64" where
  "f64_min NaN y = y"
| "f64_min x NaN = x"
| "f64_min (Fin a) (Fin b) = Fin (min a b)"
| "f64_min NInf _ = NInf"
| "f64_min _ NInf = NInf"
| "f64_min PInf y = y"
| "f64_min x PInf = x"

section \<open>Durations\<close>

record Duration =
  du_secs :: u64
  du_nanos :: u32

definition from_secs :: "u64 \<Rightarrow> Duration" where
  "from_secs s = \<lparr>du_secs = s, du_nanos = 0\<rparr>"

definition total_nanos :: "Duration \<Rightarrow> nat" where
  "total_nanos d = unat (du_secs d) * 10 ^ 9 + unat (du_nanos d)"

definition as_secs_f64 :: "Duration \<Rightarrow> f64" where
  "as_secs_f64 d =
     f64_add (f64_round (real (unat (du_secs d)))) (f64_round (real (unat (du_nanos d)) / 10 ^ 9))"

text \<open>\<open>Duration::from_secs_f64\<close> rounds to nanoseconds and panics on what no duration can hold.\<close>

definition from_secs_f64 :: "f64 \<Rightarrow> (Duration, unit) result" where
  "from_secs_f64 x =
     (case x of
        Fin r \<Rightarrow>
          if r < 0 then Panic
          else let n = nat (round_even (r * 10 ^ 9)) in
            if n div 10 ^ 9 < 2 ^ 64
            then Ok \<lparr>du_secs = word_of_nat (n div 10 ^ 9), du_nanos = word_of_nat (n mod 10 ^ 9)\<rparr>
            else Panic
      | _ \<Rightarrow> Panic)"

section \<open>Bounds on rounding\<close>

lemma round_even_bounds:
  shows "of_int n \<le> x \<Longrightarrow> n \<le> round_even x" and "x \<le> of_int n \<Longrightarrow> round_even x \<le> n"
proof -
  assume "of_int n \<le> x"
  then have "n \<le> \<lfloor>x\<rfloor>" by (simp add: le_floor_iff)
  then show "n \<le> round_even x" by (simp add: round_even_def Let_def)
next
  assume x: "x \<le> of_int n"
  show "round_even x \<le> n"
  proof (cases "x = of_int n")
    case False
    then have "\<lfloor>x\<rfloor> < n" using x by (simp add: floor_less_iff)
    then show ?thesis by (simp add: round_even_def Let_def)
  qed (simp add: round_even_def)
qed

lemma round_even_of_int [simp]: "round_even (of_int n) = n"
  using round_even_bounds [of n "of_int n"] by simp

lemma round_even_nonneg: "0 \<le> x \<Longrightarrow> 0 \<le> round_even x"
  using round_even_bounds(1) [of 0 x] by simp

lemma ulp_pos [simp]: "0 < f64_ulp x"
  by (simp add: f64_ulp_def)

text \<open>
  Up to \<open>2 ^ 53\<close> every whole number is a multiple of the unit in the last place: rounding never
  crosses one.
\<close>

lemma ulp_divides:
  assumes "\<lfloor>log 2 \<bar>x\<bar>\<rfloor> \<le> 52"
  shows "\<exists>k :: int. of_int n / f64_ulp x = of_int k"
proof -
  define e where "e = 52 - max \<lfloor>log 2 \<bar>x\<bar>\<rfloor> (- 1022)"
  have e: "0 \<le> e" using assms by (simp add: e_def)
  have "f64_ulp x = 2 powr (- of_int e)" by (simp add: f64_ulp_def e_def)
  then have "of_int n / f64_ulp x = of_int n * 2 powr of_int e" by (simp add: powr_minus_divide)
  also have "\<dots> = of_int (n * 2 ^ nat e)" using e by (simp add: powr_real_of_int)
  finally show ?thesis by blast
qed

lemma large_exponent:
  assumes "52 < \<lfloor>log 2 \<bar>x\<bar>\<rfloor>" and x: "x \<noteq> 0"
  shows "2 ^ 52 \<le> \<bar>x\<bar> / f64_ulp x" "2 \<le> f64_ulp x"
proof -
  define e where "e = \<lfloor>log 2 \<bar>x\<bar>\<rfloor>"
  have u: "f64_ulp x = 2 powr (of_int e - 52)" using assms by (simp add: f64_ulp_def e_def max_def)
  have "of_int e \<le> log 2 \<bar>x\<bar>" by (simp add: e_def)
  then have "2 powr of_int e \<le> \<bar>x\<bar>" using x by (simp add: powr_le_iff)
  moreover have "2 powr of_int e = 2 ^ 52 * f64_ulp x"
    by (simp add: u powr_diff powr_realpow [symmetric])
  ultimately show "2 ^ 52 \<le> \<bar>x\<bar> / f64_ulp x" by (simp add: field_simps)
  have "(1 :: real) \<le> of_int e - 52" using assms(1) by (simp add: e_def)
  then have "2 powr 1 \<le> (2 :: real) powr (of_int e - 52)" by (rule powr_mono) simp
  then show "2 \<le> f64_ulp x" by (simp add: u)
qed

text \<open>\<open>at_least m v\<close>: the value \<open>v\<close> is a number not below \<open>m\<close>.\<close>

fun at_least :: "real \<Rightarrow> f64 \<Rightarrow> bool" where
  "at_least m (Fin r) = (m \<le> r)"
| "at_least m PInf = True"
| "at_least m NInf = False"
| "at_least m NaN = False"

lemma round_at_least:
  assumes "of_int n \<le> x" "0 \<le> n" "n \<le> 2 ^ 53"
  shows "at_least (of_int n) (f64_round x)"
proof (cases "x = 0")
  case False
  then have x: "0 < x" using assms(1,2) by (smt (verit) of_int_0_le_iff)
  have "of_int n \<le> of_int (round_even (x / f64_ulp x)) * f64_ulp x"
  proof (cases "\<lfloor>log 2 \<bar>x\<bar>\<rfloor> \<le> 52")
    case True
    then obtain k where k: "of_int n / f64_ulp x = of_int k" using ulp_divides by blast
    then have "of_int k \<le> x / f64_ulp x" using assms(1) by (metis divide_right_mono less_imp_le ulp_pos)
    then have "k \<le> round_even (x / f64_ulp x)" by (rule round_even_bounds(1))
    then have "of_int n / f64_ulp x \<le> of_int (round_even (x / f64_ulp x))" using k by simp
    then show ?thesis by (simp add: divide_le_eq)
  next
    case large: False
    then have l: "2 ^ 52 \<le> x / f64_ulp x" "2 \<le> f64_ulp x" using large_exponent [of x] x by auto
    have "of_int (2 ^ 52) \<le> x / f64_ulp x" using l(1) by simp
    then have "2 ^ 52 \<le> round_even (x / f64_ulp x)" by (rule round_even_bounds(1))
    then have r: "(2 :: real) ^ 52 \<le> of_int (round_even (x / f64_ulp x))"
      by (metis of_int_le_iff of_int_numeral of_int_power)
    have "of_int n \<le> (2 :: real) ^ 53" using assms(3) by (metis of_int_le_iff of_int_numeral of_int_power)
    also have "\<dots> = 2 ^ 52 * 2" by simp
    also have "\<dots> \<le> of_int (round_even (x / f64_ulp x)) * f64_ulp x" using r l(2) by (intro mult_mono) auto
    finally show ?thesis .
  qed
  then show ?thesis using x by (simp add: f64_round_def Let_def)
qed (use assms(1) in \<open>simp add: f64_round_def\<close>)

lemma round_whole:
  assumes "0 \<le> n" "n \<le> 2 ^ 53"
  shows "f64_round (of_int n) = Fin (of_int n)"
proof (cases "n = 0")
  case False
  let ?x = "real_of_int n"
  have n: "0 < n" using False assms(1) by simp
  have small: "?x \<le> 2 ^ 53" using assms(2) by (metis of_int_le_iff of_int_numeral of_int_power)
  have "of_int (round_even (?x / f64_ulp ?x)) * f64_ulp ?x = ?x"
  proof (cases "\<lfloor>log 2 \<bar>?x\<bar>\<rfloor> \<le> 52")
    case True
    then obtain k where "?x / f64_ulp ?x = of_int k" using ulp_divides by blast
    then show ?thesis by (simp add: field_simps) (metis nonzero_mult_div_cancel_right ulp_pos less_irrefl times_divide_eq_left)
  next
    case False
    have "log 2 ?x \<le> 53" using small n by (simp add: log_le_iff)
    then have e: "\<lfloor>log 2 ?x\<rfloor> = 53" using False n by linarith
    then have "53 \<le> log 2 ?x" by linarith
    then have "2 ^ 53 \<le> ?x" using n by (simp add: le_log_iff)
    then have x: "?x = 2 ^ 53" using small by simp
    have u: "f64_ulp ?x = 2" using e n by (simp add: f64_ulp_def max_def)
    have "?x / 2 = of_int (2 ^ 52)" by (simp add: x)
    then have "round_even (?x / 2) = 2 ^ 52" by (simp only: round_even_of_int)
    then have "of_int (round_even (?x / f64_ulp ?x)) * f64_ulp ?x = 2 ^ 53" by (simp add: u)
    then show ?thesis by (simp only: x)
  qed
  moreover have "\<bar>?x\<bar> < 2 ^ 1024"
  proof -
    have "(2 :: real) ^ 53 < 2 ^ 1024" by (rule power_strict_increasing) auto
    with small have "?x < 2 ^ 1024" by (rule le_less_trans)
    moreover have "\<bar>?x\<bar> = ?x" using n by simp
    ultimately show ?thesis by (simp only:)
  qed
  ultimately show ?thesis using n by (simp add: f64_round_def Let_def)
qed (simp add: f64_round_def)

lemma round_at_most:
  assumes "0 \<le> x" "x \<le> of_int n" "n \<le> 2 ^ 53"
  shows "\<exists>r. f64_round x = Fin r \<and> 0 \<le> r \<and> r \<le> of_int n"
proof (cases "x = 0")
  case False
  then have x: "0 < x" using assms(1) by simp
  have n: "0 \<le> n" using assms(1,2) by (metis of_int_0_le_iff order_trans)
  have small: "of_int n \<le> (2 :: real) ^ 53" using assms(3) by (metis of_int_le_iff of_int_numeral of_int_power)
  show ?thesis
  proof (cases "\<lfloor>log 2 \<bar>x\<bar>\<rfloor> \<le> 52")
    case True
    then obtain k where k: "of_int n / f64_ulp x = of_int k" using ulp_divides by blast
    then have "x / f64_ulp x \<le> of_int k" using assms(2) by (metis divide_right_mono less_imp_le ulp_pos)
    then have "round_even (x / f64_ulp x) \<le> k" by (rule round_even_bounds(2))
    then have le: "of_int (round_even (x / f64_ulp x)) * f64_ulp x \<le> of_int n"
      using k by (simp add: pos_le_divide_eq [symmetric])
    have ge: "0 \<le> of_int (round_even (x / f64_ulp x)) * f64_ulp x"
      using round_even_nonneg [OF divide_nonneg_pos [OF assms(1) ulp_pos [of x]]] by (simp add: less_imp_le)
    have "(2 :: real) ^ 53 < 2 ^ 1024" by (rule power_strict_increasing) auto
    with le small have "of_int (round_even (x / f64_ulp x)) * f64_ulp x < 2 ^ 1024" by linarith
    then show ?thesis using x le ge by (simp add: f64_round_def Let_def)
  next
    case large: False
    have "53 \<le> log 2 x" using large x by simp
    then have "2 ^ 53 \<le> x" using x by (simp add: le_log_iff)
    then have "x = of_int n" using small assms(2) by linarith
    then show ?thesis using round_whole [OF n assms(3)] n by simp
  qed
qed (use assms in \<open>simp add: f64_round_def\<close>)

lemma round_nonneg: "0 \<le> x \<Longrightarrow> at_least 0 (f64_round x)"
  using round_at_least [of 0 x] by simp

section \<open>Bounds on the operations\<close>

lemma mul_at_least:
  assumes "at_least (of_int m) a" "at_least 1 b" "0 < m" "m \<le> 2 ^ 53"
  shows "at_least (of_int m) (f64_mul a b)"
proof (cases a; cases b)
  fix x y assume ab: "a = Fin x" "b = Fin y"
  then have "of_int m \<le> x" "1 \<le> y" "0 \<le> x" using assms(1-3) by (auto intro: order_trans [of 0 "of_int m"])
  then have "x * 1 \<le> x * y" by (intro mult_left_mono)
  then have "of_int m \<le> x * y" using \<open>of_int m \<le> x\<close> by simp
  then show ?thesis using round_at_least [of m "x * y"] assms(3,4) ab by simp
next
  fix x assume ab: "a = Fin x" "b = PInf"
  have "0 < real_of_int m" using assms(3) by simp
  then show ?thesis using assms(1) ab by (simp add: inf_of_sign_def)
qed (use assms in \<open>auto simp: inf_of_sign_def\<close>)

lemma min_bounds:
  assumes "at_least m a \<or> a = NaN" "m \<le> M"
  shows "\<exists>r. f64_min a (Fin M) = Fin r \<and> m \<le> r \<and> r \<le> M"
  using assms by (cases a) auto

text \<open>A duration of whole seconds is a number without error, as long as the seconds are below \<open>2 ^ 53\<close>.\<close>

lemma as_secs_whole:
  assumes "unat s \<le> 2 ^ 53"
  shows "as_secs_f64 (from_secs s) = Fin (real (unat s))"
proof -
  have "int (unat s) \<le> 2 ^ 53" using assms by (metis of_nat_le_iff of_nat_numeral of_nat_power)
  from round_whole [OF _ this] have "f64_round (real (unat s)) = Fin (real (unat s))" by simp
  then show ?thesis by (simp add: as_secs_f64_def from_secs_def f64_round_def [of 0])
qed

lemma as_secs_nonneg: "at_least 0 (as_secs_f64 d)"
proof -
  have "at_least 0 (f64_round (real (unat (du_secs d))))" "at_least 0 (f64_round (real (unat (du_nanos d)) / 10 ^ 9))"
    by (rule round_nonneg, rule of_nat_0_le_iff)
       (rule round_nonneg, rule divide_nonneg_nonneg, rule of_nat_0_le_iff, simp)
  then show ?thesis
    unfolding as_secs_f64_def
    by (cases "f64_round (real (unat (du_secs d)))"; cases "f64_round (real (unat (du_nanos d)) / 10 ^ 9)")
       (auto intro: round_nonneg)
qed

lemma from_secs_f64_between:
  assumes "real m \<le> r" "r \<le> real M" "M < 2 ^ 64"
  shows "\<exists>d. from_secs_f64 (Fin r) = Ok d \<and> m * 10 ^ 9 \<le> total_nanos d \<and> total_nanos d \<le> M * 10 ^ 9"
proof -
  define n where "n = nat (round_even (r * 10 ^ 9))"
  have r: "0 \<le> r" using assms(1) by (rule order_trans [rotated]) simp
  have "of_int (int (m * 10 ^ 9)) \<le> r * 10 ^ 9" "r * 10 ^ 9 \<le> of_int (int (M * 10 ^ 9))" using assms(1,2) by simp_all
  then have "int (m * 10 ^ 9) \<le> round_even (r * 10 ^ 9)" "round_even (r * 10 ^ 9) \<le> int (M * 10 ^ 9)"
    by (auto intro: round_even_bounds)
  then have n: "m * 10 ^ 9 \<le> n" "n \<le> M * 10 ^ 9" by (simp_all add: n_def)
  then have "n div 10 ^ 9 \<le> M" by (metis div_le_mono nonzero_mult_div_cancel_right power_not_zero zero_neq_numeral)
  then have s: "n div 10 ^ 9 < 2 ^ 64" using assms(3) by simp
  have "n mod 10 ^ 9 < 10 ^ 9" by simp
  then have "n mod 10 ^ 9 < 2 ^ 32" by (rule less_trans) simp
  then have "unat (word_of_nat (n mod 10 ^ 9) :: u32) = n mod 10 ^ 9"
    "unat (word_of_nat (n div 10 ^ 9) :: u64) = n div 10 ^ 9"
    using s by (simp_all only: unat_of_nat take_bit_nat_eq_self_iff) simp_all
  then have "total_nanos \<lparr>du_secs = word_of_nat (n div 10 ^ 9), du_nanos = word_of_nat (n mod 10 ^ 9)\<rparr> = n"
    by (simp only: total_nanos_def Duration.select_convs) (simp only: div_mult_mod_eq)
  moreover have "from_secs_f64 (Fin r) = Ok \<lparr>du_secs = word_of_nat (n div 10 ^ 9), du_nanos = word_of_nat (n mod 10 ^ 9)\<rparr>"
    using r s unfolding from_secs_f64_def f64.case Let_def n_def by (simp only: not_less [symmetric] if_False if_True)
  ultimately show ?thesis using n by auto
qed

end
