(* ===== verification/Client_Reconnect.thy ===== *)
theory Client_Reconnect
  imports Client_Engine Rust_Float
begin

text \<open>
  \<open>extender-client/src/reconnect.rs\<close>: the policy, the delay between attempts and the retry loop. What
  the calls of \<open>attach_device\<close> return is an argument, one result per attempt; the loop returns its
  result with the durations it has slept. \<open>f64::powi\<close>, whose precision the standard library leaves
  open, is an argument too. The attempt counter wraps around, as in a release build; a debug build
  panics instead at the end of the failed attempt number \<open>2 ^ 32\<close> (counting from 1) of an unlimited policy.
\<close>

section \<open>The policy\<close>

record ReconnectPolicy =
  rp_enabled :: bool
  rp_max_retries :: u32
  rp_initial_delay :: Duration
  rp_max_delay :: Duration
  rp_backoff_factor :: f64

definition default_policy :: ReconnectPolicy where
  "default_policy =
     \<lparr>rp_enabled = True, rp_max_retries = 0, rp_initial_delay = from_secs 1, rp_max_delay = from_secs 30,
      rp_backoff_factor = Fin 2\<rparr>"

definition disabled_policy :: ReconnectPolicy where
  "disabled_policy = default_policy\<lparr>rp_enabled := False\<rparr>"

definition from_config :: "bool \<Rightarrow> u32 \<Rightarrow> u64 \<Rightarrow> u64 \<Rightarrow> ReconnectPolicy" where
  "from_config enabled max_retries initial_delay_secs max_delay_secs =
     \<lparr>rp_enabled = enabled, rp_max_retries = max_retries, rp_initial_delay = from_secs initial_delay_secs,
      rp_max_delay = from_secs max_delay_secs, rp_backoff_factor = Fin 2\<rparr>"

definition jitter_for_attempt :: "u32 \<Rightarrow> f64" where
  "jitter_for_attempt attempt =
     (let hash = ucast attempt * (2654435761 :: u64) in f64_round (real (unat (hash mod 1000)) / 1000))"

definition delay_for_attempt ::
  "(f64 \<Rightarrow> i32 \<Rightarrow> f64) \<Rightarrow> ReconnectPolicy \<Rightarrow> u32 \<Rightarrow> (Duration, unit) result" where
  "delay_for_attempt pow_i policy attempt =
     (let base = f64_mul (as_secs_f64 (rp_initial_delay policy)) (pow_i (rp_backoff_factor policy) attempt);
          capped = f64_min base (as_secs_f64 (rp_max_delay policy));
          jitter_fraction = jitter_for_attempt attempt;
          jittered = f64_mul capped (f64_add (Fin 1) (f64_mul jitter_fraction (f64_round (1 / 10))));
          final_secs = f64_min jittered (as_secs_f64 (rp_max_delay policy))
      in from_secs_f64 final_secs)"

definition should_retry :: "ReconnectPolicy \<Rightarrow> u32 \<Rightarrow> bool" where
  "should_retry policy attempt \<longleftrightarrow>
     rp_enabled policy \<and> (rp_max_retries policy = 0 \<or> attempt < rp_max_retries policy)"

section \<open>The loop\<close>

text \<open>\<open>attach n\<close> is what the \<open>n\<close>th call of \<open>attach_device\<close> returns.\<close>

partial_function (option) reconnect_loop ::
  "(f64 \<Rightarrow> i32 \<Rightarrow> f64) \<Rightarrow> ReconnectPolicy \<Rightarrow> (nat \<Rightarrow> ('a, 'e) result) \<Rightarrow> nat \<Rightarrow> u32 \<Rightarrow> Duration list
     \<Rightarrow> (('a, 'e) result \<times> Duration list) option" where
  "reconnect_loop pow_i policy attach n attempt slept =
     (case attach n of
        Ok device \<Rightarrow> Some (Ok device, slept)
      | Panic \<Rightarrow> Some (Panic, slept)
      | Err e \<Rightarrow>
          if \<not> should_retry policy attempt then Some (Err e, slept)
          else (case delay_for_attempt pow_i policy attempt of
                  Ok delay \<Rightarrow> reconnect_loop pow_i policy attach (n + 1) (attempt + 1) (slept @ [delay])
                | _ \<Rightarrow> Some (Panic, slept)))"

declare reconnect_loop.simps [code]

definition attach_with_reconnect ::
  "(f64 \<Rightarrow> i32 \<Rightarrow> f64) \<Rightarrow> ReconnectPolicy \<Rightarrow> (nat \<Rightarrow> ('a, 'e) result) \<Rightarrow> (('a, 'e) result \<times> Duration list) option" where
  "attach_with_reconnect pow_i policy attach =
     (if \<not> rp_enabled policy then Some (attach 0, []) else reconnect_loop pow_i policy attach 0 0 [])"

section \<open>The delay\<close>

text \<open>
  What is assumed of a policy and of \<open>powi\<close>: the delays are whole seconds, at most \<open>2 ^ 53\<close> as the cap,
  and a power of the factor is not negative, and at least 1 for an exponent that is not negative.
  (The attempt number becomes a signed exponent: from attempt \<open>2 ^ 31\<close> on it is negative.)
\<close>

definition sound_policy :: "(f64 \<Rightarrow> i32 \<Rightarrow> f64) \<Rightarrow> ReconnectPolicy \<Rightarrow> u64 \<Rightarrow> u64 \<Rightarrow> bool" where
  "sound_policy pow_i policy initial_secs max_secs \<longleftrightarrow>
     rp_initial_delay policy = from_secs initial_secs \<and> rp_max_delay policy = from_secs max_secs \<and>
     unat max_secs \<le> 2 ^ 53 \<and>
     (\<forall>n. at_least 0 (pow_i (rp_backoff_factor policy) n)) \<and>
     (\<forall>n. 0 \<le> sint n \<longrightarrow> at_least 1 (pow_i (rp_backoff_factor policy) n))"

lemma jitter_factor: "at_least 1 (f64_add (Fin 1) (f64_mul (jitter_for_attempt attempt) (f64_round (1 / 10))))"
proof -
  define h where "h = unat ((ucast attempt * (2654435761 :: u64)) mod 1000)"
  have "h < 1000" unfolding h_def by (simp add: unat_mod_distrib)
  then have "real h / 1000 \<le> of_int 1" by simp
  then obtain j where "f64_round (real h / 1000) = Fin j" "0 \<le> j" "j \<le> 1"
    using round_at_most [of "real h / 1000" 1] by auto
  then have j: "jitter_for_attempt attempt = Fin j" "0 \<le> j" "j \<le> 1"
    unfolding jitter_for_attempt_def Let_def h_def .
  obtain t where t: "f64_round (1 / 10) = Fin t" "0 \<le> t" "t \<le> 1" using round_at_most [of "1 / 10" 1] by auto
  have "j * t \<le> of_int 1" using j t by (simp add: mult_le_one)
  then obtain p where p: "f64_round (j * t) = Fin p" "0 \<le> p" using round_at_most [of "j * t" 1] j t by auto
  then show ?thesis using round_at_least [of 1 "1 + p"] by (simp add: j t)
qed

lemma mul_nonneg:
  "at_least 0 a \<Longrightarrow> at_least 0 b \<Longrightarrow> at_least 0 (f64_mul a b) \<or> f64_mul a b = NaN"
  by (cases a; cases b) (auto simp: inf_of_sign_def intro: round_nonneg)

lemma scaled_and_capped:
  assumes "at_least (real m) a" "at_least 0 b" "0 < m \<Longrightarrow> at_least 1 b" "m \<le> M" "M \<le> 2 ^ 53"
  shows "\<exists>r. f64_min (f64_mul a b) (Fin (real M)) = Fin r \<and> real m \<le> r \<and> r \<le> real M"
proof -
  have m: "int m \<le> 2 ^ 53" using assms(4,5) by simp
  have "at_least 0 a" using assms(1) by (cases a) (auto intro: order_trans [of 0 "real m"])
  then have "at_least (real m) (f64_mul a b) \<or> f64_mul a b = NaN"
    using mul_at_least [of "int m" a b] mul_nonneg [of a b] assms(1-3) m by (cases "m = 0") auto
  then show ?thesis using assms(4) by (intro min_bounds) auto
qed

text \<open>The delay is no shorter than the initial delay or the cap, whichever is less, and no longer than the cap.\<close>

lemma delay_between:
  fixes attempt :: u32
  assumes "sound_policy pow_i policy initial_secs max_secs"
  defines "low \<equiv> if 0 \<le> sint attempt then min (unat initial_secs) (unat max_secs) else 0"
  shows "\<exists>d. delay_for_attempt pow_i policy attempt = Ok d \<and> low * 10 ^ 9 \<le> total_nanos d \<and>
    total_nanos d \<le> unat max_secs * 10 ^ 9"
proof -
  define I where "I = unat initial_secs"
  define M where "M = unat max_secs"
  define g where "g = f64_add (Fin 1) (f64_mul (jitter_for_attempt attempt) (f64_round (1 / 10)))"
  define p where "p = pow_i (rp_backoff_factor policy) attempt"
  have p: "at_least 0 p" "0 < low \<Longrightarrow> at_least 1 p"
    using assms(1) by (auto simp: sound_policy_def p_def low_def split: if_splits)
  have g: "at_least 1 g" using jitter_factor by (simp add: g_def)
  then have g0: "at_least 0 g" by (cases g) auto
  have M: "as_secs_f64 (rp_max_delay policy) = Fin (real M)" "M \<le> 2 ^ 53"
    using assms(1) as_secs_whole [of max_secs] by (auto simp: sound_policy_def M_def)
  have low: "low \<le> M" "low \<le> I" by (simp_all add: low_def M_def I_def)
  have whole: "at_least (real low) (f64_round x)" if "real low \<le> x" for x
    using round_at_least [of "int low" x] that low(1) M(2) by simp
  have "at_least (real low) (f64_round (real I))" by (rule whole) (simp add: low(2))
  then have init: "at_least (real low) (as_secs_f64 (rp_initial_delay policy))"
    using assms(1) whole by (cases "f64_round (real I)")
      (auto simp: sound_policy_def as_secs_f64_def from_secs_def f64_round_def [of 0] I_def)
  obtain c where c: "f64_min (f64_mul (as_secs_f64 (rp_initial_delay policy)) p) (Fin (real M)) = Fin c" "real low \<le> c"
    using scaled_and_capped [OF init p low(1) M(2)] by auto
  obtain r where r: "f64_min (f64_mul (Fin c) g) (Fin (real M)) = Fin r" "real low \<le> r" "r \<le> real M"
    using scaled_and_capped [of low "Fin c" g M] c(2) g g0 low(1) M(2) by auto
  have "M < 2 ^ 64" using M(2) by (rule le_less_trans) simp
  from from_secs_f64_between [OF r(2,3) this] show ?thesis
    unfolding delay_for_attempt_def Let_def p_def [symmetric] g_def [symmetric] M c(1) r(1) M_def [symmetric] .
qed

section \<open>How the loop ends\<close>

definition failed :: "('a, 'e) result \<Rightarrow> bool" where
  "failed r = (case r of Err _ \<Rightarrow> True | _ \<Rightarrow> False)"

text \<open>The delay that follows attempt \<open>i\<close>, and those before attempt \<open>k\<close>.\<close>

definition delay_after :: "(f64 \<Rightarrow> i32 \<Rightarrow> f64) \<Rightarrow> ReconnectPolicy \<Rightarrow> nat \<Rightarrow> Duration" where
  "delay_after pow_i policy i =
     (case delay_for_attempt pow_i policy (word_of_nat i) of Ok d \<Rightarrow> d | _ \<Rightarrow> from_secs 0)"

abbreviation delays :: "(f64 \<Rightarrow> i32 \<Rightarrow> f64) \<Rightarrow> ReconnectPolicy \<Rightarrow> nat \<Rightarrow> Duration list" where
  "delays pow_i policy k \<equiv> map (delay_after pow_i policy) [0..<k]"

lemma delay_Ok:
  assumes "sound_policy pow_i policy i_secs m_secs"
  shows "delay_for_attempt pow_i policy (word_of_nat i) = Ok (delay_after pow_i policy i)"
  using delay_between [OF assms, of "word_of_nat i"]
  by (auto simp: delay_after_def)

lemma reconnect_stop: "\<not> failed (attach n) \<Longrightarrow> reconnect_loop pow_i policy attach n a slept = Some (attach n, slept)"
  by (subst reconnect_loop.simps) (auto simp: failed_def split: result.splits)

lemma reconnect_give_up:
  "\<not> should_retry policy a \<Longrightarrow> reconnect_loop pow_i policy attach n a slept = Some (attach n, slept)"
  by (subst reconnect_loop.simps) (auto split: result.splits)

lemma reconnect_again:
  "failed (attach n) \<Longrightarrow> should_retry policy a \<Longrightarrow> delay_for_attempt pow_i policy a = Ok d \<Longrightarrow>
     reconnect_loop pow_i policy attach n a slept = reconnect_loop pow_i policy attach (n + 1) (a + 1) (slept @ [d])"
  by (subst reconnect_loop.simps) (auto simp: failed_def split: result.splits)

lemma reconnect_skip:
  assumes "sound_policy pow_i policy i_secs m_secs"
    and "\<And>i. i < k \<Longrightarrow> failed (attach i) \<and> should_retry policy (word_of_nat i)"
  shows "reconnect_loop pow_i policy attach 0 0 [] =
    reconnect_loop pow_i policy attach k (word_of_nat k) (delays pow_i policy k)"
  using assms(2)
proof (induction k)
  case (Suc k)
  then show ?case
    using reconnect_again [of attach k policy "word_of_nat k" pow_i, OF _ _ delay_Ok [OF assms(1)]]
    by (simp add: algebra_simps)
qed simp

text \<open>An unlimited policy that never succeeds does not return.\<close>

abbreviation settled :: "ReconnectPolicy \<Rightarrow> (nat \<Rightarrow> ('a, 'e) result) \<Rightarrow> ('a, 'e) result \<Rightarrow> bool" where
  "settled policy attach r \<equiv>
     \<exists>k. r = attach k \<and> (rp_enabled policy \<and> rp_max_retries policy = 0 \<longrightarrow> \<not> failed (attach k))"

lemma reconnect_returns_least:
  assumes "reconnect_loop pow_i policy attach n a slept = Some res" "sound_policy pow_i policy i_secs m_secs"
  shows "settled policy attach (fst res)"
proof -
  have "sound_policy pow_i policy i_secs m_secs \<longrightarrow> settled policy attach (fst res)"
  proof (rule reconnect_loop.raw_induct [where P = "\<lambda>pow_i policy attach n a slept res.
      sound_policy pow_i policy i_secs m_secs \<longrightarrow> settled policy attach (fst res)", OF _ assms(1)], rule impI)
    fix loop and pow_i and policy :: ReconnectPolicy and attach :: "nat \<Rightarrow> ('a, 'b) result" and n a slept res
    assume IH: "\<And>pow_i policy attach n a slept res. loop pow_i policy attach n a slept = Some res \<Longrightarrow>
        sound_policy pow_i policy i_secs m_secs \<longrightarrow> settled policy attach (fst res)"
      and run: "(case attach n of Ok device \<Rightarrow> Some (Ok device, slept)
         | Err e \<Rightarrow> if \<not> should_retry policy a then Some (Err e, slept)
             else (case delay_for_attempt pow_i policy a of
                     Ok delay \<Rightarrow> loop pow_i policy attach (n + 1) (a + 1) (slept @ [delay])
                   | _ \<Rightarrow> Some (Panic, slept))
         | Panic \<Rightarrow> Some (Panic, slept)) = Some res"
      and sound: "sound_policy pow_i policy i_secs m_secs"
    obtain d where d: "delay_for_attempt pow_i policy a = Ok d" using delay_between [OF sound] by blast
    show "settled policy attach (fst res)"
    proof (cases "failed (attach n) \<and> should_retry policy a")
      case True
      then have "loop pow_i policy attach (n + 1) (a + 1) (slept @ [d]) = Some res"
        using run d by (auto simp: failed_def split: result.splits)
      then show ?thesis using IH sound by blast
    next
      case False
      then have "fst res = attach n" using run by (auto simp: failed_def split: result.splits if_splits)
      then show ?thesis using False by (auto simp: should_retry_def)
    qed
  qed
  then show ?thesis using assms(2) by blast
qed

lemma should_retry_upto:
  assumes "rp_enabled policy" "unat (rp_max_retries policy) = 0 \<or> i < unat (rp_max_retries policy)"
  shows "should_retry policy (word_of_nat i)"
proof -
  have "unat (rp_max_retries policy) < 2 ^ 32" using unsigned_less [of "rp_max_retries policy"] by simp
  then show ?thesis
    using assms by (auto simp: should_retry_def word_less_nat_alt unsigned_of_nat take_bit_nat_eq_self
      unsigned_eq_0_iff)
qed

lemma reconnect_reach:
  assumes "sound_policy pow_i policy i_secs m_secs" "rp_enabled policy" "\<forall>i < k. failed (attach i)"
    and "unat (rp_max_retries policy) = 0 \<or> k \<le> unat (rp_max_retries policy)"
  shows "reconnect_loop pow_i policy attach 0 0 [] =
    reconnect_loop pow_i policy attach k (word_of_nat k) (delays pow_i policy k)"
  by (rule reconnect_skip [OF assms(1)]) (use should_retry_upto assms in fastforce)

lemma reconnect_first:
  assumes "sound_policy pow_i policy i_secs m_secs" "rp_enabled policy" "\<not> failed (attach i)"
    and "unat (rp_max_retries policy) = 0 \<or> i \<le> unat (rp_max_retries policy)"
  shows "reconnect_loop pow_i policy attach 0 0 [] =
      Some (attach (LEAST i. \<not> failed (attach i)), delays pow_i policy (LEAST i. \<not> failed (attach i)))"
    (is "_ = Some (attach ?L, _)")
proof -
  have L: "\<not> failed (attach ?L)" "?L \<le> i" using assms(3) by (rule LeastI, rule Least_le)
  have "\<forall>j < ?L. failed (attach j)" using not_less_Least by blast
  moreover have "unat (rp_max_retries policy) = 0 \<or> ?L \<le> unat (rp_max_retries policy)"
    using assms(4) L(2) by linarith
  ultimately have "reconnect_loop pow_i policy attach 0 0 [] =
      reconnect_loop pow_i policy attach ?L (word_of_nat ?L) (delays pow_i policy ?L)"
    by (rule reconnect_reach [OF assms(1,2)])
  also have "\<dots> = Some (attach ?L, delays pow_i policy ?L)" by (rule reconnect_stop [of attach ?L, OF L(1)])
  finally show ?thesis .
qed

lemma reconnect_last:
  assumes "sound_policy pow_i policy i_secs m_secs" "rp_enabled policy" "0 < unat (rp_max_retries policy)"
    and "\<forall>i \<le> unat (rp_max_retries policy). failed (attach i)"
  shows "reconnect_loop pow_i policy attach 0 0 [] =
    Some (attach (unat (rp_max_retries policy)), delays pow_i policy (unat (rp_max_retries policy)))"
proof -
  let ?m = "unat (rp_max_retries policy)"
  have "\<not> should_retry policy (word_of_nat ?m)"
    using assms(3) by (simp add: should_retry_def unsigned_eq_0_iff unat_gt_0)
  from reconnect_give_up [OF this] reconnect_reach [OF assms(1,2), of ?m attach] assms(4) show ?thesis by simp
qed

lemma reconnect_never:
  assumes "sound_policy pow_i policy i_secs m_secs" "rp_enabled policy" "unat (rp_max_retries policy) = 0"
    and "\<forall>i. failed (attach i)"
  shows "reconnect_loop pow_i policy attach 0 0 [] = None"
proof (cases "reconnect_loop pow_i policy attach 0 0 []")
  case (Some res)
  from reconnect_returns_least [OF this assms(1)] assms(2-4) show ?thesis by (simp add: unsigned_eq_0_iff)
qed

section \<open>Properties\<close>

text \<open>
  C34: The delay between attempts. With whole-second delays (as the configuration gives them) and a cap
  of at most \<open>2 ^ 53\<close> seconds, computing the delay in floating point never panics, for any attempt
  number, and the result is never more than the cap; up to attempt \<open>2 ^ 31\<close> it is at least the initial
  delay, or the cap if that is less. Neither rounding, nor jitter, nor overflow of the power to
  infinity leaves the range.
\<close>

theorem reconnect_delay_bounded:
  assumes "sound_policy pow_i policy initial_secs max_secs"
  shows "\<exists>d. delay_for_attempt pow_i policy attempt = Ok d \<and> total_nanos d \<le> unat max_secs * 10 ^ 9 \<and>
    (unat attempt < 2 ^ 31 \<longrightarrow> min (unat initial_secs) (unat max_secs) * 10 ^ 9 \<le> total_nanos d)"
proof -
  have "0 \<le> sint attempt" if "unat attempt < 2 ^ 31"
  proof -
    have "uint attempt < 2 ^ 31" using that by (metis of_nat_less_iff of_nat_numeral of_nat_power uint_nat)
    moreover have "- (2 ^ 31) \<le> uint attempt" by (rule order_trans [OF _ uint_ge_0]) simp
    ultimately have "signed_take_bit 31 (uint attempt) = uint attempt" by (intro signed_take_bit_int_eq_self)
    then show ?thesis by (simp add: sint_uint)
  qed
  then show ?thesis using delay_between [OF assms, of attempt] by auto
qed

text \<open>
  C33: The retry loop ends, and how. The policy's delays are whole seconds, as the configuration gives
  them, the cap is at most \<open>2 ^ 53\<close> seconds, and \<open>powi\<close> gives no negative power of the factor, and at least 1
  for an exponent that is not negative (outside these bounds computing a delay may panic, which ends the
  loop). With reconnection disabled there is exactly one attempt.
  With a limit \<open>m > 0\<close> the loop returns after at most \<open>m + 1\<close> attempts: with the first one
  that does not fail, or with the error of the last. Without a limit it returns exactly when some
  attempt does not fail, with the first such one, and otherwise runs for ever (with a counter that
  wraps). It has slept once after each failed attempt before the last one, for the delay of that attempt.
  What it retries is the attach: once one succeeds it returns, so a session that drops later is not
  attached again, although its documentation says so.
\<close>

theorem reconnect_outcome:
  assumes "sound_policy pow_i policy initial_secs max_secs"
  shows "attach_with_reconnect pow_i policy attach =
     (let m = unat (rp_max_retries policy); first = (LEAST i. \<not> failed (attach i));
          ends_at = (\<lambda>k. Some (attach k, map (delay_after pow_i policy) [0..<k])) in
      if \<not> rp_enabled policy then ends_at 0
      else if m > 0 then ends_at (if \<exists>i \<le> m. \<not> failed (attach i) then first else m)
      else if \<exists>i. \<not> failed (attach i) then ends_at first
      else None)"
proof (cases "rp_enabled policy")
  case True
  let ?m = "unat (rp_max_retries policy)"
  have loop: "attach_with_reconnect pow_i policy attach = reconnect_loop pow_i policy attach 0 0 []"
    using True by (simp add: attach_with_reconnect_def)
  consider (ok) i where "\<not> failed (attach i)" "?m = 0 \<or> i \<le> ?m"
    | (limit) "0 < ?m" "\<forall>i \<le> ?m. failed (attach i)"
    | (ever) "?m = 0" "\<forall>i. failed (attach i)" by blast
  then show ?thesis
  proof cases
    case ok
    then have "0 < ?m \<Longrightarrow> \<exists>i \<le> ?m. \<not> failed (attach i)" "\<exists>i. \<not> failed (attach i)" by auto
    then show ?thesis
      unfolding loop reconnect_first [of pow_i policy initial_secs max_secs attach i, OF assms True ok] Let_def using True by simp
  next
    case limit
    then show ?thesis
      unfolding loop reconnect_last [of pow_i policy initial_secs max_secs attach, OF assms True limit] Let_def using True by auto
  next
    case ever
    then show ?thesis
      unfolding loop reconnect_never [of pow_i policy initial_secs max_secs attach, OF assms True ever] Let_def using True by simp
  qed
qed (simp add: attach_with_reconnect_def Let_def)

section \<open>The policy of the configuration\<close>

text \<open>Powers computed exactly and then rounded, as an instance of \<open>powi\<close>.\<close>

definition pow_rounded :: "f64 \<Rightarrow> i32 \<Rightarrow> f64" where
  "pow_rounded x n =
     (case x of
        Fin r \<Rightarrow> f64_round (if 0 \<le> sint n then r ^ nat (sint n) else 1 / r ^ nat (- sint n))
      | _ \<Rightarrow> x)"

lemma from_config_sound:
  assumes "unat max_secs \<le> 2 ^ 53"
  shows "sound_policy pow_rounded (from_config enabled retries initial_secs max_secs) initial_secs max_secs"
proof -
  have "at_least 1 (f64_round (2 ^ n))" for n using round_at_least [of 1 "2 ^ n"] by simp
  then show ?thesis using assms by (auto simp: sound_policy_def from_config_def pow_rounded_def intro: round_nonneg)
qed

text \<open>
  Without the bound on the cap the delay can panic: the largest number of seconds, as a floating-point
  number, is \<open>2 ^ 64\<close>, which no duration holds. Once the delay has grown to such a cap, the client
  panics instead of sleeping.
\<close>

lemma largest_cap: "as_secs_f64 (from_secs (- 1)) = Fin (2 ^ 64)"
proof -
  let ?x = "2 ^ 64 - 1 :: real"
  have "\<lfloor>log 2 ?x\<rfloor> = 63"
  proof (rule floor_unique)
    show "of_int 63 \<le> log 2 ?x" by (subst le_log_iff) simp_all
    show "log 2 ?x < of_int 63 + 1" by (subst log_less_iff) simp_all
  qed
  then have u: "f64_ulp ?x = 2 ^ 11" by (simp add: f64_ulp_def)
  have "\<lfloor>?x / 2 ^ 11\<rfloor> = 2 ^ 53 - 1" by (rule floor_unique) simp_all
  then have "round_even (?x / 2 ^ 11) = 2 ^ 53" by (simp add: round_even_def Let_def)
  then have "f64_round ?x = Fin (2 ^ 64)" using u by (simp add: f64_round_def Let_def)
  moreover have "real (unat (- 1 :: u64)) = ?x"
  proof -
    have "unat (- 1 :: u64) = 2 ^ 64 - 1" by (simp add: unsigned_minus_1_eq_mask mask_eq_exp_minus_1)
    then show ?thesis by simp
  qed
  moreover have "f64_round (2 ^ 64) = Fin (2 ^ 64)"
  proof -
    have "log 2 (2 ^ 64 :: real) = 64" using log_pow_cancel [of 2 64] by simp
    then have u: "f64_ulp (2 ^ 64) = 2 ^ 12" by (simp add: f64_ulp_def)
    have "round_even (of_int (2 ^ 52)) = 2 ^ 52" by (rule round_even_of_int)
    then have "round_even (2 ^ 64 / 2 ^ 12) = 2 ^ 52" by simp
    then show ?thesis using u by (simp add: f64_round_def Let_def)
  qed
  moreover have "f64_round (real (unat (0 :: u32)) / 10 ^ 9) = Fin 0" by (simp add: f64_round_def)
  ultimately show ?thesis
    unfolding as_secs_f64_def from_secs_def Duration.select_convs by (simp only: f64_add.simps add_0_right)
qed

lemma largest_cap_panics: "from_secs_f64 (as_secs_f64 (from_secs (- 1))) = Panic"
proof -
  have "round_even (of_int (2 ^ 64 * 10 ^ 9)) = 2 ^ 64 * 10 ^ 9" by (rule round_even_of_int)
  then show ?thesis by (simp add: largest_cap from_secs_f64_def Let_def)
qed

theorem reconnect_delay_bounded_witness:
  "\<exists>d. delay_for_attempt pow_rounded (from_config True 5 1 30) 3 = Ok d \<and>
     10 ^ 9 \<le> total_nanos d \<and> total_nanos d \<le> 30 * 10 ^ 9"
proof -
  have "sound_policy pow_rounded (from_config True 5 1 30) 1 30" by (rule from_config_sound) simp
  from reconnect_delay_bounded [OF this, of 3] show ?thesis by auto
qed

theorem reconnect_outcome_witness:
  "attach_with_reconnect pow_rounded (from_config True 5 1 30) (\<lambda>n. if n < 2 then Err () else Ok n) =
     Some (Ok 2, map (delay_after pow_rounded (from_config True 5 1 30)) [0, 1])"
proof -
  let ?attach = "\<lambda>n :: nat. if n < 2 then Err () else Ok n"
  have sound: "sound_policy pow_rounded (from_config True 5 1 30) 1 30" by (rule from_config_sound) simp
  have "(LEAST i. \<not> failed (?attach i)) = 2" by (rule Least_equality) (auto simp: failed_def split: if_splits)
  moreover have "[0..<2] = [0, 1]" by code_simp
  moreover have "\<exists>i \<le> 5. \<not> failed (?attach i)" by (rule exI [of _ 2]) (simp add: failed_def)
  ultimately show ?thesis
    using reconnect_outcome [OF sound, of ?attach] by (simp add: from_config_def Let_def)
qed

end
