(* ===== verification/Server_Health.thy ===== *)
theory Server_Health
  imports Server_Session
begin

text \<open>
  \<open>SessionHealth\<close> of \<open>extender-server/src/session.rs\<close>: when the last reply of a session was written. A
  session with its clock is a step relation over the steps of \<open>Server_Session\<close>.
\<close>

record SessionHealth =
  last_urb_at :: "instant option"

definition SessionHealth_new :: SessionHealth where
  "SessionHealth_new = \<lparr>last_urb_at = None\<rparr>"

definition record_urb :: "instant \<Rightarrow> SessionHealth \<Rightarrow> SessionHealth" where
  "record_urb now h = h\<lparr>last_urb_at := Some now\<rparr>"

definition last_urb_time :: "SessionHealth \<Rightarrow> instant option" where
  "last_urb_time h = last_urb_at h"

definition idle_duration :: "instant \<Rightarrow> SessionHealth \<Rightarrow> nat option" where
  "idle_duration now h = map_option (\<lambda>t. now - t) (last_urb_at h)"

text \<open>The writer records the time after each message that it has written, not after an error.\<close>

definition writer_health :: "instant \<Rightarrow> session_event \<Rightarrow> session \<Rightarrow> SessionHealth \<Rightarrow> SessionHealth" where
  "writer_health now ev s' h = (if ev = Write \<and> s_writer_alive s' then record_urb now h else h)"

inductive timed_step ::
  "usb_ops \<Rightarrow> instant \<times> SessionHealth \<times> session \<Rightarrow> instant \<times> SessionHealth \<times> session \<Rightarrow> bool" for handle where
  tick: "timed_step handle (now, h, s) (Suc now, h, s)"
| move: "session_step handle ev s = Some s' \<Longrightarrow> timed_step handle (now, h, s) (now, writer_health now ev s' h, s')"

definition health_ok :: "instant \<times> SessionHealth \<times> session \<Rightarrow> bool" where
  "health_ok st = (case st of (now, h, s) \<Rightarrow>
     (case last_urb_time h of None \<Rightarrow> s_written s = [] | Some t \<Rightarrow> s_written s \<noteq> [] \<and> t \<le> now))"

lemma written_step:
  assumes "session_step handle ev s = Some s'"
  shows "(ev = Write \<and> s_writer_alive s' \<and> s_written s' \<noteq> []) \<or>
    (\<not> (ev = Write \<and> s_writer_alive s') \<and> s_written s' = s_written s)"
  using assms
  by (cases ev) (auto simp: reader_read_def reader_insert_def reader_reply_def reader_cleanup_def task_complete_def
    task_send_def task_remove_def task_drop_def writer_write_def set_phase_def cancel_all_in_flight_def Let_def
    split: if_splits result.splits prod.splits UrbMessage.splits reader_pc.splits phase.splits list.splits option.splits)

text \<open>
  The session has a time exactly when it has written a reply, the time is not in the future, and a
  session that has never replied is not idle but unknown.
\<close>

lemma health_invariant:
  assumes "(timed_step handle)\<^sup>*\<^sup>* (now0, SessionHealth_new, new_session input out) (now, h, s)"
  shows "health_ok (now, h, s)" and "idle_duration now h = Some d \<Longrightarrow> d \<le> now" "idle_duration now h = None \<longleftrightarrow> s_written s = []"
proof -
  have step: "health_ok st'" if "timed_step handle st st'" "health_ok st" for st st'
    using that
  proof cases
    case (move ev s s' now h)
    from written_step [OF move(3)] that(2) show ?thesis
      by (auto simp: move health_ok_def last_urb_time_def writer_health_def record_urb_def split: option.splits)
  qed (auto simp: health_ok_def split: option.splits)
  have "health_ok (now0, SessionHealth_new, new_session input out)"
    by (simp add: health_ok_def SessionHealth_new_def last_urb_time_def new_session_def)
  from assms this show ok: "health_ok (now, h, s)" by (induction rule: rtranclp_induct) (auto intro: step)
  show "idle_duration now h = Some d \<Longrightarrow> d \<le> now" by (auto simp: idle_duration_def)
  show "idle_duration now h = None \<longleftrightarrow> s_written s = []"
    using ok by (auto simp: idle_duration_def health_ok_def last_urb_time_def split: option.splits)
qed

end
