(* ===== verification/Spec2Isabelle.thy ===== *)
theory Spec2Isabelle
  imports Daemon_Windows Client_Drivers Client_Macos Client_Windows Client_Reconnect Server_Health
begin

text \<open>
  Extender shares USB devices over TCP with the USB/IP protocol: a server exports local devices, a
  client lists and imports them, a daemon with a JSON-RPC interface controls both, and a command
  line tool calls the daemon. This library models the Rust sources of the six crates under
  \<open>src/extender/crates\<close> and proves the properties that make them correct. Names of definitions
  are those of the source where HOL allows it; record fields carry a prefix.

  \<^bold>\<open>How the code is modelled.\<close> Structs are records, enums datatypes, integers words of their width,
  strings byte strings. A fallible function returns \<open>result\<close> (\<open>Prelude\<close>): a value, an error of the
  source's error type, or a panic, so that absence of panics can be stated. A connection is two
  directions: a \<open>stream\<close> of bytes to read, with how it ends, and a \<open>sink\<close> that may refuse bytes.
  Shared state is passed explicitly; where tasks interleave, the model is a step relation and the
  properties are proved by induction on runs. Code outside the repository (libusb, the kernel's
  virtual host controller, DriverKit, rustls, serde\_json, toml, mdns-sd, rcgen, the operating
  system) is an argument, usually a record of functions, and what is assumed of it is a named
  hypothesis, such as \<open>usb_lawful\<close> (a transfer moves at most the buffer) or \<open>win_lawful\<close> (what the Windows
  driver promises); of the Linux kernel nothing is assumed.

  \<^bold>\<open>Protocol\<close> (crate \<open>extender-protocol\<close>). \<open>Wire_Codes\<close>: op codes, errors, the trait \<open>WireFormat\<close> as
  the locale \<open>wire_format\<close>. \<open>Wire_Device\<close>, \<open>Wire_Discovery\<close>, \<open>Wire_Urb\<close>: encode and decode of every
  message, each type an interpretation of the locale. \<open>Wire_Codec\<close>: the two streaming readers and
  writers of \<open>codec.rs\<close>. Shown: round trips over streams, agreement of the streaming readers with
  the buffer decoders, the exact errors, bounds on what is read, no panics.

  \<^bold>\<open>Server\<close> (\<open>extender-server\<close>). \<open>Server_Device\<close>: enumeration, filters and the glob matcher.
  \<open>Server_Transfer\<close>: handles, transfers, the reply to a submitted URB. \<open>Server_Export\<close>: the registry of
  exported devices, with its invariant, its refinement of a small lifecycle (\<open>hold\<close>) and the
  grace period after a lost connection, whose clean-up tasks start to sleep when they are first
  polled. \<open>Server_Session\<close>: reader, transfer tasks and writer of a
  URB session as interleaved steps; input, transfers and output may block for any time, senders wait for
  room in the channel, and a session cannot deadlock and ends. \<open>Server_Health\<close>: its time of the last reply.
  \<open>Server_Connection\<close>: the first request of a connection. \<open>Server_Engine\<close>: the accept loop and its
  tasks over one registry; a device is served by one connection at a time. \<open>Net_Tls\<close>: how both ends
  configure TLS.

  \<^bold>\<open>Client\<close> (\<open>extender-client\<close>). \<open>Client_Remote\<close> and \<open>End_To_End\<close>: listing and importing, composed with
  the server's handler. \<open>Client_Vhci\<close>, \<open>Client_Engine\<close>: ports of the Linux host controller, attach,
  detach and listing; \<open>Client_Windows\<close>: the same on Windows, with the structures exchanged with the
  driver; \<open>win_lawful\<close> is what the driver promises. \<open>Client_Reconnect\<close>: the reconnection loop and its delays, in the floating point of
  \<open>Rust_Float\<close>. \<open>Client_Macos\<close>: attach and detach on macOS and the loop that forwards requests.
  \<open>Client_Conn\<close> and \<open>Client_Storage\<close>, \<open>Client_Hid\<close>, \<open>Client_Serial\<close>, \<open>Client_Network\<close>, \<open>Client_Audio\<close>: the
  user space drivers over a URB connection; \<open>Client_Drivers\<close> states what they share, that every
  exchange they make is a well-formed conversation. \<open>Client_Discover\<close>: finding servers.

  \<^bold>\<open>Daemon, interface and tool\<close> (\<open>extender-daemon\<close>, \<open>extender-api\<close>, \<open>extender-cli\<close>). \<open>Api_Rpc\<close>: JSON-RPC
  messages and their frames. \<open>Daemon_Config\<close>: configuration layers and the device access list.
  \<open>Daemon_Api\<close>: every handler and the loop of a connection, with its caller; a call performs the
  method that was asked for, and whatever is exported passed the access list. \<open>Daemon_Run\<close>:
  startup, PID file, privileges, signals, the API socket. \<open>Daemon_Mdns\<close>: the announcement, and what
  \<open>Client_Discover\<close> makes of it. \<open>Cli\<close>: the commands and what they print. \<open>Daemon_Windows\<close>: what
  differs on Windows. The property at the end of this theory goes through all of them: a device
  bound with the tool is listed from elsewhere.

  \<^bold>\<open>Interfaces.\<close> The locales state what one part needs of another and are interpreted on the model's
  own definitions: \<open>wire_format\<close> and \<open>canonical_wire_format\<close> on each message type, \<open>message_stream\<close> on
  the two readers of the codec, \<open>message_channel\<close> on the frames of the daemon's interface,
  \<open>device_lock\<close> on the registry, \<open>driver_operation\<close> on the operations of the drivers.

  \<^bold>\<open>Bounds and loops.\<close> Recursive functions are total with a termination proof; loops over events are
  recursion over the list of events. The reconnection loop, which may run forever, is a
  \<open>partial_function\<close> in \<open>option\<close>, and the property about it says when it returns; its delays are
  bounded for caps of up to \<open>2 ^ 53\<close> seconds, the whole numbers \<open>f64\<close> represents. Session numbers
  are 64-bit words: the properties of the registry hold for runs of fewer than \<open>2 ^ 64 - 2\<close> steps,
  before the counter can wrap. A device list carries at most 256 devices, the limit of the client's
  reader.

  \<^bold>\<open>Not modelled.\<close> The stubs for other systems, which only report that a feature is missing; log
  output and the wording of errors; the parser of the command line (\<open>clap\<close>); the driver extension
  in C++ and the desktop applications in Swift and C\#, which are not Rust.
\<close>

section \<open>Exporting a device and finding it from another machine\<close>

text \<open>
  A registry whose devices can all be announced stays so when the daemon binds a device, if the
  enumeration finds only such devices.
\<close>

lemma bind_announced:
  assumes "bind w b st = (Ok v, st')" "announced (api_registry st)"
    and "\<forall>ds d. w_bind_local w = Ok ds \<longrightarrow> d \<in> set ds \<longrightarrow> is_valid_bus_id (ld_bus_id d) \<and> sendable d"
  shows "announced (api_registry st')" and "b \<in> dom (reg_devices (api_registry st'))"
proof -
  obtain ds loc handle where "w_bind_local w = Ok ds" "loc \<in> set ds" "ld_bus_id loc = b"
    and reg: "api_registry st' = (api_registry st)\<lparr>reg_devices := (reg_devices (api_registry st))(b \<mapsto>
      \<lparr>ex_device = loc, ex_handle = handle, ex_active_session = None, ex_session_state = None\<rparr>)\<rparr>"
    using bind_Ok [OF assms(1)] by blast
  moreover from this have "is_valid_bus_id b \<and> sendable loc" using assms(3) by blast
  ultimately show "announced (api_registry st')"
    using assms(2) by (simp add: announced_def)
  show "b \<in> dom (reg_devices (api_registry st'))" by (simp add: reg)
qed

text \<open>
  C40: Exporting a device reaches the machines that may import it. When the daemon can bind the
  device, \<open>extender bind\<close> sends the request over the API socket, the daemon performs it, and the
  tool reports the success. After that \<open>extender list -r\<close>, asked from anywhere over TCP or TLS, gets the
  device list from the USB/IP server that shares the daemon's registry: the exported devices in
  the order of the server, the new one among them and none that is not exported, each with its bus ID, vendor
  and product. In the human form (the default) it prints a header, a rule and a row for each that begins with the bus ID; in the
  quiet form the bus IDs; in the JSON form what serde\_json makes of the devices. (At most 256 devices are
  exported, the enumerated ones have valid bus IDs and can be sent, and the JSON codec reads back what it wrote.)
\<close>

theorem bound_device_is_listed:
  assumes "tx_request (sh_codec sh) (method_request (BindDevice b)) = Ok req"
    and "rx_request (sh_codec sh) req = Ok (method_request (BindDevice b))" "fits req"
    and "perform w (BindDevice b) st = (Ok v, st')"
    and "tx_response (sh_codec sh) (JsonRpcResponse_success (Some (JNumber 1)) v) = Ok bs"
    and "rx_response (sh_codec sh) bs = Ok (JsonRpcResponse_success (Some (JNumber 1)) v)" "fits bs"
    and "s' = handle_request (sh_codec sh) w
      (Daemon_Api.new_session (received (fst (call_daemon (sh_codec sh) (BindDevice b) (Ok (received [], empty_sink)))))
         empty_sink st)"
    and "sh_call sh sock (BindDevice b) = Ok (received (sent (ss_writer s')), empty_sink)"
    and "announced (api_registry st)"
    and "\<forall>ds d. w_bind_local w = Ok ds \<longrightarrow> d \<in> set ds \<longrightarrow> is_valid_bus_id (ld_bus_id d) \<and> sendable d"
    and "set order = dom (reg_devices (api_registry (ss_state s')))" "length order \<le> 256"
    and "sh_parse_addr sh (host @ '':'' @ dec_string (unat (unwrap_port port))) = Ok addr"
    and "handle_connection False order now (api_registry (ss_state s'))
      (received (sent (fst (devlist_exchange (received []) empty_sink)))) empty_sink = (reg', r', w', fin)"
    and "connects sh addr tls \<lparr>tk_ca_path = ca, tk_client_cert_path = None, tk_client_key_path = None,
           tk_server_name = Some host\<rparr> (sent w')"
  shows "run sh daemon tls_gen \<lparr>cl_socket = sock, cl_format = fmt, cl_command = Bind_cmd b\<rparr> =
      Ok (print_ok (sh_serde sh) (''Device '' @ b @ '' exported successfully.'') fmt) \<and>
    b \<in> set order \<and> fin = Closed \<and> reg' = api_registry (ss_state s') \<and>
    (\<exists>devices. length devices = length order \<and>
       (\<forall>i e. i < length order \<longrightarrow> reg_devices reg' (order ! i) = Some e \<longrightarrow>
          di_bus_id (devices ! i) = order ! i \<and> di_vendor_id (devices ! i) = ld_vendor_id (ex_device e) \<and>
          di_product_id (devices ! i) = ld_product_id (ex_device e)) \<and>
       run sh daemon tls_gen \<lparr>cl_socket = sock', cl_format = Human, cl_command = List loc (Some host) port tls ca\<rparr> =
         Ok (row [(12, ''BUS ID''), (10, ''VID:PID''), (20, ''MANUFACTURER''), (20, ''PRODUCT''), (10, ''SPEED''),
                  (6, ''BOUND'')] # replicate 80 (CHR ''-'') # map device_row devices) \<and>
       (\<forall>i < length order. \<exists>rest. device_row (devices ! i) = order ! i @ rest) \<and>
       run sh daemon tls_gen \<lparr>cl_socket = sock', cl_format = Quiet, cl_command = List loc (Some host) port tls ca\<rparr> =
         Ok order \<and>
       run sh daemon tls_gen \<lparr>cl_socket = sock', cl_format = Json, cl_command = List loc (Some host) port tls ca\<rparr> =
         unwrap_text (sd_devices_text (sh_serde sh) devices))"
proof -
  have r: "rpc_response (Some (JNumber 1)) (Ok v) = Some (JsonRpcResponse_success (Some (JNumber 1)) v)"
    by (simp add: rpc_response_def)
  have s': "ss_state s' = st'" "sent (ss_writer s') = frame bs"
    using request_handled [OF assms(1-4) r assms(5), folded assms(8)] assms(7)
    by (simp_all add: send_bytes_fits)
  have "bind w b st = (Ok v, st')" using assms(4) by simp
  note st' = bind_announced [OF this assms(10,11), folded s'(1)]
  have bound: "daemon_call sh sock (BindDevice b) = Ok v"
    using response_answered [OF assms(1,3,7) r assms(6)] s'(2) assms(9) by (simp add: daemon_call_Ok)
  have order: "set order \<subseteq> dom (reg_devices (api_registry (ss_state s')))" using assms(12) by simp
  obtain devices where devices: "length devices = length order"
    "\<And>i e. i < length order \<Longrightarrow> reg_devices (api_registry (ss_state s')) (order ! i) = Some e \<Longrightarrow>
       di_bus_id (devices ! i) = order ! i \<and> di_vendor_id (devices ! i) = ld_vendor_id (ex_device e) \<and>
       di_product_id (devices ! i) = ld_product_id (ex_device e)"
    "\<And>sock fmt loc. list_run sh sock fmt loc (Some host) port tls ca = print_devices (sh_serde sh) devices fmt"
    "reg' = api_registry (ss_state s')" "fin = Closed"
    by (rule list_remote_lists_exports [OF st'(1) order assms(13,14,16,15)]) blast
  have ids: "di_bus_id (devices ! i) = order ! i" if "i < length order" for i
    using devices(2) [OF that] order nth_mem [OF that] by blast
  then have quiet: "map di_bus_id devices = order" by (simp add: list_eq_iff_nth_eq devices(1))
  have rows: "\<exists>rest. device_row (devices ! i) = order ! i @ rest" if "i < length order" for i
    using device_row_starts [of "devices ! i"] ids [OF that] by simp
  have b: "b \<in> set order" using st'(2) assms(12) by simp
  then have "devices \<noteq> []" using devices(1) by auto
  then have list: "run sh daemon tls_gen \<lparr>cl_socket = sock', cl_format = Human, cl_command = List loc (Some host) port tls ca\<rparr> =
      Ok (row [(12, ''BUS ID''), (10, ''VID:PID''), (20, ''MANUFACTURER''), (20, ''PRODUCT''), (10, ''SPEED''),
                  (6, ''BOUND'')] # replicate 80 (CHR ''-'') # map device_row devices)"
    "run sh daemon tls_gen \<lparr>cl_socket = sock', cl_format = Quiet, cl_command = List loc (Some host) port tls ca\<rparr> = Ok order"
    "run sh daemon tls_gen \<lparr>cl_socket = sock', cl_format = Json, cl_command = List loc (Some host) port tls ca\<rparr> =
      unwrap_text (sd_devices_text (sh_serde sh) devices)"
    using quiet by (simp_all add: run_def devices(3) print_devices_def del: row.simps)
  have "run sh daemon tls_gen \<lparr>cl_socket = sock, cl_format = fmt, cl_command = Bind_cmd b\<rparr> =
      Ok (print_ok (sh_serde sh) (''Device '' @ b @ '' exported successfully.'') fmt)"
    using bound by (simp add: run_def run_bind_def)
  then show ?thesis
    by (intro conjI exI [of _ devices] devices(1,4,5) b list) (simp_all add: devices(2,4) rows)
qed

text \<open>A tool beside a daemon with one device, which is bound and then listed.\<close>

definition sample_shell :: "stream \<Rightarrow> stream \<Rightarrow> shell" where
  "sample_shell answer devlist =
     \<lparr>sh_codec = sample_codec,
      sh_serde = \<lparr>sd_devices_text = (\<lambda>_. Ok []), sd_exported_text = (\<lambda>_. Ok []), sd_imported_text = (\<lambda>_. Ok []),
        sd_pretty = (\<lambda>_. Ok []), sd_compact = (\<lambda>_. []), sd_to_devices = (\<lambda>_. Ok []),
        sd_to_exported = (\<lambda>_. Ok []), sd_to_status = (\<lambda>_. Err [])\<rparr>,
      sh_call = (\<lambda>_ _. Ok (answer, empty_sink)), sh_parse_addr = Ok,
      sh_tcp = (\<lambda>_. Connected devlist empty_sink), sh_tls = (\<lambda>_. Ok ()), sh_handshake = (\<lambda>_ _. Err []),
      sh_discover = (\<lambda>_. []), sh_ip = (\<lambda>a. a), sh_port = (\<lambda>_. 3240)\<rparr>"

theorem bound_device_is_listed_witness:
  "\<exists>answer devlist. \<forall>daemon tls_gen.
     run (sample_shell answer devlist) daemon tls_gen
       \<lparr>cl_socket = ''s'', cl_format = Human, cl_command = Bind_cmd ''1-1''\<rparr> =
       Ok [''Device 1-1 exported successfully.''] \<and>
     run (sample_shell answer devlist) daemon tls_gen
       \<lparr>cl_socket = ''s'', cl_format = Quiet, cl_command = List False (Some ''srv'') None False None\<rparr> =
       Ok [''1-1''] \<and>
     (\<exists>header rule rest. run (sample_shell answer devlist) daemon tls_gen
       \<lparr>cl_socket = ''s'', cl_format = Human, cl_command = List False (Some ''srv'') None False None\<rparr> =
       Ok [header, rule, ''1-1'' @ rest])"
proof -
  define s' where "s' = handle_request sample_codec sample_world
    (Daemon_Api.new_session (received (fst (call_daemon sample_codec (BindDevice ''1-1'') (Ok (received [], empty_sink)))))
       empty_sink sample_daemon)"
  obtain reg' r' w' fin where c: "handle_connection False [''1-1''] 5 (api_registry (ss_state s'))
      (received (sent (fst (devlist_exchange (received []) empty_sink)))) empty_sink = (reg', r', w', fin)"
    by (cases rule: prod_cases4)
  let ?sh = "sample_shell (received (sent (ss_writer s'))) (received (sent w'))"
  have codec: "tx_request (sh_codec ?sh) (method_request (BindDevice ''1-1'')) = Ok [1]"
    "rx_request (sh_codec ?sh) [1] = Ok (method_request (BindDevice ''1-1''))" "fits [1]"
    "tx_response (sh_codec ?sh) (JsonRpcResponse_success (Some (JNumber 1)) bound_reply) = Ok [2]"
    "rx_response (sh_codec ?sh) [2] = Ok (JsonRpcResponse_success (Some (JNumber 1)) bound_reply)" "fits [2]"
    by (simp_all add: sample_shell_def sample_codec_def fits_def)
  have v: "is_valid_bus_id ''1-1''" by code_simp
  have "s' = handle_request (sh_codec ?sh) sample_world
    (Daemon_Api.new_session (received (fst (call_daemon (sh_codec ?sh) (BindDevice ''1-1'') (Ok (received [], empty_sink)))))
       empty_sink sample_daemon)"
    by (simp add: s'_def sample_shell_def)
  note bind = codec(1-3) sample_bind codec(4-6) this
  have state: "dom (reg_devices (api_registry (ss_state s'))) = {''1-1''}"
    using request_handled [OF bind(1-4) _ bind(5), folded bind(8)]
    by (simp add: rpc_response_def send_bytes_fits codec(6) bind_device_with_def with_session_timeout_def)
  have world: "announced (api_registry sample_daemon)"
    "\<forall>ds d. w_bind_local sample_world = Ok ds \<longrightarrow> d \<in> set ds \<longrightarrow> is_valid_bus_id (ld_bus_id d) \<and> sendable d"
    using v sample_sendable
    by (simp_all add: announced_def sample_daemon_def ApiState_new_def with_session_timeout_def sample_world_def
      sample_device_def)
  have shell: "sh_call ?sh ''s'' (BindDevice ''1-1'') = Ok (received (sent (ss_writer s')), empty_sink)"
    "sh_parse_addr ?sh (''srv'' @ '':'' @ dec_string (unat (unwrap_port None))) =
       Ok (''srv'' @ '':'' @ dec_string (unat (unwrap_port None)))"
    "connects ?sh addr False config (sent w')" for addr config
    by (simp_all add: sample_shell_def connects_def)
  have order: "set [''1-1''] = dom (reg_devices (api_registry (ss_state s')))" "length [''1-1''] \<le> 256"
    using state by simp_all
  have "run ?sh daemon tls_gen \<lparr>cl_socket = ''s'', cl_format = Human, cl_command = Bind_cmd ''1-1''\<rparr> =
      Ok [''Device 1-1 exported successfully.''] \<and>
    run ?sh daemon tls_gen
      \<lparr>cl_socket = ''s'', cl_format = Quiet, cl_command = List False (Some ''srv'') None False None\<rparr> =
      Ok [''1-1''] \<and>
    (\<exists>header rule rest. run ?sh daemon tls_gen
      \<lparr>cl_socket = ''s'', cl_format = Human, cl_command = List False (Some ''srv'') None False None\<rparr> =
      Ok [header, rule, ''1-1'' @ rest])" for daemon tls_gen
  proof -
    note all = bound_device_is_listed [OF bind shell(1) world order shell(2) c shell(3), where daemon = daemon
      and tls_gen = tls_gen and fmt = Human and sock' = "''s''" and loc = False and ca = None]
    obtain devices :: "DeviceInfo list" where devices: "length devices = 1"
      "run ?sh daemon tls_gen \<lparr>cl_socket = ''s'', cl_format = Human, cl_command = List False (Some ''srv'') None False None\<rparr> =
         Ok (row [(12, ''BUS ID''), (10, ''VID:PID''), (20, ''MANUFACTURER''), (20, ''PRODUCT''), (10, ''SPEED''),
                  (6, ''BOUND'')] # replicate 80 (CHR ''-'') # map device_row devices)"
      "\<exists>rest. device_row (devices ! 0) = ''1-1'' @ rest"
      "run ?sh daemon tls_gen \<lparr>cl_socket = ''s'', cl_format = Quiet, cl_command = List False (Some ''srv'') None False None\<rparr> =
         Ok [''1-1'']"
      using all by (auto simp del: row.simps)
    obtain d where "devices = [d]" using devices(1) by (auto simp: length_Suc_conv)
    with devices(2,3) have "\<exists>header rule rest. run ?sh daemon tls_gen
      \<lparr>cl_socket = ''s'', cl_format = Human, cl_command = List False (Some ''srv'') None False None\<rparr> =
      Ok [header, rule, ''1-1'' @ rest]" by (auto simp del: row.simps)
    with all devices(4) show ?thesis by (simp add: print_ok_def)
  qed
  then show ?thesis by blast
qed

end
